theory Spec2Isabelle
  imports Complex_Main "HOL-Library.AList"
begin

section \<open>Data model\<close>

text \<open>
  The session code of the quiz server (\<^verbatim>\<open>services/gameSession\<close>, the class
  \<^verbatim>\<open>GameSession\<close> and the registry \<^verbatim>\<open>activeGames\<close>) and the socket handlers
  (\<^verbatim>\<open>socket/handlers.ts\<close>) are embedded as functions on explicit state.

  A JavaScript \<^verbatim>\<open>Map\<close> is an association list in insertion order: \<^verbatim>\<open>set\<close> is
  \<^const>\<open>AList.update\<close> (an existing key keeps its place, a new key goes to the end),
  \<^verbatim>\<open>get\<close> is \<^const>\<open>map_of\<close>, \<^verbatim>\<open>delete\<close> is \<^const>\<open>AList.delete\<close>.
  Numbers that the code uses as integers (scores, option ids, millisecond timestamps,
  the question index) are \<^typ>\<open>int\<close>; the elapsed time in seconds is a \<^typ>\<open>rat\<close>.
\<close>

datatype GameStatus = IDLE | WAITING | QUESTION | REVEAL | LEADERBOARD | FINISHED

datatype error = Error string | TypeError

record Player =
  player_id :: string
  username :: string
  score :: int
  currentAnswer :: "int option"
  answerTimestamp :: "int option"

record Quiz =
  title :: string
  timer_seconds :: int

record Question =
  question_id :: int
  question_text :: string

record QuizOption =
  option_id :: int
  option_text :: string
  is_correct :: bool

record QuestionWithOptions = Question +
  options :: "QuizOption list"

text \<open>
  The database (\<^verbatim>\<open>database/db\<close>) is outside the sources; the three queries the
  constructor runs are the fields of a parameter.
\<close>

record Db =
  select_quiz :: "int \<Rightarrow> Quiz option"
  select_questions :: "int \<Rightarrow> Question list"
  select_options :: "int \<Rightarrow> QuizOption list"

record QuestionData =
  qd_questionIndex :: int
  qd_totalQuestions :: int
  qd_questionText :: string
  qd_options :: "(int \<times> string) list"
  qd_timerSeconds :: int

record QuestionEnd =
  correctOptionId :: int
  playerResults :: "(string \<times> bool \<times> int) list"

record GameSession =
  gameCode :: string
  quizId :: int
  quizTitle :: string
  players :: "(string \<times> Player) list"
  currentQuestionIndex :: int
  totalQuestions :: int
  timerSeconds :: int
  status :: GameStatus
  questionStartTime :: "int option"
  adminSocketId :: string
  questions :: "QuestionWithOptions list"
  questionResults :: "(string \<times> bool \<times> int) list"
  questionTimer :: "nat option"

section \<open>The session's methods\<close>

definition toLowerCase_char :: "char \<Rightarrow> char" where
  "toLowerCase_char c =
     (let n = (of_char c :: nat) in if 65 \<le> n \<and> n \<le> 90 then char_of (n + 32) else c)"

definition toUpperCase_char :: "char \<Rightarrow> char" where
  "toUpperCase_char c =
     (let n = (of_char c :: nat) in if 97 \<le> n \<and> n \<le> 122 then char_of (n - 32) else c)"

text \<open>Case conversion, on ASCII letters (the strings of the model are byte strings).\<close>

definition toLowerCase :: "string \<Rightarrow> string" where
  "toLowerCase = map toLowerCase_char"

definition toUpperCase :: "string \<Rightarrow> string" where
  "toUpperCase = map toUpperCase_char"

text \<open>
  The constructor. \<^verbatim>\<open>code\<close> is what this call of \<^verbatim>\<open>generateGameCode()\<close>
  (of \<^verbatim>\<open>scoring\<close>, outside the sources) returns; the generator takes no argument and
  the constructor does not look at the registry.
\<close>

definition GameSession_new :: "Db \<Rightarrow> string \<Rightarrow> int \<Rightarrow> string \<Rightarrow> error + GameSession" where
  "GameSession_new db code qid admin =
     (case select_quiz db qid of
        None \<Rightarrow> Inl (Error ''Quiz not found'')
      | Some quiz \<Rightarrow>
          (let qs = select_questions db qid in
           if length qs = 0 then Inl (Error ''Quiz has no questions'')
           else
             (let qws = map (\<lambda>q. Question.extend q
                               (QuestionWithOptions.fields (select_options db (question_id q)))) qs
              in Inr \<lparr> gameCode = code,
                       quizId = qid,
                       quizTitle = title quiz,
                       players = [],
                       currentQuestionIndex = - 1,
                       totalQuestions = int (length qws),
                       timerSeconds = timer_seconds quiz,
                       status = WAITING,
                       questionStartTime = None,
                       adminSocketId = admin,
                       questions = qws,
                       questionResults = [],
                       questionTimer = None \<rparr>)))"

definition addPlayer :: "string \<Rightarrow> string \<Rightarrow> GameSession \<Rightarrow> error + GameSession" where
  "addPlayer socketId name s =
     (if status s \<noteq> WAITING then Inl (Error ''Game has already started'')
      else if list_ex (\<lambda>(k, p). toLowerCase (username p) = toLowerCase name) (players s)
      then Inl (Error ''Username already taken'')
      else Inr (s\<lparr> players :=
                    AList.update socketId
                      \<lparr> player_id = socketId, username = name, score = 0,
                        currentAnswer = None, answerTimestamp = None \<rparr>
                      (players s) \<rparr>))"

definition removePlayer :: "string \<Rightarrow> GameSession \<Rightarrow> GameSession" where
  "removePlayer socketId s = s\<lparr> players := AList.delete socketId (players s) \<rparr>"

text \<open>
  \<^verbatim>\<open>this.questions[i]\<close> is \<^verbatim>\<open>undefined\<close> outside the array, and reading a property
  of it throws a \<^verbatim>\<open>TypeError\<close>.
\<close>

definition question_at :: "GameSession \<Rightarrow> QuestionWithOptions option" where
  "question_at s =
     (let i = currentQuestionIndex s in
      if 0 \<le> i \<and> i < int (length (questions s)) then Some (questions s ! nat i) else None)"

text \<open>\<^verbatim>\<open>now\<close> is the value of \<^verbatim>\<open>Date.now()\<close>. The index is incremented before the test,
  and the mutations made before a throw stay.\<close>

definition startNextQuestion ::
  "int \<Rightarrow> GameSession \<Rightarrow> (error + QuestionData option) \<times> GameSession" where
  "startNextQuestion now s =
     (let s1 = s\<lparr> currentQuestionIndex := currentQuestionIndex s + 1 \<rparr> in
      if currentQuestionIndex s1 \<ge> totalQuestions s1 then (Inr None, s1)
      else
        (let s2 = s1\<lparr> status := QUESTION,
                      questionStartTime := Some now,
                      questionResults := [],
                      players := map (\<lambda>(k, p). (k, p\<lparr> currentAnswer := None,
                                                      answerTimestamp := None \<rparr>)) (players s1) \<rparr>
         in case question_at s2 of
              None \<Rightarrow> (Inl TypeError, s2)
            | Some question \<Rightarrow>
                (Inr (Some \<lparr> qd_questionIndex = currentQuestionIndex s2,
                             qd_totalQuestions = totalQuestions s2,
                             qd_questionText = question_text question,
                             qd_options = map (\<lambda>opt. (option_id opt, option_text opt)) (options question),
                             qd_timerSeconds = timerSeconds s2 \<rparr>), s2)))"

text \<open>
  The option id comes from the client's message and the handler passes it on unchecked,
  so it is a number or \<^verbatim>\<open>null\<close>: \<open>Some n\<close> or \<open>None\<close>, as for the player's
  \<^verbatim>\<open>currentAnswer\<close>, where \<^verbatim>\<open>null\<close> is the code's "unanswered". (A payload of another
  kind is not \<^verbatim>\<open>null\<close> and equals no option id; it behaves as a number that is the id of
  no option.)
\<close>

definition submitAnswer ::
  "int \<Rightarrow> string \<Rightarrow> int option \<Rightarrow> GameSession \<Rightarrow> bool \<times> GameSession" where
  "submitAnswer now socketId optionId s =
     (if status s \<noteq> QUESTION then (False, s)
      else case map_of (players s) socketId of
             None \<Rightarrow> (False, s)
           | Some player \<Rightarrow>
               if currentAnswer player \<noteq> None then (False, s)
               else (True, s\<lparr> players :=
                               AList.update socketId
                                 (player\<lparr> currentAnswer := optionId,
                                          answerTimestamp := Some now \<rparr>)
                                 (players s) \<rparr>))"

definition allPlayersAnswered :: "GameSession \<Rightarrow> bool" where
  "allPlayersAnswered s = list_all (\<lambda>(k, p). currentAnswer p \<noteq> None) (players s)"

text \<open>A number or \<^verbatim>\<open>null\<close> in a condition: \<^verbatim>\<open>null\<close> and \<^verbatim>\<open>0\<close> are falsy.\<close>

fun truthy :: "int option \<Rightarrow> bool" where
  "truthy None = False"
| "truthy (Some n) = (n \<noteq> 0)"

definition find_correctOptionId :: "QuestionWithOptions \<Rightarrow> int" where
  "find_correctOptionId question =
     (case find is_correct (options question) of Some correctOption \<Rightarrow> option_id correctOption
      | None \<Rightarrow> - 1)"

definition answer_correct :: "int \<Rightarrow> Player \<Rightarrow> bool" where
  "answer_correct cid p = (currentAnswer p = Some cid)"

text \<open>
  \<^verbatim>\<open>calculateScore\<close> (of \<^verbatim>\<open>scoring\<close>, outside the sources) is the parameter \<open>cs\<close>:
  from the elapsed seconds and the time budget to the points.
\<close>

definition answer_points :: "(rat \<Rightarrow> int \<Rightarrow> int) \<Rightarrow> GameSession \<Rightarrow> int \<Rightarrow> Player \<Rightarrow> int" where
  "answer_points cs s cid p =
     (if answer_correct cid p \<and> truthy (questionStartTime s) \<and> truthy (answerTimestamp p)
      then (case (answerTimestamp p, questionStartTime s) of
              (Some t, Some t0) \<Rightarrow> cs (of_int (t - t0) / 1000) (timerSeconds s)
            | _ \<Rightarrow> 0)
      else 0)"

text \<open>
  \<^verbatim>\<open>endQuestion\<close>: the status and the timer handle are written first; the loop over
  the players adds each player's points, records the outcome under the player's id and
  appends to the result list. The \<^verbatim>\<open>clearTimeout\<close> of the stored handle acts on the
  runtime's timers, see \<open>clear_questionTimer\<close> and \<open>closeQuestion\<close> below.
\<close>

definition endQuestion ::
  "(rat \<Rightarrow> int \<Rightarrow> int) \<Rightarrow> GameSession \<Rightarrow> (error + QuestionEnd) \<times> GameSession" where
  "endQuestion cs s =
     (let s1 = s\<lparr> status := REVEAL, questionTimer := None \<rparr> in
      case question_at s1 of
        None \<Rightarrow> (Inl TypeError, s1)
      | Some question \<Rightarrow>
          (let cid = find_correctOptionId question;
               ps = players s1
           in (Inr \<lparr> correctOptionId = cid,
                     playerResults =
                       map (\<lambda>(k, p). (username p, answer_correct cid p, answer_points cs s1 cid p)) ps \<rparr>,
               s1\<lparr> players :=
                      map (\<lambda>(k, p). (k, p\<lparr> score := score p + answer_points cs s1 cid p \<rparr>)) ps,
                    questionResults :=
                      fold (\<lambda>(k, p). AList.update (player_id p)
                                        (answer_correct cid p, answer_points cs s1 cid p))
                           ps (questionResults s1) \<rparr>)))"

definition isLastQuestion :: "GameSession \<Rightarrow> bool" where
  "isLastQuestion s = (currentQuestionIndex s \<ge> totalQuestions s - 1)"

section \<open>The runtime: session objects, registry, timers\<close>

text \<open>
  Sessions are objects that the registry, the handlers and the timer callbacks share, so
  the model keeps a store of them by address. \<open>activeGames\<close> is the registry
  (game code to session), \<open>timers\<close> the pending timeouts of the runtime (handle to the
  session that the callback closes over; the only callback ever scheduled is the one of
  \<^verbatim>\<open>handleQuestion\<close>). Time is abstracted: a pending timer may fire at any moment.
\<close>

record System =
  heap :: "(nat \<times> GameSession) list"
  activeGames :: "(string \<times> nat) list"
  timers :: "(nat \<times> nat) list"
  nextObject :: nat
  nextTimer :: nat

text \<open>The token of the handshake, as the \<^verbatim>\<open>create_game\<close> handler sees it: absent,
  rejected by \<^verbatim>\<open>jwt.verify\<close>, or accepted.\<close>

datatype Token = NoToken | InvalidToken | ValidToken

text \<open>
  The messages sent to the clients. The standings in \<^verbatim>\<open>leaderboard_update\<close> and
  \<^verbatim>\<open>game_end\<close> come from \<^verbatim>\<open>buildLeaderboard\<close> (of \<^verbatim>\<open>scoring\<close>, outside the sources),
  which reads the session; the messages are modelled without that payload. Rooms belong
  to the transport: \<^verbatim>\<open>socket.join\<close> is not modelled, and a broadcast is recorded with
  the code of its room.
\<close>

datatype Message =
    error_msg string
  | game_created string
  | player_joined string nat
  | game_status GameStatus nat
  | question_start QuestionData
  | question_end QuestionEnd
  | leaderboard_update
  | game_end
  | player_left string nat

datatype Target = ToSocket string | ToRoom string

text \<open>What a handler leaves: the state, the messages sent, and the exception it did not
  catch, if any.\<close>

type_synonym Outcome = "System \<times> (Target \<times> Message) list \<times> error option"

fun message :: "error \<Rightarrow> string" where
  "message (Error m) = m"
| "message TypeError = ''TypeError''"

definition deref :: "System \<Rightarrow> nat \<Rightarrow> GameSession option" where
  "deref sys r = map_of (heap sys) r"

definition store :: "nat \<Rightarrow> GameSession \<Rightarrow> System \<Rightarrow> System" where
  "store r s sys = sys\<lparr> heap := AList.update r s (heap sys) \<rparr>"

definition setTimeout :: "nat \<Rightarrow> System \<Rightarrow> nat \<times> System" where
  "setTimeout r sys =
     (nextTimer sys,
      sys\<lparr> timers := timers sys @ [(nextTimer sys, r)], nextTimer := nextTimer sys + 1 \<rparr>)"

definition clearTimeout :: "nat \<Rightarrow> System \<Rightarrow> System" where
  "clearTimeout h sys = sys\<lparr> timers := AList.delete h (timers sys) \<rparr>"

text \<open>\<^verbatim>\<open>if (this.questionTimer) { clearTimeout(this.questionTimer); ... }\<close>\<close>

definition clear_questionTimer :: "GameSession \<Rightarrow> System \<Rightarrow> System" where
  "clear_questionTimer s sys = (case questionTimer s of None \<Rightarrow> sys | Some h \<Rightarrow> clearTimeout h sys)"

definition setQuestionTimer :: "nat \<Rightarrow> System \<Rightarrow> System" where
  "setQuestionTimer r sys =
     (case deref sys r of
        None \<Rightarrow> sys
      | Some s \<Rightarrow> (let (h, sys1) = setTimeout r sys in store r (s\<lparr> questionTimer := Some h \<rparr>) sys1))"

definition cleanup :: "nat \<Rightarrow> System \<Rightarrow> System" where
  "cleanup r sys =
     (case deref sys r of
        None \<Rightarrow> sys
      | Some s \<Rightarrow> store r (s\<lparr> questionTimer := None \<rparr>) (clear_questionTimer s sys))"

subsection \<open>The registry\<close>

definition createGame :: "Db \<Rightarrow> string \<Rightarrow> int \<Rightarrow> string \<Rightarrow> System \<Rightarrow> (error + nat) \<times> System" where
  "createGame db code qid admin sys =
     (case GameSession_new db code qid admin of
        Inl e \<Rightarrow> (Inl e, sys)
      | Inr session \<Rightarrow>
          (let r = nextObject sys in
           (Inr r, sys\<lparr> heap := AList.update r session (heap sys),
                        activeGames := AList.update (gameCode session) r (activeGames sys),
                        nextObject := r + 1 \<rparr>)))"

definition getGame :: "string \<Rightarrow> System \<Rightarrow> (nat \<times> GameSession) option" where
  "getGame code sys =
     (case map_of (activeGames sys) code of
        None \<Rightarrow> None
      | Some r \<Rightarrow> (case deref sys r of None \<Rightarrow> None | Some s \<Rightarrow> Some (r, s)))"

definition removeGame :: "string \<Rightarrow> System \<Rightarrow> System" where
  "removeGame code sys =
     (case map_of (activeGames sys) code of
        None \<Rightarrow> sys
      | Some r \<Rightarrow> (let sys1 = cleanup r sys in
                   sys1\<lparr> activeGames := AList.delete code (activeGames sys1) \<rparr>))"

text \<open>The scan of \<^verbatim>\<open>activeGames.values()\<close>, in insertion order.\<close>

fun find_game :: "(GameSession \<Rightarrow> bool) \<Rightarrow> System \<Rightarrow> (string \<times> nat) list \<Rightarrow> (nat \<times> GameSession) option" where
  "find_game P sys [] = None"
| "find_game P sys ((c, r) # gs) =
     (case deref sys r of
        None \<Rightarrow> find_game P sys gs
      | Some s \<Rightarrow> if P s then Some (r, s) else find_game P sys gs)"

definition getGameByAdminSocket :: "string \<Rightarrow> System \<Rightarrow> (nat \<times> GameSession) option" where
  "getGameByAdminSocket socketId sys =
     find_game (\<lambda>game. adminSocketId game = socketId) sys (activeGames sys)"

definition getGameByPlayerSocket :: "string \<Rightarrow> System \<Rightarrow> (nat \<times> GameSession) option" where
  "getGameByPlayerSocket socketId sys =
     find_game (\<lambda>game. map_of (players game) socketId \<noteq> None) sys (activeGames sys)"

subsection \<open>The socket handlers\<close>

text \<open>
  The closing code, which the \<^verbatim>\<open>submit_answer\<close> handler and the timer callback of
  \<^verbatim>\<open>handleQuestion\<close> both contain: \<^verbatim>\<open>endQuestion\<close>, the \<^verbatim>\<open>question_end\<close> message,
  the leaderboard, \<^verbatim>\<open>status = 'leaderboard'\<close>, the \<^verbatim>\<open>leaderboard_update\<close> message.
  Neither place tests the status first, and neither catches an exception.
\<close>

definition closeQuestion :: "(rat \<Rightarrow> int \<Rightarrow> int) \<Rightarrow> nat \<Rightarrow> System \<Rightarrow> Outcome" where
  "closeQuestion cs r sys =
     (case deref sys r of
        None \<Rightarrow> (sys, [], None)
      | Some s \<Rightarrow>
          (let sys1 = clear_questionTimer s sys;
               (res, s1) = endQuestion cs s
           in case res of
                Inl e \<Rightarrow> (store r s1 sys1, [], Some e)
              | Inr results \<Rightarrow>
                  (store r (s1\<lparr> status := LEADERBOARD \<rparr>) sys1,
                   [(ToRoom (gameCode s1), question_end results),
                    (ToRoom (gameCode s1), leaderboard_update)],
                   None)))"

definition handleQuestion :: "nat \<Rightarrow> QuestionData \<Rightarrow> System \<Rightarrow> Outcome" where
  "handleQuestion r questionData sys =
     (case deref sys r of
        None \<Rightarrow> (sys, [], None)
      | Some s \<Rightarrow> (setQuestionTimer r sys, [(ToRoom (gameCode s), question_start questionData)], None))"

text \<open>The end of a game, as three handlers write it: \<^verbatim>\<open>status = 'finished'\<close>, the
  \<^verbatim>\<open>game_end\<close> message, \<^verbatim>\<open>removeGame\<close>.\<close>

definition finishGame :: "nat \<Rightarrow> GameSession \<Rightarrow> System \<Rightarrow> Outcome" where
  "finishGame r s sys =
     (removeGame (gameCode s) (store r (s\<lparr> status := FINISHED \<rparr>) sys),
      [(ToRoom (gameCode s), game_end)],
      None)"

definition create_game :: "Db \<Rightarrow> string \<Rightarrow> string \<Rightarrow> Token \<Rightarrow> int \<Rightarrow> System \<Rightarrow> Outcome" where
  "create_game db code socketId token qid sys =
     (case token of
        NoToken \<Rightarrow> (sys, [(ToSocket socketId, error_msg ''Authentication required'')], None)
      | InvalidToken \<Rightarrow> (sys, [(ToSocket socketId, error_msg ''Invalid token'')], None)
      | ValidToken \<Rightarrow>
          (case getGameByAdminSocket socketId sys of
             Some (r, existing) \<Rightarrow> (sys, [(ToSocket socketId, game_created (gameCode existing))], None)
           | None \<Rightarrow>
               (case createGame db code qid socketId sys of
                  (Inl e, sys1) \<Rightarrow> (sys1, [(ToSocket socketId, error_msg (message e))], None)
                | (Inr r, sys1) \<Rightarrow>
                    (case deref sys1 r of
                       None \<Rightarrow> (sys1, [], None)
                     | Some session \<Rightarrow>
                         (sys1, [(ToSocket socketId, game_created (gameCode session))], None)))))"

definition join_game :: "string \<Rightarrow> string \<Rightarrow> string \<Rightarrow> System \<Rightarrow> Outcome" where
  "join_game socketId code0 name sys =
     (let code = toUpperCase code0 in
      case getGame code sys of
        None \<Rightarrow> (sys, [(ToSocket socketId, error_msg ''Game not found'')], None)
      | Some (r, s) \<Rightarrow>
          (case addPlayer socketId name s of
             Inl e \<Rightarrow> (sys, [(ToSocket socketId, error_msg (message e))], None)
           | Inr s1 \<Rightarrow>
               (store r s1 sys,
                [(ToRoom code, player_joined name (length (players s1))),
                 (ToSocket socketId, game_status (status s1) (length (players s1)))],
                None)))"

definition start_game :: "int \<Rightarrow> string \<Rightarrow> System \<Rightarrow> Outcome" where
  "start_game now socketId sys =
     (case getGameByAdminSocket socketId sys of
        None \<Rightarrow> (sys, [(ToSocket socketId, error_msg ''No game found'')], None)
      | Some (r, s) \<Rightarrow>
          if length (players s) = 0
          then (sys, [(ToSocket socketId, error_msg ''No players have joined'')], None)
          else
            (let (res, s1) = startNextQuestion now s;
                 sys1 = store r s1 sys
             in case res of
                  Inl e \<Rightarrow> (sys1, [], Some e)
                | Inr None \<Rightarrow> (sys1, [(ToSocket socketId, error_msg ''No questions available'')], None)
                | Inr (Some questionData) \<Rightarrow> handleQuestion r questionData sys1))"

definition submit_answer ::
  "(rat \<Rightarrow> int \<Rightarrow> int) \<Rightarrow> int \<Rightarrow> string \<Rightarrow> int option \<Rightarrow> System \<Rightarrow> Outcome" where
  "submit_answer cs now socketId optionId sys =
     (case getGameByPlayerSocket socketId sys of
        None \<Rightarrow> (sys, [], None)
      | Some (r, s) \<Rightarrow>
          (let (accepted, s1) = submitAnswer now socketId optionId s;
               sys1 = store r s1 sys
           in if \<not> accepted then (sys1, [], None)
              else if allPlayersAnswered s1 then closeQuestion cs r sys1
              else (sys1, [], None)))"

definition next_question :: "int \<Rightarrow> string \<Rightarrow> System \<Rightarrow> Outcome" where
  "next_question now socketId sys =
     (case getGameByAdminSocket socketId sys of
        None \<Rightarrow> (sys, [], None)
      | Some (r, s) \<Rightarrow>
          if isLastQuestion s then finishGame r s sys
          else
            (let (res, s1) = startNextQuestion now s;
                 sys1 = store r s1 sys
             in case res of
                  Inl e \<Rightarrow> (sys1, [], Some e)
                | Inr None \<Rightarrow> (sys1, [], None)
                | Inr (Some questionData) \<Rightarrow> handleQuestion r questionData sys1))"

definition end_game :: "string \<Rightarrow> System \<Rightarrow> Outcome" where
  "end_game socketId sys =
     (case getGameByAdminSocket socketId sys of
        None \<Rightarrow> (sys, [], None)
      | Some (r, s) \<Rightarrow> finishGame r s sys)"

definition disconnect :: "string \<Rightarrow> System \<Rightarrow> Outcome" where
  "disconnect socketId sys =
     (case getGameByAdminSocket socketId sys of
        Some (r, adminGame) \<Rightarrow> finishGame r adminGame sys
      | None \<Rightarrow>
          (case getGameByPlayerSocket socketId sys of
             None \<Rightarrow> (sys, [], None)
           | Some (r, playerGame) \<Rightarrow>
               (let name = (case map_of (players playerGame) socketId of
                              Some player \<Rightarrow> username player | None \<Rightarrow> ''Unknown'');
                    s1 = removePlayer socketId playerGame
                in (store r s1 sys,
                    [(ToRoom (gameCode s1), player_left name (length (players s1)))],
                    None))))"

text \<open>A pending timer fires: the runtime drops it and runs the callback.\<close>

definition timer_fires :: "(rat \<Rightarrow> int \<Rightarrow> int) \<Rightarrow> nat \<Rightarrow> System \<Rightarrow> Outcome" where
  "timer_fires cs h sys =
     (case map_of (timers sys) h of
        None \<Rightarrow> (sys, [], None)
      | Some r \<Rightarrow> closeQuestion cs r (sys\<lparr> timers := AList.delete h (timers sys) \<rparr>))"

text \<open>
  The events of the server. \<open>CreateGame\<close> carries the socket, the state of its token, the
  quiz id, the code that the generator would return and the database as the constructor
  would find it; the events that read the clock carry its value. \<open>run\<close> keeps going
  after an exception that no handler caught (whether the process survives one is decided
  outside the sources), so it reaches every state the server can reach.
\<close>

datatype Event =
    CreateGame string Token int string Db
  | JoinGame string string string
  | StartGame string int
  | SubmitAnswer string "int option" int
  | NextQuestion string int
  | EndGame string
  | Disconnect string
  | TimerFires nat

fun step :: "(rat \<Rightarrow> int \<Rightarrow> int) \<Rightarrow> Event \<Rightarrow> System \<Rightarrow> Outcome" where
  "step cs (CreateGame socketId token qid code db) sys = create_game db code socketId token qid sys"
| "step cs (JoinGame socketId code name) sys = join_game socketId code name sys"
| "step cs (StartGame socketId now) sys = start_game now socketId sys"
| "step cs (SubmitAnswer socketId optionId now) sys = submit_answer cs now socketId optionId sys"
| "step cs (NextQuestion socketId now) sys = next_question now socketId sys"
| "step cs (EndGame socketId) sys = end_game socketId sys"
| "step cs (Disconnect socketId) sys = disconnect socketId sys"
| "step cs (TimerFires h) sys = timer_fires cs h sys"

fun run :: "(rat \<Rightarrow> int \<Rightarrow> int) \<Rightarrow> Event list \<Rightarrow> System \<Rightarrow> System" where
  "run cs [] sys = sys"
| "run cs (e # es) sys = run cs es (fst (step cs e sys))"

definition initial :: System where
  "initial = \<lparr> heap = [], activeGames = [], timers = [], nextObject = 0, nextTimer = 0 \<rparr>"

section \<open>Concrete inputs\<close>

text \<open>
  Modelled from the spec: \<^verbatim>\<open>calculateScore\<close> of \<^verbatim>\<open>services/scoring\<close> is not among the
  sources. The spec (4.1) asks for a non-negative integer for a correct answer, not
  increasing with the elapsed time: a fixed maximum award for an instantaneous answer,
  decaying toward a fixed minimum award as the elapsed time approaches the budget, and the
  minimum award at or after the budget. The two awards (1000 and 100) and the linear decay
  are this model's choice; the spec leaves them open. The general theorems below take the
  scoring function as a parameter; this one is used at concrete inputs only.
\<close>

definition calculateScore_spec :: "rat \<Rightarrow> int \<Rightarrow> int" where
  "calculateScore_spec timeTaken budget =
     (if budget \<le> 0 \<or> timeTaken \<ge> of_int budget then 100
      else if timeTaken \<le> 0 then 1000
      else 1000 - \<lfloor>900 * timeTaken / of_int budget\<rfloor>)"

text \<open>A database with two quizzes: quiz 1 has three questions and a budget of 20 seconds
  (its second question has no option flagged correct), quiz 2 has no question.\<close>

definition demo_db :: Db where
  "demo_db =
     \<lparr> select_quiz = (\<lambda>q. if q = 1 then Some \<lparr> title = ''Demo'', timer_seconds = 20 \<rparr>
                           else if q = 2 then Some \<lparr> title = ''Empty'', timer_seconds = 20 \<rparr>
                           else None),
       select_questions =
         (\<lambda>q. if q = 1 then [\<lparr> question_id = 10, question_text = ''first'' \<rparr>,
                              \<lparr> question_id = 11, question_text = ''second'' \<rparr>,
                              \<lparr> question_id = 12, question_text = ''third'' \<rparr>]
               else []),
       select_options =
         (\<lambda>q. if q = 10 then [\<lparr> option_id = 1, option_text = ''a'', is_correct = False \<rparr>,
                               \<lparr> option_id = 2, option_text = ''b'', is_correct = True \<rparr>]
               else if q = 11 then [\<lparr> option_id = 3, option_text = ''c'', is_correct = False \<rparr>,
                                    \<lparr> option_id = 4, option_text = ''d'', is_correct = False \<rparr>]
               else if q = 12 then [\<lparr> option_id = 5, option_text = ''e'', is_correct = True \<rparr>,
                                    \<lparr> option_id = 6, option_text = ''f'', is_correct = False \<rparr>]
               else []) \<rparr>"

text \<open>A session with its single question open: Alice has answered with the correct
  option 2 after two seconds, Bob has not answered.\<close>

definition demo_session :: GameSession where
  "demo_session =
     \<lparr> gameCode = ''ABCD'', quizId = 1, quizTitle = ''Demo'',
       players = [(''p1'', \<lparr> player_id = ''p1'', username = ''Alice'', score = 0,
                             currentAnswer = Some 2, answerTimestamp = Some 3000 \<rparr>),
                  (''p2'', \<lparr> player_id = ''p2'', username = ''Bob'', score = 0,
                             currentAnswer = None, answerTimestamp = None \<rparr>)],
       currentQuestionIndex = 0, totalQuestions = 1, timerSeconds = 20,
       status = QUESTION, questionStartTime = Some 1000, adminSocketId = ''adm'',
       questions = [Question.extend \<lparr> question_id = 10, question_text = ''first'' \<rparr>
                      (QuestionWithOptions.fields
                         [\<lparr> option_id = 1, option_text = ''a'', is_correct = False \<rparr>,
                          \<lparr> option_id = 2, option_text = ''b'', is_correct = True \<rparr>])],
       questionResults = [], questionTimer = Some 0 \<rparr>"

text \<open>The same session on a question that has no option flagged correct; Alice has
  answered \<open>-1\<close>, which is not the id of an option.\<close>

definition demo_session_nocorrect :: GameSession where
  "demo_session_nocorrect =
     demo_session\<lparr> players := [(''p1'', \<lparr> player_id = ''p1'', username = ''Alice'', score = 0,
                             currentAnswer = Some (- 1), answerTimestamp = Some 3000 \<rparr>),
                  (''p2'', \<lparr> player_id = ''p2'', username = ''Bob'', score = 0,
                             currentAnswer = None, answerTimestamp = None \<rparr>)],
         questions := [Question.extend \<lparr> question_id = 12, question_text = ''third'' \<rparr>
                      (QuestionWithOptions.fields
                         [\<lparr> option_id = 5, option_text = ''e'', is_correct = False \<rparr>])] \<rparr>"

text \<open>A server with one game on its first question: Alice has answered, Bob has not, and
  the deadline timer of the question is pending.\<close>

definition demo_open :: System where
  "demo_open =
     run calculateScore_spec
       [CreateGame ''adm'' ValidToken 1 ''ABCD'' demo_db, JoinGame ''p1'' ''abcd'' ''Alice'',
        JoinGame ''p2'' ''ABCD'' ''Bob'', StartGame ''adm'' 1000, SubmitAnswer ''p1'' (Some 2) 3000]
       initial"

text \<open>Observations of a session object in the store.\<close>

definition status_of :: "System \<Rightarrow> nat \<Rightarrow> GameStatus option" where
  "status_of sys r = map_option status (deref sys r)"

definition score_of :: "System \<Rightarrow> nat \<Rightarrow> string \<Rightarrow> int option" where
  "score_of sys r sid =
     (case deref sys r of None \<Rightarrow> None | Some g \<Rightarrow> map_option score (map_of (players g) sid))"

text \<open>The same server after the admin has advanced twice while the question was open,
  Alice has answered the third question correctly, and the oldest of the three pending
  timers has fired: the question is closed, and timer 1 is still pending.\<close>

definition demo_closed :: System where
  "demo_closed =
     run calculateScore_spec
       [NextQuestion ''adm'' 4000, NextQuestion ''adm'' 5000, SubmitAnswer ''p1'' (Some 5) 7000,
        TimerFires 0]
       demo_open"

text \<open>The same server after a regular game up to its last question: each question was
  closed before the next was opened, and the third question is open.\<close>

definition demo_last :: System where
  "demo_last =
     run calculateScore_spec
       [SubmitAnswer ''p2'' (Some 1) 6000, NextQuestion ''adm'' 8000, TimerFires 1,
        NextQuestion ''adm'' 30000]
       demo_open"

section \<open>Operations on session objects, relations between stores\<close>

text \<open>
  What the handlers can do to a session object. \<open>session_op\<close> collects the mutations that
  do not close a question, \<open>closing_op\<close> the two of the closing code.
\<close>

inductive session_op :: "GameSession \<Rightarrow> GameSession \<Rightarrow> bool" where
  op_addPlayer: "addPlayer sid name s = Inr s' \<Longrightarrow> session_op s s'"
| op_removePlayer: "session_op s (removePlayer sid s)"
| op_startNextQuestion: "session_op s (snd (startNextQuestion now s))"
| op_submitAnswer: "session_op s (snd (submitAnswer now sid oid s))"
| op_finished: "session_op s (s\<lparr> status := FINISHED \<rparr>)"
| op_questionTimer: "session_op s (s\<lparr> questionTimer := h \<rparr>)"

inductive closing_op :: "(rat \<Rightarrow> int \<Rightarrow> int) \<Rightarrow> GameSession \<Rightarrow> GameSession \<Rightarrow> bool"
  for cs :: "rat \<Rightarrow> int \<Rightarrow> int" where
  op_endQuestion: "closing_op cs s (snd (endQuestion cs s))"
| op_leaderboard: "closing_op cs s (s\<lparr> status := LEADERBOARD \<rparr>)"

definition any_op :: "(rat \<Rightarrow> int \<Rightarrow> int) \<Rightarrow> GameSession \<Rightarrow> GameSession \<Rightarrow> bool" where
  "any_op cs s s' = (session_op s s' \<or> closing_op cs s s')"

text \<open>Every object of the later store was in the earlier store at the same address, and
  is related to what it was.\<close>

definition hrel :: "(GameSession \<Rightarrow> GameSession \<Rightarrow> bool) \<Rightarrow> System \<Rightarrow> System \<Rightarrow> bool" where
  "hrel R sys sys' = (\<forall>r s'. deref sys' r = Some s' \<longrightarrow> (\<exists>s. deref sys r = Some s \<and> R s s'))"

text \<open>Addresses are allocated in order.\<close>

definition heap_fresh :: "System \<Rightarrow> bool" where
  "heap_fresh sys = list_all (\<lambda>(r, s). r < nextObject sys) (heap sys)"

text \<open>Scores are not negative, and nobody has points before the first question.\<close>

definition scores_ok :: "GameSession \<Rightarrow> bool" where
  "scores_ok s =
     (\<forall>sid p. map_of (players s) sid = Some p \<longrightarrow>
        0 \<le> score p \<and> (status s = WAITING \<longrightarrow> score p = 0))"

text \<open>Once the game has left \<open>WAITING\<close> it stays so, every player of the later roster was
  on the earlier one, and with no more points than now.\<close>

definition scores_grow :: "GameSession \<Rightarrow> GameSession \<Rightarrow> bool" where
  "scores_grow s s' =
     (scores_ok s \<longrightarrow>
        scores_ok s' \<and>
        (status s \<noteq> WAITING \<longrightarrow>
           status s' \<noteq> WAITING \<and>
           (\<forall>sid p'. map_of (players s') sid = Some p' \<longrightarrow>
              (\<exists>p. map_of (players s) sid = Some p \<and> score p \<le> score p'))))"

text \<open>
  The registry of a reachable state: one entry per code, every entry an allocated object,
  and no two entries whose sessions have the same admin.
\<close>

definition registry_ok :: "System \<Rightarrow> bool" where
  "registry_ok sys =
     (distinct (map fst (activeGames sys)) \<and>
      (\<forall>c r. (c, r) \<in> set (activeGames sys) \<longrightarrow> r < nextObject sys) \<and>
      (\<forall>c1 r1 g1 c2 r2 g2.
          (c1, r1) \<in> set (activeGames sys) \<and> deref sys r1 = Some g1 \<and>
          (c2, r2) \<in> set (activeGames sys) \<and> deref sys r2 = Some g2 \<and>
          adminSocketId g1 = adminSocketId g2 \<longrightarrow> c1 = c2))"

text \<open>
  The pending timers of a well-kept server: handles are distinct and allocated, and every
  pending timer is the one whose handle its session stores. So a session has at most one
  pending timer, and none once its handle is cleared.
\<close>

definition timers_ok :: "System \<Rightarrow> bool" where
  "timers_ok sys =
     (distinct (map fst (timers sys)) \<and>
      list_all (\<lambda>(h, r). h < nextTimer sys \<and>
                  (case deref sys r of None \<Rightarrow> False | Some g \<Rightarrow> questionTimer g = Some h))
               (timers sys))"

text \<open>\<^verbatim>\<open>startNextQuestion\<close> would return a question, so that the handler goes on to
  \<^verbatim>\<open>handleQuestion\<close> and arms a timer.\<close>

definition opens :: "int \<Rightarrow> GameSession \<Rightarrow> bool" where
  "opens now g = (case fst (startNextQuestion now g) of Inr (Some questionData) \<Rightarrow> True | _ \<Rightarrow> False)"

text \<open>The event arms a timer for a session that still stores a timer handle: a
  \<^verbatim>\<open>start_game\<close> or \<^verbatim>\<open>next_question\<close> request that opens a question before the open
  one has closed. A request that opens nothing (no player, the last question already
  shown, no more questions) is not one.\<close>

fun arms_over_pending :: "Event \<Rightarrow> System \<Rightarrow> bool" where
  "arms_over_pending (StartGame sid now) sys =
     (case getGameByAdminSocket sid sys of
        None \<Rightarrow> False
      | Some (r, g) \<Rightarrow> length (players g) \<noteq> 0 \<and> opens now g \<and> questionTimer g \<noteq> None)"
| "arms_over_pending (NextQuestion sid now) sys =
     (case getGameByAdminSocket sid sys of
        None \<Rightarrow> False
      | Some (r, g) \<Rightarrow> \<not> isLastQuestion g \<and> opens now g \<and> questionTimer g \<noteq> None)"
| "arms_over_pending e sys = False"

section \<open>Lemmas on the session's methods\<close>

lemma submitAnswer_accepted_iff:
  "fst (submitAnswer now sid oid s) \<longleftrightarrow>
     status s = QUESTION \<and> (\<exists>p. map_of (players s) sid = Some p \<and> currentAnswer p = None)"
  by (auto simp: submitAnswer_def split: option.splits)

lemma submitAnswer_rejected:
  "\<not> fst (submitAnswer now sid oid s) \<Longrightarrow> snd (submitAnswer now sid oid s) = s"
  by (auto simp: submitAnswer_def split: option.splits)

lemma submitAnswer_accepted:
  assumes "fst (submitAnswer now sid oid s)"
  shows "\<exists>p. map_of (players s) sid = Some p \<and> currentAnswer p = None \<and>
           snd (submitAnswer now sid oid s) =
             s\<lparr> players := AList.update sid
                   (p\<lparr> currentAnswer := oid, answerTimestamp := Some now \<rparr>) (players s) \<rparr>"
  using assms by (auto simp: submitAnswer_def split: option.splits if_splits)

lemma question_at_upd [simp]:
  "question_at (s\<lparr> status := st \<rparr>) = question_at s"
  "question_at (s\<lparr> questionTimer := h \<rparr>) = question_at s"
  "question_at (s\<lparr> players := ps \<rparr>) = question_at s"
  "question_at (s\<lparr> questionResults := qr \<rparr>) = question_at s"
  "question_at (s\<lparr> questionStartTime := t \<rparr>) = question_at s"
  by (simp_all add: question_at_def Let_def cong: if_cong)

lemma answer_points_upd [simp]:
  "answer_points cs (s\<lparr> status := st \<rparr>) = answer_points cs s"
  "answer_points cs (s\<lparr> questionTimer := h \<rparr>) = answer_points cs s"
  "answer_points cs (s\<lparr> players := ps \<rparr>) = answer_points cs s"
  "answer_points cs (s\<lparr> questionResults := qr \<rparr>) = answer_points cs s"
  by (simp_all add: answer_points_def fun_eq_iff cong: if_cong option.case_cong)

lemma endQuestion_Some:
  assumes "question_at s = Some q"
  shows "endQuestion cs s =
     (Inr \<lparr> correctOptionId = find_correctOptionId q,
            playerResults = map (\<lambda>(k, p). (username p, answer_correct (find_correctOptionId q) p,
                                            answer_points cs s (find_correctOptionId q) p)) (players s) \<rparr>,
      s\<lparr> status := REVEAL, questionTimer := None,
         players := map (\<lambda>(k, p). (k, p\<lparr> score := score p + answer_points cs s (find_correctOptionId q) p \<rparr>)) (players s),
         questionResults := fold (\<lambda>(k, p). AList.update (player_id p)
                                        (answer_correct (find_correctOptionId q) p,
                                         answer_points cs s (find_correctOptionId q) p))
                           (players s) (questionResults s) \<rparr>)"
  using assms by (simp add: endQuestion_def Let_def)

lemma endQuestion_None:
  assumes "question_at s = None"
  shows "endQuestion cs s = (Inl TypeError, s\<lparr> status := REVEAL, questionTimer := None \<rparr>)"
  using assms by (simp add: endQuestion_def Let_def)

lemma map_of_map_values:
  "map_of (map (\<lambda>(k, p). (k, f p)) ps) k = map_option f (map_of ps k)"
  by (induction ps) auto

lemma endQuestion_player:
  assumes "question_at s = Some q"
  shows "map_of (players (snd (endQuestion cs s))) sid =
           map_option (\<lambda>p. p\<lparr> score := score p + answer_points cs s (find_correctOptionId q) p \<rparr>)
             (map_of (players s) sid)"
  by (simp add: endQuestion_Some[OF assms] map_of_map_values)

lemma answer_points_incorrect:
  "currentAnswer p \<noteq> Some cid \<Longrightarrow> answer_points cs s cid p = 0"
  by (simp add: answer_points_def answer_correct_def)

lemma answer_points_correct:
  "currentAnswer p = Some cid \<Longrightarrow> answerTimestamp p = Some t \<Longrightarrow> questionStartTime s = Some t0 \<Longrightarrow>
   t \<noteq> 0 \<Longrightarrow> t0 \<noteq> 0 \<Longrightarrow> answer_points cs s cid p = cs (of_int (t - t0) / 1000) (timerSeconds s)"
  by (simp add: answer_points_def answer_correct_def)

lemma GameSession_new_fails_iff:
  "isl (GameSession_new db code qid admin) \<longleftrightarrow> select_quiz db qid = None \<or> select_questions db qid = []"
  by (simp add: GameSession_new_def Let_def split: option.splits)

lemma GameSession_new_gameCode:
  "GameSession_new db code qid admin = Inr g \<Longrightarrow> gameCode g = code \<and> adminSocketId g = admin"
  by (auto simp: GameSession_new_def Let_def split: option.splits if_splits)

lemma createGame_fail:
  "GameSession_new db code qid admin = Inl e \<Longrightarrow> createGame db code qid admin sys = (Inl e, sys)"
  by (simp add: createGame_def)

lemma createGame_ok:
  "GameSession_new db code qid admin = Inr g \<Longrightarrow>
   createGame db code qid admin sys =
     (Inr (nextObject sys),
      sys\<lparr> heap := AList.update (nextObject sys) g (heap sys),
           activeGames := AList.update code (nextObject sys) (activeGames sys),
           nextObject := nextObject sys + 1 \<rparr>)"
  by (simp add: createGame_def Let_def GameSession_new_gameCode)

lemma create_game_fail:
  assumes "isl (GameSession_new db code qid admin)"
  shows "fst (create_game db code admin token qid sys) = sys"
proof -
  from assms obtain e where e: "GameSession_new db code qid admin = Inl e" by (auto simp: isl_def)
  show ?thesis
    by (simp add: create_game_def createGame_fail[OF e] split: Token.splits option.splits)
qed

section \<open>Lemmas on the store and the handlers\<close>

lemma deref_store [simp]: "deref (store r s sys) r' = (if r' = r then Some s else deref sys r')"
  by (simp add: deref_def store_def update_conv')

lemma store_fields [simp]:
  "activeGames (store r s sys) = activeGames sys"
  "timers (store r s sys) = timers sys"
  "nextObject (store r s sys) = nextObject sys"
  "nextTimer (store r s sys) = nextTimer sys"
  by (simp_all add: store_def)

lemma hrel_refl: "(\<And>s. R s s) \<Longrightarrow> hrel R sys sys"
  by (auto simp: hrel_def)

lemma hrel_heap_eq: "(\<And>s. R s s) \<Longrightarrow> heap sys' = heap sys \<Longrightarrow> hrel R sys sys'"
  by (auto simp: hrel_def deref_def)

lemma hrel_trans:
  assumes tr: "\<And>a b c. R a b \<Longrightarrow> R b c \<Longrightarrow> R a c" and xy: "hrel R x y" and yz: "hrel R y z"
  shows "hrel R x z"
  unfolding hrel_def
proof (intro allI impI)
  fix r s' assume "deref z r = Some s'"
  with yz obtain s1 where 1: "deref y r = Some s1" "R s1 s'" unfolding hrel_def by blast
  with xy obtain s0 where 0: "deref x r = Some s0" "R s0 s1" unfolding hrel_def by blast
  from 0 1 tr show "\<exists>s. deref x r = Some s \<and> R s s'" by blast
qed

lemma hrel_store: "(\<And>s. R s s) \<Longrightarrow> deref sys r = Some s \<Longrightarrow> R s s1 \<Longrightarrow> hrel R sys (store r s1 sys)"
  by (auto simp: hrel_def)

lemma hrel_mono: "(\<And>a b. R a b \<Longrightarrow> Q a b) \<Longrightarrow> hrel R x y \<Longrightarrow> hrel Q x y"
  unfolding hrel_def by blast

lemma hrel_star_refl: "hrel R\<^sup>*\<^sup>* sys sys"
  by (rule hrel_refl) simp

lemma hrel_star_heap_eq: "heap sys' = heap sys \<Longrightarrow> hrel R\<^sup>*\<^sup>* sys sys'"
  by (rule hrel_heap_eq) simp_all

lemma hrel_star_trans: "hrel R\<^sup>*\<^sup>* x y \<Longrightarrow> hrel R\<^sup>*\<^sup>* y z \<Longrightarrow> hrel R\<^sup>*\<^sup>* x z"
  by (erule (1) hrel_trans[where R="R\<^sup>*\<^sup>*", rotated]) (rule rtranclp_trans)

lemma hrel_star_store: "deref sys r = Some s \<Longrightarrow> R\<^sup>*\<^sup>* s s1 \<Longrightarrow> hrel R\<^sup>*\<^sup>* sys (store r s1 sys)"
  by (erule (1) hrel_store[where R="R\<^sup>*\<^sup>*", rotated]) (rule rtranclp.rtrancl_refl)

lemma find_game_Some:
  "find_game P sys gs = Some (r, s) \<Longrightarrow> deref sys r = Some s \<and> P s \<and> r \<in> snd ` set gs"
  by (induction gs) (auto split: option.splits if_splits)

lemma getGameByAdminSocket_Some:
  "getGameByAdminSocket sid sys = Some (r, s) \<Longrightarrow>
     deref sys r = Some s \<and> adminSocketId s = sid \<and> r \<in> snd ` set (activeGames sys)"
  unfolding getGameByAdminSocket_def by (drule find_game_Some) simp

lemma getGameByPlayerSocket_Some:
  "getGameByPlayerSocket sid sys = Some (r, s) \<Longrightarrow>
     deref sys r = Some s \<and> map_of (players s) sid \<noteq> None \<and> r \<in> snd ` set (activeGames sys)"
  unfolding getGameByPlayerSocket_def by (drule find_game_Some) simp

lemma getGame_Some:
  "getGame code sys = Some (r, s) \<Longrightarrow> deref sys r = Some s \<and> map_of (activeGames sys) code = Some r"
  by (auto simp: getGame_def split: option.splits)

lemma clear_questionTimer_fields [simp]:
  "heap (clear_questionTimer s sys) = heap sys"
  "activeGames (clear_questionTimer s sys) = activeGames sys"
  "nextObject (clear_questionTimer s sys) = nextObject sys"
  "nextTimer (clear_questionTimer s sys) = nextTimer sys"
  by (simp_all add: clear_questionTimer_def clearTimeout_def split: option.splits)

lemma deref_clear_questionTimer [simp]: "deref (clear_questionTimer s sys) = deref sys"
  by (simp add: deref_def fun_eq_iff)

lemma hrel_setQuestionTimer: "hrel session_op\<^sup>*\<^sup>* sys (setQuestionTimer r sys)"
proof (cases "deref sys r")
  case None
  then show ?thesis by (simp add: setQuestionTimer_def hrel_star_refl)
next
  case (Some s)
  let ?sys1 = "snd (setTimeout r sys)"
  have h: "heap ?sys1 = heap sys" by (simp add: setTimeout_def)
  have d: "deref ?sys1 r = Some s" using Some by (simp add: deref_def h)
  have "hrel session_op\<^sup>*\<^sup>* ?sys1 (store r (s\<lparr> questionTimer := Some (nextTimer sys) \<rparr>) ?sys1)"
    by (rule hrel_star_store[OF d]) (rule r_into_rtranclp, rule op_questionTimer)
  with hrel_star_heap_eq[OF h] have "hrel session_op\<^sup>*\<^sup>* sys (store r (s\<lparr> questionTimer := Some (nextTimer sys) \<rparr>) ?sys1)"
    by (rule hrel_star_trans)
  then show ?thesis using Some by (simp add: setQuestionTimer_def setTimeout_def)
qed

lemma hrel_cleanup: "hrel session_op\<^sup>*\<^sup>* sys (cleanup r sys)"
proof (cases "deref sys r")
  case None
  then show ?thesis by (simp add: cleanup_def hrel_star_refl)
next
  case (Some s)
  have d: "deref (clear_questionTimer s sys) r = Some s" using Some by simp
  have "hrel session_op\<^sup>*\<^sup>* (clear_questionTimer s sys) (store r (s\<lparr> questionTimer := None \<rparr>) (clear_questionTimer s sys))"
    by (rule hrel_star_store[OF d]) (rule r_into_rtranclp, rule op_questionTimer)
  with hrel_star_heap_eq[of "clear_questionTimer s sys" sys]
  have "hrel session_op\<^sup>*\<^sup>* sys (store r (s\<lparr> questionTimer := None \<rparr>) (clear_questionTimer s sys))"
    by (auto intro: hrel_star_trans)
  then show ?thesis using Some by (simp add: cleanup_def)
qed

lemma hrel_removeGame: "hrel session_op\<^sup>*\<^sup>* sys (removeGame code sys)"
proof (cases "map_of (activeGames sys) code")
  case None
  then show ?thesis by (simp add: removeGame_def hrel_star_refl)
next
  case (Some r)
  have "hrel session_op\<^sup>*\<^sup>* (cleanup r sys) ((cleanup r sys)\<lparr> activeGames := AList.delete code (activeGames (cleanup r sys)) \<rparr>)"
    by (rule hrel_star_heap_eq) simp
  with hrel_cleanup[of sys r] show ?thesis using Some
    by (simp add: removeGame_def Let_def) (rule hrel_star_trans)
qed

lemma hrel_finishGame:
  assumes "deref sys r = Some s"
  shows "hrel session_op\<^sup>*\<^sup>* sys (fst (finishGame r s sys))"
proof -
  have "hrel session_op\<^sup>*\<^sup>* sys (store r (s\<lparr> status := FINISHED \<rparr>) sys)"
    by (rule hrel_star_store[OF assms]) (rule r_into_rtranclp, rule op_finished)
  then show ?thesis
    unfolding finishGame_def fst_conv by (rule hrel_star_trans) (rule hrel_removeGame)
qed

lemma hrel_handleQuestion: "hrel session_op\<^sup>*\<^sup>* sys (fst (handleQuestion r qd sys))"
  by (simp add: handleQuestion_def hrel_star_refl hrel_setQuestionTimer split: option.splits)

lemma any_op_session: "session_op\<^sup>*\<^sup>* s s' \<Longrightarrow> (any_op cs)\<^sup>*\<^sup>* s s'"
  by (induction rule: rtranclp_induct) (auto simp: any_op_def intro: rtranclp.rtrancl_into_rtrancl)

lemma hrel_any_op: "hrel session_op\<^sup>*\<^sup>* x y \<Longrightarrow> hrel (any_op cs)\<^sup>*\<^sup>* x y"
  unfolding hrel_def using any_op_session by blast

lemma hrel_closeQuestion: "hrel (any_op cs)\<^sup>*\<^sup>* sys (fst (closeQuestion cs r sys))"
proof (cases "deref sys r")
  case None
  then show ?thesis by (simp add: closeQuestion_def hrel_star_refl)
next
  case (Some s)
  let ?sys1 = "clear_questionTimer s sys"
  let ?s1 = "snd (endQuestion cs s)"
  have d: "deref ?sys1 r = Some s" using Some by simp
  have e: "(any_op cs)\<^sup>*\<^sup>* s ?s1"
    by (rule r_into_rtranclp) (simp add: any_op_def op_endQuestion)
  have l: "(any_op cs)\<^sup>*\<^sup>* s (?s1\<lparr> status := LEADERBOARD \<rparr>)"
    by (rule rtranclp.rtrancl_into_rtrancl[OF e]) (simp add: any_op_def op_leaderboard)
  have a: "hrel (any_op cs)\<^sup>*\<^sup>* sys ?sys1" by (rule hrel_star_heap_eq) simp
  have "hrel (any_op cs)\<^sup>*\<^sup>* sys (store r ?s1 ?sys1)"
    by (rule hrel_star_trans[OF a]) (rule hrel_star_store[OF d e])
  moreover have "hrel (any_op cs)\<^sup>*\<^sup>* sys (store r (?s1\<lparr> status := LEADERBOARD \<rparr>) ?sys1)"
    by (rule hrel_star_trans[OF a]) (rule hrel_star_store[OF d l])
  ultimately show ?thesis using Some
    by (cases "endQuestion cs s") (auto simp: closeQuestion_def Let_def split: sum.splits)
qed

lemma create_game_heap:
  assumes "deref (fst (create_game db code sid token qid sys)) r = Some s'"
  shows "deref sys r = Some s' \<or> (r = nextObject sys \<and> GameSession_new db code qid sid = Inr s')"
proof (cases "token = ValidToken \<and> getGameByAdminSocket sid sys = None")
  case False
  then have "fst (create_game db code sid token qid sys) = sys"
    by (auto simp: create_game_def split: Token.splits option.splits)
  with assms show ?thesis by simp
next
  case True
  show ?thesis
  proof (cases "GameSession_new db code qid sid")
    case (Inl e)
    with True have "fst (create_game db code sid token qid sys) = sys"
      by (simp add: create_game_def createGame_fail)
    with assms show ?thesis by simp
  next
    case (Inr g)
    let ?sys1 = "sys\<lparr> heap := AList.update (nextObject sys) g (heap sys),
           activeGames := AList.update code (nextObject sys) (activeGames sys),
           nextObject := nextObject sys + 1 \<rparr>"
    have d: "deref ?sys1 r = (if r = nextObject sys then Some g else deref sys r)"
      by (simp add: deref_def update_conv')
    from True Inr have "fst (create_game db code sid token qid sys) = ?sys1"
      by (simp add: create_game_def createGame_ok split: option.splits)
    with assms d Inr show ?thesis by (auto split: if_splits)
  qed
qed

lemma hrel_join_game: "hrel session_op\<^sup>*\<^sup>* sys (fst (join_game sid code name sys))"
proof (cases "getGame (toUpperCase code) sys")
  case None
  then show ?thesis by (simp add: join_game_def hrel_star_refl)
next
  case (Some a)
  obtain r s where a: "a = (r, s)" by (cases a)
  from Some a have d: "deref sys r = Some s" by (simp add: getGame_Some)
  show ?thesis
  proof (cases "addPlayer sid name s")
    case (Inl e)
    with Some a show ?thesis by (simp add: join_game_def hrel_star_refl)
  next
    case (Inr s1)
    have "hrel session_op\<^sup>*\<^sup>* sys (store r s1 sys)"
      by (rule hrel_star_store[OF d]) (rule r_into_rtranclp, rule op_addPlayer[OF Inr])
    with Some a Inr show ?thesis by (simp add: join_game_def)
  qed
qed

lemma hrel_open_question:
  assumes d: "deref sys r = Some s"
  shows "hrel session_op\<^sup>*\<^sup>* sys
           (fst (let (res, s1) = startNextQuestion now s; sys1 = store r s1 sys
                 in case res of
                      Inl e \<Rightarrow> (sys1, [], Some e)
                    | Inr None \<Rightarrow> (sys1, m, None)
                    | Inr (Some questionData) \<Rightarrow> handleQuestion r questionData sys1))"
proof -
  obtain res s1 where st: "startNextQuestion now s = (res, s1)" by (cases "startNextQuestion now s")
  then have "s1 = snd (startNextQuestion now s)" by simp
  then have "session_op s s1" by (simp add: op_startNextQuestion)
  then have 1: "hrel session_op\<^sup>*\<^sup>* sys (store r s1 sys)"
    by (intro hrel_star_store[OF d] r_into_rtranclp)
  have 2: "hrel session_op\<^sup>*\<^sup>* sys (fst (handleQuestion r qd (store r s1 sys)))" for qd
    by (rule hrel_star_trans[OF 1 hrel_handleQuestion])
  from 1 2 show ?thesis by (simp add: st Let_def split: sum.splits option.splits)
qed

lemma hrel_start_game: "hrel session_op\<^sup>*\<^sup>* sys (fst (start_game now sid sys))"
proof (cases "getGameByAdminSocket sid sys")
  case None
  then show ?thesis by (simp add: start_game_def hrel_star_refl)
next
  case (Some a)
  obtain r s where a: "a = (r, s)" by (cases a)
  from Some a have d: "deref sys r = Some s" by (simp add: getGameByAdminSocket_Some)
  show ?thesis using Some a hrel_open_question[OF d]
    by (simp add: start_game_def hrel_star_refl)
qed

lemma hrel_next_question: "hrel session_op\<^sup>*\<^sup>* sys (fst (next_question now sid sys))"
proof (cases "getGameByAdminSocket sid sys")
  case None
  then show ?thesis by (simp add: next_question_def hrel_star_refl)
next
  case (Some a)
  obtain r s where a: "a = (r, s)" by (cases a)
  from Some a have d: "deref sys r = Some s" by (simp add: getGameByAdminSocket_Some)
  show ?thesis using Some a hrel_open_question[OF d] hrel_finishGame[OF d]
    by (simp add: next_question_def)
qed

lemma hrel_end_game: "hrel session_op\<^sup>*\<^sup>* sys (fst (end_game sid sys))"
proof (cases "getGameByAdminSocket sid sys")
  case None
  then show ?thesis by (simp add: end_game_def hrel_star_refl)
next
  case (Some a)
  obtain r s where a: "a = (r, s)" by (cases a)
  from Some a have d: "deref sys r = Some s" by (simp add: getGameByAdminSocket_Some)
  show ?thesis using Some a hrel_finishGame[OF d] by (simp add: end_game_def)
qed

lemma hrel_disconnect: "hrel session_op\<^sup>*\<^sup>* sys (fst (disconnect sid sys))"
proof (cases "getGameByAdminSocket sid sys")
  case (Some a)
  obtain r s where a: "a = (r, s)" by (cases a)
  from Some a have d: "deref sys r = Some s" by (simp add: getGameByAdminSocket_Some)
  show ?thesis using Some a hrel_finishGame[OF d] by (simp add: disconnect_def)
next
  case None
  show ?thesis
  proof (cases "getGameByPlayerSocket sid sys")
    case None
    with \<open>getGameByAdminSocket sid sys = None\<close> show ?thesis
      by (simp add: disconnect_def hrel_star_refl)
  next
    case (Some a)
    obtain r s where a: "a = (r, s)" by (cases a)
    from Some a have d: "deref sys r = Some s" by (simp add: getGameByPlayerSocket_Some)
    have "hrel session_op\<^sup>*\<^sup>* sys (store r (removePlayer sid s) sys)"
      by (rule hrel_star_store[OF d]) (rule r_into_rtranclp, rule op_removePlayer)
    with Some a \<open>getGameByAdminSocket sid sys = None\<close> show ?thesis
      by (simp add: disconnect_def Let_def)
  qed
qed

lemma hrel_submit_answer: "hrel (any_op cs)\<^sup>*\<^sup>* sys (fst (submit_answer cs now sid oid sys))"
proof (cases "getGameByPlayerSocket sid sys")
  case None
  then show ?thesis by (simp add: submit_answer_def hrel_star_refl)
next
  case (Some a)
  obtain r s where a: "a = (r, s)" by (cases a)
  from Some a have d: "deref sys r = Some s" by (simp add: getGameByPlayerSocket_Some)
  obtain acc s1 where st: "submitAnswer now sid oid s = (acc, s1)" by (cases "submitAnswer now sid oid s")
  then have "s1 = snd (submitAnswer now sid oid s)" by simp
  then have "session_op s s1" by (simp add: op_submitAnswer)
  then have "(any_op cs)\<^sup>*\<^sup>* s s1" by (intro r_into_rtranclp) (simp add: any_op_def)
  then have 1: "hrel (any_op cs)\<^sup>*\<^sup>* sys (store r s1 sys)" by (rule hrel_star_store[OF d])
  have 2: "hrel (any_op cs)\<^sup>*\<^sup>* sys (fst (closeQuestion cs r (store r s1 sys)))"
    by (rule hrel_star_trans[OF 1 hrel_closeQuestion])
  from 1 2 Some a st show ?thesis by (simp add: submit_answer_def Let_def)
qed

lemma hrel_timer_fires: "hrel (any_op cs)\<^sup>*\<^sup>* sys (fst (timer_fires cs h sys))"
proof (cases "map_of (timers sys) h")
  case None
  then show ?thesis by (simp add: timer_fires_def hrel_star_refl)
next
  case (Some r)
  have "hrel (any_op cs)\<^sup>*\<^sup>* sys (sys\<lparr> timers := AList.delete h (timers sys) \<rparr>)"
    by (rule hrel_star_heap_eq) simp
  then have "hrel (any_op cs)\<^sup>*\<^sup>* sys (fst (closeQuestion cs r (sys\<lparr> timers := AList.delete h (timers sys) \<rparr>)))"
    by (rule hrel_star_trans[OF _ hrel_closeQuestion])
  with Some show ?thesis by (simp add: timer_fires_def)
qed

text \<open>Every event: an object of the later store is an object of the earlier store after
  some operations, or the session that the event created.\<close>

lemma step_heap:
  assumes "deref (fst (step cs e sys)) r = Some s'"
  shows "(\<exists>s. deref sys r = Some s \<and> (any_op cs)\<^sup>*\<^sup>* s s') \<or>
         (\<exists>sid token qid code db. e = CreateGame sid token qid code db \<and> r = nextObject sys \<and>
              GameSession_new db code qid sid = Inr s')"
proof (cases e)
  case (CreateGame sid token qid code db)
  with assms create_game_heap[of db code sid token qid sys r s'] show ?thesis by auto
next
  case (JoinGame sid code name)
  with assms hrel_any_op[OF hrel_join_game, of cs sys sid code name] show ?thesis
    by (simp add: hrel_def)
next
  case (StartGame sid now)
  with assms hrel_any_op[OF hrel_start_game, of cs sys now sid] show ?thesis
    by (simp add: hrel_def)
next
  case (SubmitAnswer sid oid now)
  with assms hrel_submit_answer[of cs sys now sid oid] show ?thesis by (simp add: hrel_def)
next
  case (NextQuestion sid now)
  with assms hrel_any_op[OF hrel_next_question, of cs sys now sid] show ?thesis
    by (simp add: hrel_def)
next
  case (EndGame sid)
  with assms hrel_any_op[OF hrel_end_game, of cs sys sid] show ?thesis by (simp add: hrel_def)
next
  case (Disconnect sid)
  with assms hrel_any_op[OF hrel_disconnect, of cs sys sid] show ?thesis by (simp add: hrel_def)
next
  case (TimerFires h)
  with assms hrel_timer_fires[of cs sys h] show ?thesis by (simp add: hrel_def)
qed

section \<open>Scores\<close>

lemma scores_grow_refl: "scores_grow s s"
  by (auto simp: scores_grow_def)

lemma scores_grow_trans:
  assumes "scores_grow a b" "scores_grow b c"
  shows "scores_grow a c"
  unfolding scores_grow_def
proof (intro impI conjI allI)
  assume a: "scores_ok a"
  with assms(1) have b: "scores_ok b" by (simp add: scores_grow_def)
  with assms(2) show c: "scores_ok c" by (simp add: scores_grow_def)
  assume w: "status a \<noteq> WAITING"
  with a assms(1) have wb: "status b \<noteq> WAITING" by (simp add: scores_grow_def)
  with b assms(2) show "status c \<noteq> WAITING" by (simp add: scores_grow_def)
  fix sid p'' assume "map_of (players c) sid = Some p''"
  with b wb assms(2) obtain p' where p': "map_of (players b) sid = Some p'" "score p' \<le> score p''"
    unfolding scores_grow_def by blast
  with a w assms(1) obtain p where "map_of (players a) sid = Some p" "score p \<le> score p'"
    unfolding scores_grow_def by blast
  with p' show "\<exists>p. map_of (players a) sid = Some p \<and> score p \<le> score p''"
    by (intro exI[of _ p]) simp
qed

lemma scores_grow_mono:
  assumes "scores_grow s s'" "scores_ok s" "map_of (players s) sid = Some p"
    "map_of (players s') sid = Some p'"
  shows "score p \<le> score p'"
proof (cases "status s = WAITING")
  case True
  with assms(2,3) have "score p = 0" by (simp add: scores_ok_def)
  moreover from assms(1,2) have "scores_ok s'" by (simp add: scores_grow_def)
  with assms(4) have "0 \<le> score p'" by (simp add: scores_ok_def)
  ultimately show ?thesis by simp
next
  case False
  with assms(1,2,4) obtain q where "map_of (players s) sid = Some q" "score q \<le> score p'"
    unfolding scores_grow_def by blast
  with assms(3) show ?thesis by simp
qed

lemma addPlayer_Inr:
  "addPlayer sid name s = Inr s' \<Longrightarrow>
     status s = WAITING \<and>
     s' = s\<lparr> players := AList.update sid \<lparr> player_id = sid, username = name, score = 0,
                        currentAnswer = None, answerTimestamp = None \<rparr> (players s) \<rparr>"
  by (auto simp: addPlayer_def split: if_splits)

lemma scores_grow_addPlayer: "addPlayer sid name s = Inr s' \<Longrightarrow> scores_grow s s'"
  by (drule addPlayer_Inr) (auto simp: scores_grow_def scores_ok_def update_conv' split: if_splits)

lemma scores_grow_removePlayer: "scores_grow s (removePlayer sid s)"
  by (auto simp: scores_grow_def scores_ok_def removePlayer_def delete_conv' split: if_splits)

lemma startNextQuestion_cases:
  "snd (startNextQuestion now s) = s\<lparr> currentQuestionIndex := currentQuestionIndex s + 1 \<rparr> \<or>
   snd (startNextQuestion now s) =
     s\<lparr> currentQuestionIndex := currentQuestionIndex s + 1, status := QUESTION,
        questionStartTime := Some now, questionResults := [],
        players := map (\<lambda>(k, p). (k, p\<lparr> currentAnswer := None, answerTimestamp := None \<rparr>)) (players s) \<rparr>"
  by (simp add: startNextQuestion_def Let_def split: option.splits)

lemma scores_grow_startNextQuestion: "scores_grow s (snd (startNextQuestion now s))"
  using startNextQuestion_cases[of now s]
  by (auto simp: scores_grow_def scores_ok_def map_of_map_values)

lemma submitAnswer_cases:
  "snd (submitAnswer now sid oid s) = s \<or>
   (\<exists>p. map_of (players s) sid = Some p \<and>
      snd (submitAnswer now sid oid s) =
        s\<lparr> players := AList.update sid
               (p\<lparr> currentAnswer := oid, answerTimestamp := Some now \<rparr>) (players s) \<rparr>)"
  using submitAnswer_rejected[of now sid oid s] submitAnswer_accepted[of now sid oid s] by blast

lemma scores_grow_submitAnswer: "scores_grow s (snd (submitAnswer now sid oid s))"
  using submitAnswer_cases[of now sid oid s]
  by (auto simp: scores_grow_def scores_ok_def update_conv' split: if_splits)

lemma answer_points_nonneg: "(\<And>t b. 0 \<le> cs t b) \<Longrightarrow> 0 \<le> answer_points cs s cid p"
  by (simp add: answer_points_def split: option.splits)

lemma scores_grow_endQuestion:
  assumes "\<And>t b. 0 \<le> cs t b"
  shows "scores_grow s (snd (endQuestion cs s))"
proof (cases "question_at s")
  case None
  then show ?thesis by (auto simp: endQuestion_None scores_grow_def scores_ok_def)
next
  case (Some q)
  have nn: "0 \<le> answer_points cs s cid p" for cid p by (rule answer_points_nonneg[OF assms])
  show ?thesis
    unfolding scores_grow_def scores_ok_def
    using nn by (auto simp: endQuestion_Some[OF Some] map_of_map_values add_nonneg_nonneg)
qed

lemma scores_grow_any_op:
  assumes "\<And>t b. 0 \<le> cs t b" "any_op cs s s'"
  shows "scores_grow s s'"
  using assms(2) unfolding any_op_def
proof
  assume "session_op s s'"
  then show ?thesis
  proof cases
    case (op_addPlayer sid name) then show ?thesis by (simp add: scores_grow_addPlayer)
  next
    case (op_removePlayer sid) then show ?thesis by (simp add: scores_grow_removePlayer)
  next
    case (op_startNextQuestion now) then show ?thesis by (simp add: scores_grow_startNextQuestion)
  next
    case (op_submitAnswer now sid oid) then show ?thesis by (simp add: scores_grow_submitAnswer)
  next
    case op_finished then show ?thesis by (auto simp: scores_grow_def scores_ok_def)
  next
    case (op_questionTimer h) then show ?thesis by (auto simp: scores_grow_def scores_ok_def)
  qed
next
  assume "closing_op cs s s'"
  then show ?thesis
  proof cases
    case op_endQuestion then show ?thesis by (simp add: scores_grow_endQuestion[OF assms(1)])
  next
    case op_leaderboard then show ?thesis by (auto simp: scores_grow_def scores_ok_def)
  qed
qed

lemma scores_grow_star:
  assumes "\<And>t b. 0 \<le> cs t b" "(any_op cs)\<^sup>*\<^sup>* s s'"
  shows "scores_grow s s'"
  using assms(2)
proof (induction rule: rtranclp_induct)
  case base
  show ?case by (rule scores_grow_refl)
next
  case (step y z)
  from scores_grow_any_op[OF assms(1) step.hyps(2)] step.IH show ?case
    by (blast intro: scores_grow_trans)
qed

lemma scores_ok_new: "GameSession_new db code qid admin = Inr g \<Longrightarrow> scores_ok g"
  by (auto simp: GameSession_new_def scores_ok_def Let_def split: option.splits if_splits)

lemma setQuestionTimer_fields [simp]:
  "activeGames (setQuestionTimer r sys) = activeGames sys"
  "nextObject (setQuestionTimer r sys) = nextObject sys"
  by (simp_all add: setQuestionTimer_def setTimeout_def split: option.splits)

lemma cleanup_fields [simp]:
  "activeGames (cleanup r sys) = activeGames sys"
  "nextObject (cleanup r sys) = nextObject sys"
  by (simp_all add: cleanup_def split: option.splits)

lemma removeGame_fields [simp]:
  "nextObject (removeGame code sys) = nextObject sys"
  "activeGames (removeGame code sys) = AList.delete code (activeGames sys)"
  by (simp_all add: removeGame_def Let_def map_of_eq_None_iff split: option.splits)

lemma closeQuestion_fields [simp]:
  "activeGames (fst (closeQuestion cs r sys)) = activeGames sys"
  "nextObject (fst (closeQuestion cs r sys)) = nextObject sys"
  by (simp_all add: closeQuestion_def Let_def split: option.splits prod.splits sum.splits)

lemma handleQuestion_fields [simp]:
  "activeGames (fst (handleQuestion r qd sys)) = activeGames sys"
  "nextObject (fst (handleQuestion r qd sys)) = nextObject sys"
  by (simp_all add: handleQuestion_def split: option.splits)

lemma finishGame_fields [simp]:
  "nextObject (fst (finishGame r s sys)) = nextObject sys"
  "activeGames (fst (finishGame r s sys)) = AList.delete (gameCode s) (activeGames sys)"
  by (simp_all add: finishGame_def)

lemma join_game_fields [simp]:
  "activeGames (fst (join_game sid code name sys)) = activeGames sys"
  "nextObject (fst (join_game sid code name sys)) = nextObject sys"
  by (simp_all add: join_game_def Let_def split: option.splits prod.splits sum.splits)

lemma start_game_fields [simp]:
  "activeGames (fst (start_game now sid sys)) = activeGames sys"
  "nextObject (fst (start_game now sid sys)) = nextObject sys"
  by (simp_all add: start_game_def Let_def split: option.splits prod.splits sum.splits)

lemma submit_answer_fields [simp]:
  "activeGames (fst (submit_answer cs now sid oid sys)) = activeGames sys"
  "nextObject (fst (submit_answer cs now sid oid sys)) = nextObject sys"
  by (simp_all add: submit_answer_def Let_def split: option.splits prod.splits sum.splits)

lemma timer_fires_fields [simp]:
  "activeGames (fst (timer_fires cs h sys)) = activeGames sys"
  "nextObject (fst (timer_fires cs h sys)) = nextObject sys"
  by (simp_all add: timer_fires_def split: option.splits)

lemma next_question_nextObject [simp]:
  "nextObject (fst (next_question now sid sys)) = nextObject sys"
  by (simp add: next_question_def Let_def split: option.splits prod.splits sum.splits)

lemma end_game_nextObject [simp]: "nextObject (fst (end_game sid sys)) = nextObject sys"
  by (simp add: end_game_def split: option.splits prod.splits)

lemma disconnect_nextObject [simp]: "nextObject (fst (disconnect sid sys)) = nextObject sys"
  by (simp add: disconnect_def Let_def split: option.splits prod.splits)

lemma create_game_cases:
  "fst (create_game db code sid token qid sys) = sys \<or>
   (\<exists>g. token = ValidToken \<and> getGameByAdminSocket sid sys = None \<and>
        GameSession_new db code qid sid = Inr g \<and>
        fst (create_game db code sid token qid sys) =
          sys\<lparr> heap := AList.update (nextObject sys) g (heap sys),
               activeGames := AList.update code (nextObject sys) (activeGames sys),
               nextObject := nextObject sys + 1 \<rparr>)"
proof (cases "GameSession_new db code qid sid")
  case (Inl e)
  then show ?thesis
    by (simp add: create_game_def createGame_fail split: Token.splits option.splits)
next
  case (Inr g)
  then show ?thesis
    by (simp add: create_game_def createGame_ok deref_def update_conv' split: Token.splits option.splits)
qed

lemma nextObject_step: "nextObject sys \<le> nextObject (fst (step cs e sys))"
proof (cases e)
  case (CreateGame sid token qid code db)
  with create_game_cases[of db code sid token qid sys] show ?thesis by auto
qed simp_all

lemma heap_fresh_iff: "heap_fresh sys \<longleftrightarrow> (\<forall>r s. deref sys r = Some s \<longrightarrow> r < nextObject sys)"
proof
  assume "heap_fresh sys"
  then show "\<forall>r s. deref sys r = Some s \<longrightarrow> r < nextObject sys"
    by (auto simp: heap_fresh_def deref_def list_all_iff dest: map_of_SomeD)
next
  assume a: "\<forall>r s. deref sys r = Some s \<longrightarrow> r < nextObject sys"
  show "heap_fresh sys"
    unfolding heap_fresh_def list_all_iff
  proof (intro ballI, clarify)
    fix r s assume "(r, s) \<in> set (heap sys)"
    then have "r \<in> fst ` set (heap sys)" by force
    then obtain s0 where "map_of (heap sys) r = Some s0"
      by (meson domD domIff map_of_eq_None_iff)
    with a show "r < nextObject sys" by (simp add: deref_def)
  qed
qed

lemma heap_fresh_step:
  assumes "heap_fresh sys"
  shows "heap_fresh (fst (step cs e sys))"
  unfolding heap_fresh_iff
proof (intro allI impI)
  fix r s' assume d: "deref (fst (step cs e sys)) r = Some s'"
  show "r < nextObject (fst (step cs e sys))"
  proof (cases e)
    case (CreateGame sid token qid code db)
    from create_game_cases[of db code sid token qid sys] show ?thesis
    proof
      assume "fst (create_game db code sid token qid sys) = sys"
      with d CreateGame assms show ?thesis by (simp add: heap_fresh_iff)
    next
      assume "\<exists>g. token = ValidToken \<and> getGameByAdminSocket sid sys = None \<and>
        GameSession_new db code qid sid = Inr g \<and>
        fst (create_game db code sid token qid sys) =
          sys\<lparr> heap := AList.update (nextObject sys) g (heap sys),
               activeGames := AList.update code (nextObject sys) (activeGames sys),
               nextObject := nextObject sys + 1 \<rparr>"
      then obtain g where g: "fst (create_game db code sid token qid sys) =
          sys\<lparr> heap := AList.update (nextObject sys) g (heap sys),
               activeGames := AList.update code (nextObject sys) (activeGames sys),
               nextObject := nextObject sys + 1 \<rparr>" by blast
      from d CreateGame have "r = nextObject sys \<or> deref sys r = Some s'"
        by (auto simp: g deref_def update_conv' split: if_splits)
      with assms CreateGame show ?thesis by (auto simp: g heap_fresh_iff less_Suc_eq)
    qed
  next
    case (JoinGame sid code name)
    with d hrel_join_game[of sys sid code name] assms show ?thesis
      by (auto simp: hrel_def heap_fresh_iff)
  next
    case (StartGame sid now)
    with d hrel_start_game[of sys now sid] assms show ?thesis
      by (auto simp: hrel_def heap_fresh_iff)
  next
    case (SubmitAnswer sid oid now)
    with d hrel_submit_answer[of cs sys now sid oid] assms show ?thesis
      by (auto simp: hrel_def heap_fresh_iff)
  next
    case (NextQuestion sid now)
    with d hrel_next_question[of sys now sid] assms show ?thesis
      by (auto simp: hrel_def heap_fresh_iff)
  next
    case (EndGame sid)
    with d hrel_end_game[of sys sid] assms show ?thesis
      by (auto simp: hrel_def heap_fresh_iff)
  next
    case (Disconnect sid)
    with d hrel_disconnect[of sys sid] assms show ?thesis
      by (auto simp: hrel_def heap_fresh_iff)
  next
    case (TimerFires h)
    with d hrel_timer_fires[of cs sys h] assms show ?thesis
      by (auto simp: hrel_def heap_fresh_iff)
  qed
qed

lemma run_snoc: "run cs (es @ [e]) sys = fst (step cs e (run cs es sys))"
  by (induction es arbitrary: sys) simp_all

lemma heap_fresh_initial: "heap_fresh initial"
  by (simp add: heap_fresh_def initial_def)

lemma heap_fresh_run: "heap_fresh (run cs es initial)"
  by (induction es rule: rev_induct) (simp_all add: heap_fresh_initial run_snoc heap_fresh_step)

text \<open>With a fresh store, an object that was there before the event has evolved.\<close>

lemma step_same_object:
  assumes "heap_fresh sys" "deref sys r = Some s" "deref (fst (step cs e sys)) r = Some s'"
  shows "(any_op cs)\<^sup>*\<^sup>* s s'"
proof -
  from assms(1,2) have "r \<noteq> nextObject sys" by (auto simp: heap_fresh_iff)
  with step_heap[OF assms(3)] assms(2) show ?thesis by auto
qed

lemma scores_ok_step:
  assumes cs: "\<And>t b. 0 \<le> cs t b"
    and ok: "\<forall>r s. deref sys r = Some s \<longrightarrow> scores_ok s"
    and d: "deref (fst (step cs e sys)) r = Some s'"
  shows "scores_ok s'"
  using step_heap[OF d]
proof
  assume "\<exists>s. deref sys r = Some s \<and> (any_op cs)\<^sup>*\<^sup>* s s'"
  then obtain s where s: "deref sys r = Some s" "(any_op cs)\<^sup>*\<^sup>* s s'" by blast
  from scores_grow_star[OF cs s(2)] ok s(1) show ?thesis by (simp add: scores_grow_def)
next
  assume "\<exists>sid token qid code db. e = CreateGame sid token qid code db \<and> r = nextObject sys \<and>
              GameSession_new db code qid sid = Inr s'"
  then show ?thesis by (auto intro: scores_ok_new)
qed

lemma scores_ok_run:
  assumes cs: "\<And>t b. 0 \<le> cs t b"
  shows "deref (run cs es initial) r = Some s \<Longrightarrow> scores_ok s"
proof (induction es arbitrary: r s rule: rev_induct)
  case Nil
  then show ?case by (simp add: initial_def deref_def)
next
  case (snoc e es)
  from snoc.prems have "deref (fst (step cs e (run cs es initial))) r = Some s"
    by (simp add: run_snoc)
  then show ?case using snoc.IH by (intro scores_ok_step[OF cs]) auto
qed

lemma calculateScore_spec_nonneg: "0 \<le> calculateScore_spec t b"
proof (cases "b \<le> 0 \<or> t \<ge> of_int b \<or> t \<le> 0")
  case True
  then show ?thesis by (auto simp: calculateScore_spec_def)
next
  case False
  then have b: "0 < b" and t: "t < of_int b" "0 < t" by auto
  from b t have "900 * t / of_int b < 900" by (simp add: pos_divide_less_eq)
  then have "\<lfloor>900 * t / of_int b\<rfloor> < 900" by (simp add: floor_less_iff)
  with False show ?thesis by (simp add: calculateScore_spec_def)
qed

section \<open>The registry\<close>

lemma set_update_subset: "set (AList.update k v al) \<subseteq> insert (k, v) (set al)"
  by (induction al) auto

lemma set_delete_subset: "set (AList.delete k al) \<subseteq> set al"
  by (auto simp: AList.delete_eq)

lemma find_game_None:
  "find_game P sys gs = None \<Longrightarrow> (c, r) \<in> set gs \<Longrightarrow> deref sys r = Some s \<Longrightarrow> \<not> P s"
  by (induction gs) (auto split: option.splits if_splits)

lemma find_game_entry:
  "find_game P sys gs = Some (r, s) \<Longrightarrow> \<exists>c. (c, r) \<in> set gs"
  by (drule find_game_Some) auto

lemma session_op_admin: "session_op s s' \<Longrightarrow> adminSocketId s' = adminSocketId s \<and> gameCode s' = gameCode s"
proof (induction rule: session_op.induct)
  case (op_addPlayer sid name s s')
  then show ?case by (auto dest: addPlayer_Inr)
next
  case (op_removePlayer s sid)
  then show ?case by (simp add: removePlayer_def)
next
  case (op_startNextQuestion s now)
  with startNextQuestion_cases[of now s] show ?case by auto
next
  case (op_submitAnswer s now sid oid)
  with submitAnswer_cases[of now sid oid s] show ?case by auto
qed simp_all

lemma endQuestion_admin:
  "adminSocketId (snd (endQuestion cs s)) = adminSocketId s \<and> gameCode (snd (endQuestion cs s)) = gameCode s"
  by (cases "question_at s") (simp_all add: endQuestion_None endQuestion_Some)

lemma any_op_admin: "any_op cs s s' \<Longrightarrow> adminSocketId s' = adminSocketId s \<and> gameCode s' = gameCode s"
  unfolding any_op_def
proof (erule disjE)
  assume "session_op s s'" then show ?thesis by (rule session_op_admin)
next
  assume "closing_op cs s s'"
  then show ?thesis by cases (simp_all add: endQuestion_admin)
qed

lemma any_op_star_admin:
  "(any_op cs)\<^sup>*\<^sup>* s s' \<Longrightarrow> adminSocketId s' = adminSocketId s \<and> gameCode s' = gameCode s"
  by (induction rule: rtranclp_induct) (auto dest: any_op_admin)

lemma next_question_activeGames:
  "activeGames (fst (next_question now sid sys)) = activeGames sys \<or>
   (\<exists>code. activeGames (fst (next_question now sid sys)) = AList.delete code (activeGames sys))"
  by (auto simp: next_question_def Let_def split: option.splits prod.splits sum.splits)

lemma end_game_activeGames:
  "activeGames (fst (end_game sid sys)) = activeGames sys \<or>
   (\<exists>code. activeGames (fst (end_game sid sys)) = AList.delete code (activeGames sys))"
  by (auto simp: end_game_def split: option.splits prod.splits)

lemma disconnect_activeGames:
  "activeGames (fst (disconnect sid sys)) = activeGames sys \<or>
   (\<exists>code. activeGames (fst (disconnect sid sys)) = AList.delete code (activeGames sys))"
  by (auto simp: disconnect_def Let_def split: option.splits prod.splits)

lemma step_activeGames:
  assumes "\<And>sid token qid code db. e \<noteq> CreateGame sid token qid code db"
  shows "activeGames (fst (step cs e sys)) = activeGames sys \<or>
         (\<exists>code. activeGames (fst (step cs e sys)) = AList.delete code (activeGames sys))"
proof (cases e)
  case (CreateGame sid token qid code db)
  with assms show ?thesis by blast
next
  case (NextQuestion sid now)
  with next_question_activeGames[of now sid sys] show ?thesis by simp
next
  case (EndGame sid)
  with end_game_activeGames[of sid sys] show ?thesis by simp
next
  case (Disconnect sid)
  with disconnect_activeGames[of sid sys] show ?thesis by simp
qed simp_all

lemma registry_ok_shrink:
  assumes ok: "registry_ok sys"
    and ag: "activeGames sys' = activeGames sys \<or> (\<exists>code. activeGames sys' = AList.delete code (activeGames sys))"
    and nx: "nextObject sys \<le> nextObject sys'"
    and hr: "hrel (\<lambda>g g'. adminSocketId g' = adminSocketId g) sys sys'"
  shows "registry_ok sys'"
proof -
  from ag have sub: "set (activeGames sys') \<subseteq> set (activeGames sys)"
    using set_delete_subset by fastforce
  from ag ok have 1: "distinct (map fst (activeGames sys'))"
    by (auto simp: registry_ok_def distinct_delete)
  from sub ok nx have 2: "\<forall>c r. (c, r) \<in> set (activeGames sys') \<longrightarrow> r < nextObject sys'"
    by (fastforce simp: registry_ok_def)
  have 3: "c1 = c2"
    if a: "(c1, r1) \<in> set (activeGames sys')" "deref sys' r1 = Some g1'"
          "(c2, r2) \<in> set (activeGames sys')" "deref sys' r2 = Some g2'"
          "adminSocketId g1' = adminSocketId g2'" for c1 r1 g1' c2 r2 g2'
  proof -
    from hr a(2) obtain g1 where g1: "deref sys r1 = Some g1" "adminSocketId g1' = adminSocketId g1"
      unfolding hrel_def by blast
    from hr a(4) obtain g2 where g2: "deref sys r2 = Some g2" "adminSocketId g2' = adminSocketId g2"
      unfolding hrel_def by blast
    from a(1,3) sub have "(c1, r1) \<in> set (activeGames sys)" "(c2, r2) \<in> set (activeGames sys)" by auto
    with ok g1 g2 a(5) show ?thesis unfolding registry_ok_def by metis
  qed
  from 1 2 3 show ?thesis unfolding registry_ok_def by blast
qed

lemma registry_ok_create:
  assumes ok: "registry_ok sys" and fresh: "heap_fresh sys"
    and none: "getGameByAdminSocket sid sys = None"
    and g: "adminSocketId g = sid"
  shows "registry_ok (sys\<lparr> heap := AList.update (nextObject sys) g (heap sys),
               activeGames := AList.update code (nextObject sys) (activeGames sys),
               nextObject := nextObject sys + 1 \<rparr>)"
    (is "registry_ok ?sys'")
proof -
  let ?n = "nextObject sys"
  have d: "deref ?sys' r = (if r = ?n then Some g else deref sys r)" for r
    by (simp add: deref_def update_conv')
  have sub: "set (activeGames ?sys') \<subseteq> insert (code, ?n) (set (activeGames sys))"
    using set_update_subset[of code ?n "activeGames sys"] by simp
  from ok have 1: "distinct (map fst (activeGames ?sys'))"
    by (simp add: registry_ok_def distinct_update)
  from sub ok have 2: "\<forall>c r. (c, r) \<in> set (activeGames ?sys') \<longrightarrow> r < nextObject ?sys'"
    by (fastforce simp: registry_ok_def less_Suc_eq)
  have old: "r \<noteq> ?n" if "(c, r) \<in> set (activeGames sys)" for c r
    using that ok by (fastforce simp: registry_ok_def)
  have noadmin: "adminSocketId g0 \<noteq> sid" if "(c, r) \<in> set (activeGames sys)" "deref sys r = Some g0" for c r g0
    using find_game_None[OF none[unfolded getGameByAdminSocket_def] that] by simp
  have 3: "c1 = c2"
    if a: "(c1, r1) \<in> set (activeGames ?sys')" "deref ?sys' r1 = Some g1"
          "(c2, r2) \<in> set (activeGames ?sys')" "deref ?sys' r2 = Some g2"
          "adminSocketId g1 = adminSocketId g2" for c1 r1 g1 c2 r2 g2
  proof -
    from a(1) sub have e1: "(c1, r1) = (code, ?n) \<or> (c1, r1) \<in> set (activeGames sys)" by auto
    from a(3) sub have e2: "(c2, r2) = (code, ?n) \<or> (c2, r2) \<in> set (activeGames sys)" by auto
    show ?thesis
    proof (cases "(c1, r1) = (code, ?n)")
      case True
      with a(2) d have g1: "g1 = g" by simp
      show ?thesis
      proof (cases "(c2, r2) = (code, ?n)")
        case True
        with \<open>(c1, r1) = (code, ?n)\<close> show ?thesis by simp
      next
        case False
        with e2 have in2: "(c2, r2) \<in> set (activeGames sys)" by blast
        with old a(4) d have "deref sys r2 = Some g2" by (auto split: if_splits)
        from noadmin[OF in2 this] g1 g a(5) show ?thesis by simp
      qed
    next
      case False
      with e1 have in1: "(c1, r1) \<in> set (activeGames sys)" by blast
      with old a(2) d have d1: "deref sys r1 = Some g1" by (auto split: if_splits)
      show ?thesis
      proof (cases "(c2, r2) = (code, ?n)")
        case True
        with a(4) d have "g2 = g" by simp
        with noadmin[OF in1 d1] g a(5) show ?thesis by simp
      next
        case False
        with e2 have in2: "(c2, r2) \<in> set (activeGames sys)" by blast
        with old a(4) d have d2: "deref sys r2 = Some g2" by (auto split: if_splits)
        from ok in1 d1 in2 d2 a(5) show ?thesis unfolding registry_ok_def by metis
      qed
    qed
  qed
  from 1 2 3 show ?thesis unfolding registry_ok_def by blast
qed

lemma step_hrel_admin:
  assumes "\<And>sid token qid code db. e \<noteq> CreateGame sid token qid code db"
  shows "hrel (\<lambda>g g'. adminSocketId g' = adminSocketId g) sys (fst (step cs e sys))"
  unfolding hrel_def
proof (intro allI impI)
  fix r s' assume "deref (fst (step cs e sys)) r = Some s'"
  from step_heap[OF this] assms obtain s where "deref sys r = Some s" "(any_op cs)\<^sup>*\<^sup>* s s'"
    by blast
  then show "\<exists>s. deref sys r = Some s \<and> adminSocketId s' = adminSocketId s"
    by (auto dest: any_op_star_admin)
qed

lemma registry_ok_step:
  assumes ok: "registry_ok sys" and fresh: "heap_fresh sys"
  shows "registry_ok (fst (step cs e sys))"
proof (cases "\<exists>sid token qid code db. e = CreateGame sid token qid code db")
  case True
  then obtain sid token qid code db where e: "e = CreateGame sid token qid code db" by blast
  from create_game_cases[of db code sid token qid sys] show ?thesis
  proof
    assume "fst (create_game db code sid token qid sys) = sys"
    with ok e show ?thesis by simp
  next
    assume "\<exists>g. token = ValidToken \<and> getGameByAdminSocket sid sys = None \<and>
        GameSession_new db code qid sid = Inr g \<and>
        fst (create_game db code sid token qid sys) =
          sys\<lparr> heap := AList.update (nextObject sys) g (heap sys),
               activeGames := AList.update code (nextObject sys) (activeGames sys),
               nextObject := nextObject sys + 1 \<rparr>"
    then obtain g where g: "getGameByAdminSocket sid sys = None"
        "GameSession_new db code qid sid = Inr g"
        "fst (create_game db code sid token qid sys) =
          sys\<lparr> heap := AList.update (nextObject sys) g (heap sys),
               activeGames := AList.update code (nextObject sys) (activeGames sys),
               nextObject := nextObject sys + 1 \<rparr>" by blast
    from GameSession_new_gameCode[OF g(2)] have "adminSocketId g = sid" by simp
    from registry_ok_create[OF ok fresh g(1) this, of code] g(3) e show ?thesis by simp
  qed
next
  case False
  then have ne: "\<And>sid token qid code db. e \<noteq> CreateGame sid token qid code db" by blast
  show ?thesis
    by (rule registry_ok_shrink[OF ok step_activeGames[OF ne] nextObject_step step_hrel_admin[OF ne]])
qed

lemma registry_ok_run: "registry_ok (run cs es initial)"
proof (induction es rule: rev_induct)
  case Nil
  show ?case by (simp add: registry_ok_def initial_def)
next
  case (snoc e es)
  then show ?case by (simp add: run_snoc registry_ok_step heap_fresh_run)
qed

lemma registry_entry_unique:
  assumes "registry_ok sys" "(c1, r1) \<in> set (activeGames sys)" "deref sys r1 = Some g1"
    "(c2, r2) \<in> set (activeGames sys)" "deref sys r2 = Some g2"
    "adminSocketId g1 = adminSocketId g2"
  shows "c1 = c2 \<and> r1 = r2 \<and> g1 = g2"
proof -
  from assms have c: "c1 = c2" unfolding registry_ok_def by metis
  from assms(1) have "distinct (map fst (activeGames sys))" by (simp add: registry_ok_def)
  with assms(2,4) c have "r1 = r2" by (metis eq_key_imp_eq_value)
  with c assms(3,5) show ?thesis by simp
qed

section \<open>Which events close a question\<close>

lemma session_op_status:
  "session_op s s' \<Longrightarrow> status s' = status s \<or> status s' = QUESTION \<or> status s' = FINISHED"
proof (induction rule: session_op.induct)
  case (op_addPlayer sid name s s')
  then show ?case by (auto dest: addPlayer_Inr)
next
  case (op_removePlayer s sid)
  then show ?case by (simp add: removePlayer_def)
next
  case (op_startNextQuestion s now)
  with startNextQuestion_cases[of now s] show ?case by auto
next
  case (op_submitAnswer s now sid oid)
  with submitAnswer_cases[of now sid oid s] show ?case by auto
qed simp_all

lemma session_op_star_status:
  "session_op\<^sup>*\<^sup>* s s' \<Longrightarrow> status s' = status s \<or> status s' = QUESTION \<or> status s' = FINISHED"
  by (induction rule: rtranclp_induct) (auto dest: session_op_status)

lemma submitAnswer_status [simp]: "status (snd (submitAnswer now sid oid s)) = status s"
  using submitAnswer_cases[of now sid oid s] by auto

lemma closeQuestion_other:
  "r \<noteq> r0 \<Longrightarrow> deref (fst (closeQuestion cs r0 sys)) r = deref sys r"
  by (simp add: closeQuestion_def Let_def split: option.splits prod.splits sum.splits)

lemma GameSession_new_status: "GameSession_new db code qid admin = Inr g \<Longrightarrow> status g = WAITING"
  by (auto simp: GameSession_new_def Let_def split: option.splits if_splits)

lemma quiet_event_keeps_open:
  assumes hr: "hrel session_op\<^sup>*\<^sup>* sys sys'"
    and d: "deref sys r = Some s" "status s = QUESTION" "deref sys' r = Some s'"
  shows "status s' \<noteq> REVEAL \<and> status s' \<noteq> LEADERBOARD"
proof -
  from hr d(3) obtain s0 where "deref sys r = Some s0" "session_op\<^sup>*\<^sup>* s0 s'"
    unfolding hrel_def by blast
  with d(1) have "session_op\<^sup>*\<^sup>* s s'" by simp
  from session_op_star_status[OF this] d(2) show ?thesis by auto
qed

lemma submit_answer_closes:
  assumes d: "deref sys r = Some s" "status s = QUESTION"
    "deref (fst (submit_answer cs now sid oid sys)) r = Some s'"
    "status s' = REVEAL \<or> status s' = LEADERBOARD"
  shows "getGameByPlayerSocket sid sys = Some (r, s) \<and> fst (submitAnswer now sid oid s) \<and>
         allPlayersAnswered (snd (submitAnswer now sid oid s))"
proof (cases "getGameByPlayerSocket sid sys")
  case None
  with d show ?thesis by (auto simp: submit_answer_def)
next
  case (Some a)
  obtain r0 g where a: "a = (r0, g)" by (cases a)
  from Some a have g: "deref sys r0 = Some g" by (simp add: getGameByPlayerSocket_Some)
  let ?s1 = "snd (submitAnswer now sid oid g)"
  show ?thesis
  proof (cases "fst (submitAnswer now sid oid g) \<and> allPlayersAnswered ?s1")
    case False
    with Some a have "fst (submit_answer cs now sid oid sys) = store r0 ?s1 sys"
      by (auto simp: submit_answer_def Let_def split: prod.splits)
    with d g show ?thesis by (auto split: if_splits)
  next
    case True
    with Some a have f: "fst (submit_answer cs now sid oid sys) = fst (closeQuestion cs r0 (store r0 ?s1 sys))"
      by (auto simp: submit_answer_def Let_def split: prod.splits)
    have "r = r0"
    proof (rule ccontr)
      assume "r \<noteq> r0"
      with d f show False by (auto simp: closeQuestion_other)
    qed
    with g d(1) have "g = s" by simp
    with True Some a \<open>r = r0\<close> show ?thesis by simp
  qed
qed

lemma timer_fires_closes:
  assumes d: "deref sys r = Some s" "status s = QUESTION"
    "deref (fst (timer_fires cs h sys)) r = Some s'"
    "status s' = REVEAL \<or> status s' = LEADERBOARD"
  shows "map_of (timers sys) h = Some r"
proof (cases "map_of (timers sys) h")
  case None
  with d show ?thesis by (auto simp: timer_fires_def)
next
  case (Some r0)
  have "r = r0"
  proof (rule ccontr)
    assume ne: "r \<noteq> r0"
    have "deref (sys\<lparr> timers := AList.delete h (timers sys) \<rparr>) r = deref sys r"
      by (simp add: deref_def)
    with Some ne have "deref (fst (timer_fires cs h sys)) r = deref sys r"
      by (simp add: timer_fires_def closeQuestion_other)
    with d show False by auto
  qed
  with Some show ?thesis by simp
qed

lemma allPlayersAnswered_removePlayer:
  "(\<forall>(k, p) \<in> set (players g). k \<noteq> sid \<longrightarrow> currentAnswer p \<noteq> None) \<Longrightarrow>
   allPlayersAnswered (removePlayer sid g)"
  by (auto simp: allPlayersAnswered_def removePlayer_def list_all_iff AList.delete_eq)

section \<open>Closing twice, and the question index\<close>

lemma answer_points_score [simp]: "answer_points cs s cid (p\<lparr> score := x \<rparr>) = answer_points cs s cid p"
  by (simp add: answer_points_def answer_correct_def)

lemma endQuestion_question_at: "question_at (snd (endQuestion cs s)) = question_at s"
  by (cases "question_at s") (simp_all add: endQuestion_None endQuestion_Some)

lemma endQuestion_answer_points:
  "answer_points cs (snd (endQuestion cs s)) = answer_points cs s"
  by (cases "question_at s")
     (simp_all add: endQuestion_None endQuestion_Some answer_points_def fun_eq_iff
        cong: if_cong option.case_cong)

lemma endQuestion_twice:
  assumes q: "question_at s = Some q" and p: "map_of (players s) sid = Some p"
  shows "map_option score (map_of (players (snd (endQuestion cs s))) sid) =
           Some (score p + answer_points cs s (find_correctOptionId q) p)"
    and "map_option score (map_of (players (snd (endQuestion cs (snd (endQuestion cs s))))) sid) =
           Some (score p + 2 * answer_points cs s (find_correctOptionId q) p)"
proof -
  let ?s1 = "snd (endQuestion cs s)"
  have q1: "question_at ?s1 = Some q" using q by (simp add: endQuestion_question_at)
  have p1: "map_of (players ?s1) sid =
      Some (p\<lparr> score := score p + answer_points cs s (find_correctOptionId q) p \<rparr>)"
    using p by (simp add: endQuestion_player[OF q])
  show "map_option score (map_of (players ?s1) sid) =
           Some (score p + answer_points cs s (find_correctOptionId q) p)"
    by (simp add: p1)
  show "map_option score (map_of (players (snd (endQuestion cs ?s1))) sid) =
           Some (score p + 2 * answer_points cs s (find_correctOptionId q) p)"
    by (simp add: endQuestion_player[OF q1] p1 endQuestion_answer_points)
qed

lemma closeQuestion_timers:
  "deref sys r = Some g \<Longrightarrow> timers (fst (closeQuestion cs r sys)) = timers (clear_questionTimer g sys)"
  by (simp add: closeQuestion_def Let_def store_def split: prod.splits sum.splits)

lemma closeQuestion_handle:
  assumes "deref sys r = Some g"
  shows "\<exists>g'. deref (fst (closeQuestion cs r sys)) r = Some g' \<and> questionTimer g' = None"
proof (cases "question_at g")
  case None
  with assms show ?thesis by (simp add: closeQuestion_def endQuestion_None)
next
  case (Some q)
  with assms show ?thesis by (simp add: closeQuestion_def endQuestion_Some)
qed

lemma startNextQuestion_index [simp]:
  "currentQuestionIndex (snd (startNextQuestion now s)) = currentQuestionIndex s + 1"
  "totalQuestions (snd (startNextQuestion now s)) = totalQuestions s"
  using startNextQuestion_cases[of now s] by auto

lemma session_op_index: "session_op s s' \<Longrightarrow> currentQuestionIndex s \<le> currentQuestionIndex s'"
proof (induction rule: session_op.induct)
  case (op_addPlayer sid name s s')
  then show ?case by (auto dest: addPlayer_Inr)
next
  case (op_removePlayer s sid)
  then show ?case by (simp add: removePlayer_def)
next
  case (op_submitAnswer s now sid oid)
  with submitAnswer_cases[of now sid oid s] show ?case by auto
qed simp_all

lemma any_op_index: "any_op cs s s' \<Longrightarrow> currentQuestionIndex s \<le> currentQuestionIndex s'"
  unfolding any_op_def
proof (erule disjE)
  assume "session_op s s'" then show ?thesis by (rule session_op_index)
next
  assume "closing_op cs s s'"
  then show ?thesis
    by cases (cases "question_at s"; simp add: endQuestion_None endQuestion_Some)+
qed

lemma any_op_star_index: "(any_op cs)\<^sup>*\<^sup>* s s' \<Longrightarrow> currentQuestionIndex s \<le> currentQuestionIndex s'"
  by (induction rule: rtranclp_induct) (auto dest: any_op_index)

lemma GameSession_new_index: "GameSession_new db code qid admin = Inr g \<Longrightarrow> currentQuestionIndex g = - 1"
  by (auto simp: GameSession_new_def Let_def split: option.splits if_splits)

lemma index_lower_run: "deref (run cs es initial) r = Some g \<Longrightarrow> - 1 \<le> currentQuestionIndex g"
proof (induction es arbitrary: r g rule: rev_induct)
  case Nil
  then show ?case by (simp add: initial_def deref_def)
next
  case (snoc e es)
  from snoc.prems have "deref (fst (step cs e (run cs es initial))) r = Some g"
    by (simp add: run_snoc)
  from step_heap[OF this] show ?case
  proof
    assume "\<exists>s. deref (run cs es initial) r = Some s \<and> (any_op cs)\<^sup>*\<^sup>* s g"
    then obtain s where s: "deref (run cs es initial) r = Some s" "(any_op cs)\<^sup>*\<^sup>* s g" by blast
    from snoc.IH[OF s(1)] any_op_star_index[OF s(2)] show ?thesis by simp
  next
    assume "\<exists>sid token qid code db. e = CreateGame sid token qid code db \<and>
        r = nextObject (run cs es initial) \<and> GameSession_new db code qid sid = Inr g"
    then show ?thesis by (auto dest: GameSession_new_index)
  qed
qed

section \<open>The pending timers\<close>

lemma timers_okD:
  assumes "timers_ok sys" "(h, r) \<in> set (timers sys)"
  shows "h < nextTimer sys" "\<exists>g. deref sys r = Some g \<and> questionTimer g = Some h"
proof -
  from assms have "h < nextTimer sys \<and>
      (case deref sys r of None \<Rightarrow> False | Some g \<Rightarrow> questionTimer g = Some h)"
    unfolding timers_ok_def list_all_iff by fast
  then show "h < nextTimer sys" "\<exists>g. deref sys r = Some g \<and> questionTimer g = Some h"
    by (simp_all split: option.splits)
qed

lemma timers_ok_handle:
  "timers_ok sys \<Longrightarrow> (h, r) \<in> set (timers sys) \<Longrightarrow> deref sys r = Some g \<Longrightarrow> questionTimer g = Some h"
  using timers_okD(2)[of sys h r] by auto

lemma timers_ok_distinct: "timers_ok sys \<Longrightarrow> distinct (map fst (timers sys))"
  by (simp add: timers_ok_def)

lemma timers_okI:
  assumes "distinct (map fst (timers sys))"
    and "\<And>h r. (h, r) \<in> set (timers sys) \<Longrightarrow>
           h < nextTimer sys \<and> (\<exists>g. deref sys r = Some g \<and> questionTimer g = Some h)"
  shows "timers_ok sys"
  unfolding timers_ok_def list_all_iff
proof (intro conjI ballI)
  show "distinct (map fst (timers sys))" by fact
next
  fix x assume x: "x \<in> set (timers sys)"
  obtain h r where hr: "x = (h, r)" by (cases x)
  from assms(2)[of h r] x hr
  show "case x of (h, r) \<Rightarrow> h < nextTimer sys \<and>
          (case deref sys r of None \<Rightarrow> False | Some g \<Rightarrow> questionTimer g = Some h)"
    by auto
qed

lemma timers_ok_store:
  assumes ok: "timers_ok sys" and d: "deref sys r = Some g" and q: "questionTimer g' = questionTimer g"
  shows "timers_ok (store r g' sys)"
proof (rule timers_okI)
  show "distinct (map fst (timers (store r g' sys)))" using ok by (simp add: timers_ok_distinct)
next
  fix h r0 assume "(h, r0) \<in> set (timers (store r g' sys))"
  then have a: "(h, r0) \<in> set (timers sys)" by simp
  from timers_okD[OF ok a] obtain g0 where g0: "h < nextTimer sys" "deref sys r0 = Some g0"
    "questionTimer g0 = Some h" by blast
  show "h < nextTimer (store r g' sys) \<and>
        (\<exists>g. deref (store r g' sys) r0 = Some g \<and> questionTimer g = Some h)"
  proof (cases "r0 = r")
    case True
    with g0 d q show ?thesis by simp
  next
    case False
    with g0 show ?thesis by simp
  qed
qed

lemma timers_ok_store_clear:
  assumes ok: "timers_ok sys" and d: "deref sys r = Some g" and q: "questionTimer g' = None"
  shows "timers_ok (store r g' (clear_questionTimer g sys))"
proof -
  let ?sys1 = "clear_questionTimer g sys"
  have sub: "set (timers ?sys1) \<subseteq> set (timers sys)"
    using set_delete_subset by (fastforce simp: clear_questionTimer_def clearTimeout_def split: option.splits)
  have dist: "distinct (map fst (timers ?sys1))"
    using timers_ok_distinct[OF ok]
    by (auto simp: clear_questionTimer_def clearTimeout_def distinct_delete split: option.splits)
  have nor: "(h, r) \<notin> set (timers ?sys1)" for h
  proof
    assume a: "(h, r) \<in> set (timers ?sys1)"
    with sub have "(h, r) \<in> set (timers sys)" by auto
    with ok d have "questionTimer g = Some h" by (intro timers_ok_handle)
    then have "timers ?sys1 = AList.delete h (timers sys)"
      by (simp add: clear_questionTimer_def clearTimeout_def)
    with a show False by (auto simp: AList.delete_eq)
  qed
  show ?thesis
  proof (rule timers_okI)
    show "distinct (map fst (timers (store r g' ?sys1)))" using dist by simp
  next
    fix h r0 assume a: "(h, r0) \<in> set (timers (store r g' ?sys1))"
    then have in1: "(h, r0) \<in> set (timers ?sys1)" by simp
    with nor have ne: "r0 \<noteq> r" by auto
    from in1 sub have "(h, r0) \<in> set (timers sys)" by auto
    from timers_okD[OF ok this]
    have "h < nextTimer sys" "\<exists>g. deref sys r0 = Some g \<and> questionTimer g = Some h" by auto
    with ne show "h < nextTimer (store r g' ?sys1) \<and>
      (\<exists>g. deref (store r g' ?sys1) r0 = Some g \<and> questionTimer g = Some h)"
      by simp
  qed
qed

lemma timers_ok_closeQuestion:
  assumes ok: "timers_ok sys"
  shows "timers_ok (fst (closeQuestion cs r sys))"
proof (cases "deref sys r")
  case None
  with ok show ?thesis by (simp add: closeQuestion_def)
next
  case (Some g)
  show ?thesis
  proof (cases "question_at g")
    case None
    with Some timers_ok_store_clear[OF ok Some, of "g\<lparr> status := REVEAL, questionTimer := None \<rparr>"]
    show ?thesis by (simp add: closeQuestion_def endQuestion_None)
  next
    case (Some q)
    let ?g' = "(snd (endQuestion cs g))\<lparr> status := LEADERBOARD \<rparr>"
    have "questionTimer ?g' = None" by (simp add: endQuestion_Some[OF Some])
    from timers_ok_store_clear[OF ok \<open>deref sys r = Some g\<close> this] Some \<open>deref sys r = Some g\<close>
    show ?thesis by (simp add: closeQuestion_def endQuestion_Some)
  qed
qed

lemma timers_ok_cleanup: "timers_ok sys \<Longrightarrow> timers_ok (cleanup r sys)"
  by (cases "deref sys r") (simp_all add: cleanup_def timers_ok_store_clear)

lemma timers_ok_activeGames: "timers_ok (sys\<lparr> activeGames := ag \<rparr>) = timers_ok sys"
  by (simp add: timers_ok_def deref_def)

lemma timers_ok_removeGame: "timers_ok sys \<Longrightarrow> timers_ok (removeGame code sys)"
  by (simp add: removeGame_def Let_def timers_ok_activeGames timers_ok_cleanup split: option.splits)

lemma timers_ok_finishGame:
  "timers_ok sys \<Longrightarrow> deref sys r = Some g \<Longrightarrow> timers_ok (fst (finishGame r g sys))"
  by (simp add: finishGame_def timers_ok_removeGame timers_ok_store)

lemma timers_ok_setQuestionTimer:
  assumes ok: "timers_ok sys" and d: "deref sys r = Some g" and q: "questionTimer g = None"
  shows "timers_ok (setQuestionTimer r sys)"
proof -
  let ?n = "nextTimer sys"
  let ?sys' = "store r (g\<lparr> questionTimer := Some ?n \<rparr>)
                 (sys\<lparr> timers := timers sys @ [(?n, r)], nextTimer := ?n + 1 \<rparr>)"
  have eq: "setQuestionTimer r sys = ?sys'"
    using d by (simp add: setQuestionTimer_def setTimeout_def)
  have nor: "(h, r) \<notin> set (timers sys)" for h
    using timers_ok_handle[OF ok _ d, of h] q by auto
  have fresh: "?n \<notin> fst ` set (timers sys)"
    using timers_okD(1)[OF ok] by fastforce
  have dr: "deref ?sys' r0 = (if r0 = r then Some (g\<lparr> questionTimer := Some ?n \<rparr>) else deref sys r0)" for r0
    by (simp add: deref_def store_def update_conv')
  show ?thesis
    unfolding eq
  proof (rule timers_okI)
    show "distinct (map fst (timers ?sys'))" using timers_ok_distinct[OF ok] fresh by simp
  next
    fix h r0 assume "(h, r0) \<in> set (timers ?sys')"
    then have c: "(h, r0) = (?n, r) \<or> (h, r0) \<in> set (timers sys)" by auto
    then have 1: "h < nextTimer ?sys'"
    proof
      assume "(h, r0) = (?n, r)" then show ?thesis by simp
    next
      assume "(h, r0) \<in> set (timers sys)"
      from timers_okD(1)[OF ok this] show ?thesis by simp
    qed
    from c have 2: "\<exists>g. deref ?sys' r0 = Some g \<and> questionTimer g = Some h"
    proof
      assume "(h, r0) = (?n, r)" then show ?thesis by (simp add: dr)
    next
      assume a: "(h, r0) \<in> set (timers sys)"
      with nor have "r0 \<noteq> r" by auto
      with timers_okD(2)[OF ok a] show ?thesis by (auto simp: deref_def store_def update_conv')
    qed
    from 1 2 show "h < nextTimer ?sys' \<and> (\<exists>g. deref ?sys' r0 = Some g \<and> questionTimer g = Some h)" ..
  qed
qed

lemma startNextQuestion_questionTimer [simp]:
  "questionTimer (snd (startNextQuestion now s)) = questionTimer s"
  using startNextQuestion_cases[of now s] by auto

lemma submitAnswer_questionTimer [simp]:
  "questionTimer (snd (submitAnswer now sid oid s)) = questionTimer s"
  using submitAnswer_cases[of now sid oid s] by auto

lemma timers_ok_open_question:
  assumes ok: "timers_ok sys" and d: "deref sys r = Some g"
    and q: "opens now g \<longrightarrow> questionTimer g = None"
  shows "timers_ok
           (fst (let (res, s1) = startNextQuestion now g; sys1 = store r s1 sys
                 in case res of
                      Inl e \<Rightarrow> (sys1, [], Some e)
                    | Inr None \<Rightarrow> (sys1, m, None)
                    | Inr (Some questionData) \<Rightarrow> handleQuestion r questionData sys1))"
proof -
  obtain res s1 where st: "startNextQuestion now g = (res, s1)" by (cases "startNextQuestion now g")
  then have s1: "s1 = snd (startNextQuestion now g)" by simp
  then have q1: "questionTimer s1 = questionTimer g" by simp
  have 1: "timers_ok (store r s1 sys)" by (rule timers_ok_store[OF ok d q1])
  have d1: "deref (store r s1 sys) r = Some s1" by simp
  have 2: "timers_ok (fst (handleQuestion r qd (store r s1 sys)))" if "res = Inr (Some qd)" for qd
  proof -
    from that st have "opens now g" by (simp add: opens_def)
    with q q1 have "questionTimer s1 = None" by simp
    from timers_ok_setQuestionTimer[OF 1 d1 this] show ?thesis
      by (simp add: handleQuestion_def)
  qed
  from 1 2 show ?thesis by (simp add: st Let_def split: sum.splits option.splits)
qed

lemma timers_ok_create:
  assumes ok: "timers_ok sys" and fresh: "heap_fresh sys"
  shows "timers_ok (sys\<lparr> heap := AList.update (nextObject sys) g (heap sys),
               activeGames := ag, nextObject := nextObject sys + 1 \<rparr>)"
    (is "timers_ok ?sys'")
proof (rule timers_okI)
  show "distinct (map fst (timers ?sys'))" using timers_ok_distinct[OF ok] by simp
next
  fix h r assume "(h, r) \<in> set (timers ?sys')"
  then have a: "(h, r) \<in> set (timers sys)" by simp
  from timers_okD[OF ok a] obtain g0 where g0: "h < nextTimer sys" "deref sys r = Some g0"
    "questionTimer g0 = Some h" by blast
  from g0(2) fresh have "r \<noteq> nextObject sys" by (auto simp: heap_fresh_iff)
  then have "deref ?sys' r = deref sys r" by (simp add: deref_def update_conv')
  with g0 show "h < nextTimer ?sys' \<and> (\<exists>g. deref ?sys' r = Some g \<and> questionTimer g = Some h)"
    by simp
qed

lemma timers_ok_step:
  assumes ok: "timers_ok sys" and fresh: "heap_fresh sys" and guard: "\<not> arms_over_pending e sys"
  shows "timers_ok (fst (step cs e sys))"
proof (cases e)
  case (CreateGame sid token qid code db)
  from create_game_cases[of db code sid token qid sys] ok timers_ok_create[OF ok fresh]
  show ?thesis unfolding CreateGame by auto
next
  case (JoinGame sid code name)
  show ?thesis
  proof (cases "getGame (toUpperCase code) sys")
    case None
    with ok JoinGame show ?thesis by (simp add: join_game_def)
  next
    case (Some a)
    obtain r g where a: "a = (r, g)" by (cases a)
    from Some a have d: "deref sys r = Some g" by (simp add: getGame_Some)
    show ?thesis
    proof (cases "addPlayer sid name g")
      case (Inl err)
      with ok JoinGame Some a show ?thesis by (simp add: join_game_def)
    next
      case (Inr g')
      from addPlayer_Inr[OF Inr] have "questionTimer g' = questionTimer g" by auto
      from timers_ok_store[OF ok d this] JoinGame Some a Inr show ?thesis
        by (simp add: join_game_def)
    qed
  qed
next
  case (StartGame sid now)
  show ?thesis
  proof (cases "getGameByAdminSocket sid sys")
    case None
    with ok StartGame show ?thesis by (simp add: start_game_def)
  next
    case (Some a)
    obtain r g where a: "a = (r, g)" by (cases a)
    from Some a have d: "deref sys r = Some g" by (simp add: getGameByAdminSocket_Some)
    show ?thesis
    proof (cases "length (players g) = 0")
      case True
      with ok StartGame Some a show ?thesis by (simp add: start_game_def)
    next
      case False
      with guard StartGame Some a have q: "opens now g \<longrightarrow> questionTimer g = None" by simp
      from timers_ok_open_question[OF ok d q] False StartGame Some a show ?thesis
        by (simp add: start_game_def)
    qed
  qed
next
  case (SubmitAnswer sid oid now)
  show ?thesis
  proof (cases "getGameByPlayerSocket sid sys")
    case None
    with ok SubmitAnswer show ?thesis by (simp add: submit_answer_def)
  next
    case (Some a)
    obtain r g where a: "a = (r, g)" by (cases a)
    from Some a have d: "deref sys r = Some g" by (simp add: getGameByPlayerSocket_Some)
    let ?s1 = "snd (submitAnswer now sid oid g)"
    have 1: "timers_ok (store r ?s1 sys)" by (rule timers_ok_store[OF ok d]) simp
    from timers_ok_closeQuestion[OF 1] have 2: "timers_ok (fst (closeQuestion cs r (store r ?s1 sys)))" .
    from 1 2 SubmitAnswer Some a show ?thesis
      by (cases "submitAnswer now sid oid g") (auto simp: submit_answer_def Let_def)
  qed
next
  case (NextQuestion sid now)
  show ?thesis
  proof (cases "getGameByAdminSocket sid sys")
    case None
    with ok NextQuestion show ?thesis by (simp add: next_question_def)
  next
    case (Some a)
    obtain r g where a: "a = (r, g)" by (cases a)
    from Some a have d: "deref sys r = Some g" by (simp add: getGameByAdminSocket_Some)
    show ?thesis
    proof (cases "isLastQuestion g")
      case True
      with timers_ok_finishGame[OF ok d] NextQuestion Some a show ?thesis
        by (simp add: next_question_def)
    next
      case False
      with guard NextQuestion Some a have q: "opens now g \<longrightarrow> questionTimer g = None" by simp
      from timers_ok_open_question[OF ok d q] False NextQuestion Some a show ?thesis
        by (simp add: next_question_def)
    qed
  qed
next
  case (EndGame sid)
  show ?thesis
  proof (cases "getGameByAdminSocket sid sys")
    case None
    with ok EndGame show ?thesis by (simp add: end_game_def)
  next
    case (Some a)
    obtain r g where a: "a = (r, g)" by (cases a)
    from Some a have d: "deref sys r = Some g" by (simp add: getGameByAdminSocket_Some)
    from timers_ok_finishGame[OF ok d] EndGame Some a show ?thesis by (simp add: end_game_def)
  qed
next
  case (Disconnect sid)
  show ?thesis
  proof (cases "getGameByAdminSocket sid sys")
    case (Some a)
    obtain r g where a: "a = (r, g)" by (cases a)
    from Some a have d: "deref sys r = Some g" by (simp add: getGameByAdminSocket_Some)
    from timers_ok_finishGame[OF ok d] Disconnect Some a show ?thesis by (simp add: disconnect_def)
  next
    case None
    show ?thesis
    proof (cases "getGameByPlayerSocket sid sys")
      case None
      with ok Disconnect \<open>getGameByAdminSocket sid sys = None\<close> show ?thesis
        by (simp add: disconnect_def)
    next
      case (Some a)
      obtain r g where a: "a = (r, g)" by (cases a)
      from Some a have d: "deref sys r = Some g" by (simp add: getGameByPlayerSocket_Some)
      have "timers_ok (store r (removePlayer sid g) sys)"
        by (rule timers_ok_store[OF ok d]) (simp add: removePlayer_def)
      with Disconnect Some a \<open>getGameByAdminSocket sid sys = None\<close> show ?thesis
        by (simp add: disconnect_def Let_def)
    qed
  qed
next
  case (TimerFires h)
  show ?thesis
  proof (cases "map_of (timers sys) h")
    case None
    with ok TimerFires show ?thesis by (simp add: timer_fires_def)
  next
    case (Some r)
    have "timers_ok (sys\<lparr> timers := AList.delete h (timers sys) \<rparr>)"
    proof (rule timers_okI)
      show "distinct (map fst (timers (sys\<lparr> timers := AList.delete h (timers sys) \<rparr>)))"
        using timers_ok_distinct[OF ok] by (simp add: distinct_delete)
    next
      fix h0 r0 assume "(h0, r0) \<in> set (timers (sys\<lparr> timers := AList.delete h (timers sys) \<rparr>))"
      with set_delete_subset[of h "timers sys"] have "(h0, r0) \<in> set (timers sys)" by auto
      from timers_okD[OF ok this]
      show "h0 < nextTimer (sys\<lparr> timers := AList.delete h (timers sys) \<rparr>) \<and>
        (\<exists>g. deref (sys\<lparr> timers := AList.delete h (timers sys) \<rparr>) r0 = Some g \<and>
             questionTimer g = Some h0)"
        by (simp add: deref_def)
    qed
    from timers_ok_closeQuestion[OF this] TimerFires Some show ?thesis
      by (simp add: timer_fires_def)
  qed
qed

lemma timers_ok_one:
  assumes "timers_ok sys" "(h1, r) \<in> set (timers sys)" "(h2, r) \<in> set (timers sys)"
  shows "h1 = h2"
  using timers_okD(2)[OF assms(1,2)] timers_okD(2)[OF assms(1,3)] by auto

lemma timers_ok_none:
  assumes "timers_ok sys" "deref sys r = Some g" "questionTimer g = None"
  shows "(h, r) \<notin> set (timers sys)"
  using timers_ok_handle[OF assms(1) _ assms(2), of h] assms(3) by auto

lemma setQuestionTimer_arms:
  assumes "deref sys r = Some g"
  shows "timers (setQuestionTimer r sys) = timers sys @ [(nextTimer sys, r)]"
    and "nextTimer (setQuestionTimer r sys) = nextTimer sys + 1"
    and "deref (setQuestionTimer r sys) r = Some (g\<lparr> questionTimer := Some (nextTimer sys) \<rparr>)"
  using assms by (simp_all add: setQuestionTimer_def setTimeout_def)

lemma handleQuestion_arms:
  assumes "deref sys r = Some g"
  shows "handleQuestion r qd sys =
           (setQuestionTimer r sys, [(ToRoom (gameCode g), question_start qd)], None)"
  using assms by (simp add: handleQuestion_def)

lemma endQuestion_gameCode [simp]: "gameCode (snd (endQuestion cs g)) = gameCode g"
  by (cases "question_at g") (simp_all add: endQuestion_None endQuestion_Some)

lemma timer_fires_runs_closing:
  assumes h: "map_of (timers sys) h = Some r" and d: "deref sys r = Some g"
  shows "fst (endQuestion cs g) = Inr res \<Longrightarrow>
           timer_fires cs h sys =
             (store r ((snd (endQuestion cs g))\<lparr> status := LEADERBOARD \<rparr>)
                (clear_questionTimer g (sys\<lparr> timers := AList.delete h (timers sys) \<rparr>)),
              [(ToRoom (gameCode g), question_end res), (ToRoom (gameCode g), leaderboard_update)],
              None)"
    and "fst (endQuestion cs g) = Inl err \<Longrightarrow>
           timer_fires cs h sys =
             (store r (snd (endQuestion cs g))
                (clear_questionTimer g (sys\<lparr> timers := AList.delete h (timers sys) \<rparr>)),
              [], Some err)"
proof -
  have d': "deref (sys\<lparr> timers := AList.delete h (timers sys) \<rparr>) r = Some g"
    using d by (simp add: deref_def)
  show "fst (endQuestion cs g) = Inr res \<Longrightarrow>
           timer_fires cs h sys =
             (store r ((snd (endQuestion cs g))\<lparr> status := LEADERBOARD \<rparr>)
                (clear_questionTimer g (sys\<lparr> timers := AList.delete h (timers sys) \<rparr>)),
              [(ToRoom (gameCode g), question_end res), (ToRoom (gameCode g), leaderboard_update)],
              None)"
    using h d' endQuestion_gameCode[of cs g]
    by (cases "endQuestion cs g") (simp add: timer_fires_def closeQuestion_def Let_def)
  show "fst (endQuestion cs g) = Inl err \<Longrightarrow>
           timer_fires cs h sys =
             (store r (snd (endQuestion cs g))
                (clear_questionTimer g (sys\<lparr> timers := AList.delete h (timers sys) \<rparr>)),
              [], Some err)"
    using h d' endQuestion_gameCode[of cs g]
    by (cases "endQuestion cs g") (simp add: timer_fires_def closeQuestion_def Let_def)
qed

section \<open>Properties of the specification\<close>

text \<open>
  C6, as stated, fails. The handler passes the client's option id on unchecked, and
  \<^verbatim>\<open>null\<close> is the code's own "unanswered": a submission with a \<^verbatim>\<open>null\<close> option id is
  accepted and leaves the player unanswered, so the same player's next submission for the
  same question is accepted too and writes the answer and the timestamp.
\<close>

theorem null_answer_then_second_answer:
  "map_option currentAnswer (map_of (players demo_session) ''p2'') = Some None
   \<and> fst (submitAnswer 5000 ''p2'' None demo_session)
   \<and> map_of (players (snd (submitAnswer 5000 ''p2'' None demo_session))) ''p2'' =
       Some \<lparr> player_id = ''p2'', username = ''Bob'', score = 0,
              currentAnswer = None, answerTimestamp = Some 5000 \<rparr>
   \<and> fst (submitAnswer 6000 ''p2'' (Some 1) (snd (submitAnswer 5000 ''p2'' None demo_session)))
   \<and> map_of (players (snd (submitAnswer 6000 ''p2'' (Some 1)
         (snd (submitAnswer 5000 ''p2'' None demo_session))))) ''p2'' =
       Some \<lparr> player_id = ''p2'', username = ''Bob'', score = 0,
              currentAnswer = Some 1, answerTimestamp = Some 6000 \<rparr>
   \<and> score_of (run calculateScore_spec
        [SubmitAnswer ''p2'' None 5000, SubmitAnswer ''p2'' (Some 2) 6000] demo_open) 0 ''p2''
       = Some 775"
  by code_simp

text \<open>
  C6, amended. \<^verbatim>\<open>submitAnswer(identity, optionId)\<close> is accepted if and only if the
  status is \<open>QUESTION\<close>, the identity is on the roster and that player has no recorded
  answer. When accepted, it records the payload as the player's answer, and the
  timestamp, and changes nothing else; otherwise it returns "not accepted" and the session
  is unchanged. After an accepted submission whose option id is a number, every further
  call by the same player for the same question, whatever its payload, is not accepted and
  changes neither the recorded answer nor any score; and no call is accepted once the
  status is no longer \<open>QUESTION\<close>.
\<close>

theorem submitAnswer_once:
  "(fst (submitAnswer now sid oid s) \<longleftrightarrow>
      status s = QUESTION \<and> (\<exists>p. map_of (players s) sid = Some p \<and> currentAnswer p = None))
   \<and> (fst (submitAnswer now sid oid s) \<longrightarrow>
        (\<exists>p. map_of (players s) sid = Some p \<and>
             snd (submitAnswer now sid oid s) =
               s\<lparr> players := AList.update sid
                     (p\<lparr> currentAnswer := oid, answerTimestamp := Some now \<rparr>) (players s) \<rparr> \<and>
             map_of (players (snd (submitAnswer now sid oid s))) sid =
               Some (p\<lparr> currentAnswer := oid, answerTimestamp := Some now \<rparr>)))
   \<and> (\<not> fst (submitAnswer now sid oid s) \<longrightarrow> snd (submitAnswer now sid oid s) = s)
   \<and> (fst (submitAnswer now sid (Some n) s) \<longrightarrow>
        submitAnswer now2 sid oid2 (snd (submitAnswer now sid (Some n) s)) =
          (False, snd (submitAnswer now sid (Some n) s)))
   \<and> (status s \<noteq> QUESTION \<longrightarrow> submitAnswer now sid oid s = (False, s))"
proof (intro conjI impI)
  show "fst (submitAnswer now sid oid s) \<longleftrightarrow>
      status s = QUESTION \<and> (\<exists>p. map_of (players s) sid = Some p \<and> currentAnswer p = None)"
    by (rule submitAnswer_accepted_iff)
next
  assume a: "fst (submitAnswer now sid oid s)"
  from submitAnswer_accepted[OF a] obtain p where
    p: "map_of (players s) sid = Some p" "currentAnswer p = None"
      "snd (submitAnswer now sid oid s) =
        s\<lparr> players := AList.update sid
              (p\<lparr> currentAnswer := oid, answerTimestamp := Some now \<rparr>) (players s) \<rparr>"
    by blast
  show "\<exists>p. map_of (players s) sid = Some p \<and>
             snd (submitAnswer now sid oid s) =
               s\<lparr> players := AList.update sid
                     (p\<lparr> currentAnswer := oid, answerTimestamp := Some now \<rparr>) (players s) \<rparr> \<and>
             map_of (players (snd (submitAnswer now sid oid s))) sid =
               Some (p\<lparr> currentAnswer := oid, answerTimestamp := Some now \<rparr>)"
    using p by (intro exI[of _ p]) (simp add: update_conv')
next
  assume a: "fst (submitAnswer now sid (Some n) s)"
  from submitAnswer_accepted[OF a] obtain p where
    p: "map_of (players s) sid = Some p"
      "snd (submitAnswer now sid (Some n) s) =
        s\<lparr> players := AList.update sid
              (p\<lparr> currentAnswer := Some n, answerTimestamp := Some now \<rparr>) (players s) \<rparr>"
    by blast
  have "\<not> fst (submitAnswer now2 sid oid2 (snd (submitAnswer now sid (Some n) s)))"
    unfolding submitAnswer_accepted_iff using p by (simp add: update_conv')
  then show "submitAnswer now2 sid oid2 (snd (submitAnswer now sid (Some n) s)) =
          (False, snd (submitAnswer now sid (Some n) s))"
    using submitAnswer_rejected[of now2 sid oid2 "snd (submitAnswer now sid (Some n) s)"]
    by (metis prod.collapse)
next
  assume "\<not> fst (submitAnswer now sid oid s)"
  then show "snd (submitAnswer now sid oid s) = s" by (rule submitAnswer_rejected)
next
  assume "status s \<noteq> QUESTION"
  then show "submitAnswer now sid oid s = (False, s)" by (simp add: submitAnswer_def)
qed

theorem submitAnswer_once_witness:
  "fst (submitAnswer 5000 ''p2'' (Some 1) demo_session)
   \<and> map_of (players (snd (submitAnswer 5000 ''p2'' (Some 1) demo_session))) ''p2'' =
       Some \<lparr> player_id = ''p2'', username = ''Bob'', score = 0,
              currentAnswer = Some 1, answerTimestamp = Some 5000 \<rparr>
   \<and> submitAnswer 6000 ''p2'' (Some 2) (snd (submitAnswer 5000 ''p2'' (Some 1) demo_session)) =
       (False, snd (submitAnswer 5000 ''p2'' (Some 1) demo_session))
   \<and> submitAnswer 6000 ''p2'' None (snd (submitAnswer 5000 ''p2'' (Some 1) demo_session)) =
       (False, snd (submitAnswer 5000 ''p2'' (Some 1) demo_session))
   \<and> \<not> fst (submitAnswer 5000 ''p1'' (Some 1) demo_session)
   \<and> snd (submitAnswer 5000 ''p1'' (Some 1) demo_session) = demo_session
   \<and> status (demo_session\<lparr> status := LEADERBOARD \<rparr>) \<noteq> QUESTION
   \<and> submitAnswer 5000 ''p2'' (Some 1) (demo_session\<lparr> status := LEADERBOARD \<rparr>) =
       (False, demo_session\<lparr> status := LEADERBOARD \<rparr>)"
proof -
  let ?bob = "\<lparr> player_id = ''p2'', username = ''Bob'', score = 0,
                 currentAnswer = None, answerTimestamp = None \<rparr>"
  have a: "fst (submitAnswer 5000 ''p2'' (Some 1) demo_session)" by code_simp
  have b: "\<not> fst (submitAnswer 5000 ''p1'' (Some 1) demo_session)" by code_simp
  have c: "status (demo_session\<lparr> status := LEADERBOARD \<rparr>) \<noteq> QUESTION" by simp
  have bob: "map_of (players demo_session) ''p2'' = Some ?bob" by code_simp
  note t1 = submitAnswer_once[of 5000 "''p2''" "Some 1" demo_session 1 6000 "Some 2"]
  note t1n = submitAnswer_once[of 5000 "''p2''" "Some 1" demo_session 1 6000 None]
  note t2 = submitAnswer_once[of 5000 "''p1''" "Some 1" demo_session 1 6000 "Some 2"]
  note t3 = submitAnswer_once[of 5000 "''p2''" "Some 1" "demo_session\<lparr> status := LEADERBOARD \<rparr>"
      1 6000 "Some 2"]
  from t1 a obtain p where p: "map_of (players demo_session) ''p2'' = Some p"
    "map_of (players (snd (submitAnswer 5000 ''p2'' (Some 1) demo_session))) ''p2'' =
       Some (p\<lparr> currentAnswer := Some 1, answerTimestamp := Some 5000 \<rparr>)" by blast
  with bob have m: "map_of (players (snd (submitAnswer 5000 ''p2'' (Some 1) demo_session))) ''p2'' =
       Some \<lparr> player_id = ''p2'', username = ''Bob'', score = 0,
              currentAnswer = Some 1, answerTimestamp = Some 5000 \<rparr>" by simp
  from t1 a have r1: "submitAnswer 6000 ''p2'' (Some 2) (snd (submitAnswer 5000 ''p2'' (Some 1) demo_session)) =
       (False, snd (submitAnswer 5000 ''p2'' (Some 1) demo_session))" by blast
  from t1n a have r1n: "submitAnswer 6000 ''p2'' None (snd (submitAnswer 5000 ''p2'' (Some 1) demo_session)) =
       (False, snd (submitAnswer 5000 ''p2'' (Some 1) demo_session))" by blast
  from t2 b have r2: "snd (submitAnswer 5000 ''p1'' (Some 1) demo_session) = demo_session" by blast
  from t3 c have r3: "submitAnswer 5000 ''p2'' (Some 1) (demo_session\<lparr> status := LEADERBOARD \<rparr>) =
       (False, demo_session\<lparr> status := LEADERBOARD \<rparr>)" by blast
  from a m r1 r1n b r2 c r3 show ?thesis by (intro conjI)
qed

text \<open>
  C9. \<^verbatim>\<open>submitAnswer\<close> records whatever integer it is given: acceptance depends on the
  status and on the player only, never on the option id. \<^verbatim>\<open>endQuestion\<close> returns a
  result also when the current question has no option flagged correct: the correct
  option id is then \<open>-1\<close>, and a player whose recorded answer is \<open>-1\<close> is marked correct
  and gets the points of the scoring function for the elapsed time.
\<close>

theorem no_correct_option:
  "(status s = QUESTION \<and> map_of (players s) sid = Some p \<and> currentAnswer p = None \<longrightarrow>
      fst (submitAnswer now sid (Some oid) s) \<and>
      map_of (players (snd (submitAnswer now sid (Some oid) s))) sid =
        Some (p\<lparr> currentAnswer := Some oid, answerTimestamp := Some now \<rparr>))
   \<and> (question_at s = Some q \<and> find is_correct (options q) = None \<longrightarrow>
        (\<exists>res. fst (endQuestion cs s) = Inr res \<and> correctOptionId res = - 1 \<and>
           (\<forall>p. map_of (players s) sid = Some p \<and> currentAnswer p = Some (- 1) \<longrightarrow>
                (username p, True, answer_points cs s (- 1) p) \<in> set (playerResults res) \<and>
                map_of (players (snd (endQuestion cs s))) sid =
                  Some (p\<lparr> score := score p + answer_points cs s (- 1) p \<rparr>) \<and>
                (\<forall>t t0. answerTimestamp p = Some t \<and> questionStartTime s = Some t0 \<and> t \<noteq> 0 \<and> t0 \<noteq> 0 \<longrightarrow>
                    answer_points cs s (- 1) p = cs (of_int (t - t0) / 1000) (timerSeconds s)))))"
proof (intro conjI impI)
  assume a: "status s = QUESTION \<and> map_of (players s) sid = Some p \<and> currentAnswer p = None"
  then show "fst (submitAnswer now sid (Some oid) s)" by (simp add: submitAnswer_def)
  from a show "map_of (players (snd (submitAnswer now sid (Some oid) s))) sid =
        Some (p\<lparr> currentAnswer := Some oid, answerTimestamp := Some now \<rparr>)"
    by (simp add: submitAnswer_def update_conv')
next
  assume a: "question_at s = Some q \<and> find is_correct (options q) = None"
  then have q: "question_at s = Some q" and cid: "find_correctOptionId q = - 1"
    by (simp_all add: find_correctOptionId_def)
  let ?res = "\<lparr> correctOptionId = - 1,
            playerResults = map (\<lambda>(k, p). (username p, answer_correct (- 1) p,
                                            answer_points cs s (- 1) p)) (players s) \<rparr>"
  have r: "fst (endQuestion cs s) = Inr ?res"
    by (simp add: endQuestion_Some[OF q] cid)
  have "\<forall>p. map_of (players s) sid = Some p \<and> currentAnswer p = Some (- 1) \<longrightarrow>
                (username p, True, answer_points cs s (- 1) p) \<in> set (playerResults ?res) \<and>
                map_of (players (snd (endQuestion cs s))) sid =
                  Some (p\<lparr> score := score p + answer_points cs s (- 1) p \<rparr>) \<and>
                (\<forall>t t0. answerTimestamp p = Some t \<and> questionStartTime s = Some t0 \<and> t \<noteq> 0 \<and> t0 \<noteq> 0 \<longrightarrow>
                    answer_points cs s (- 1) p = cs (of_int (t - t0) / 1000) (timerSeconds s))"
  proof (intro allI impI conjI)
    fix p assume p: "map_of (players s) sid = Some p \<and> currentAnswer p = Some (- 1)"
    then have "(sid, p) \<in> set (players s)" by (simp add: map_of_SomeD)
    then have "(\<lambda>(k, p). (username p, answer_correct (- 1) p, answer_points cs s (- 1) p)) (sid, p)
                 \<in> set (playerResults ?res)"
      unfolding QuestionEnd.simps set_map by (rule imageI)
    with p show "(username p, True, answer_points cs s (- 1) p) \<in> set (playerResults ?res)"
      by (simp add: answer_correct_def)
    from p show "map_of (players (snd (endQuestion cs s))) sid =
                  Some (p\<lparr> score := score p + answer_points cs s (- 1) p \<rparr>)"
      by (simp add: endQuestion_player[OF q] cid)
    fix t t0 assume "answerTimestamp p = Some t \<and> questionStartTime s = Some t0 \<and> t \<noteq> 0 \<and> t0 \<noteq> 0"
    with p show "answer_points cs s (- 1) p = cs (of_int (t - t0) / 1000) (timerSeconds s)"
      by (simp add: answer_points_correct)
  qed
  with r show "\<exists>res. fst (endQuestion cs s) = Inr res \<and> correctOptionId res = - 1 \<and>
           (\<forall>p. map_of (players s) sid = Some p \<and> currentAnswer p = Some (- 1) \<longrightarrow>
                (username p, True, answer_points cs s (- 1) p) \<in> set (playerResults res) \<and>
                map_of (players (snd (endQuestion cs s))) sid =
                  Some (p\<lparr> score := score p + answer_points cs s (- 1) p \<rparr>) \<and>
                (\<forall>t t0. answerTimestamp p = Some t \<and> questionStartTime s = Some t0 \<and> t \<noteq> 0 \<and> t0 \<noteq> 0 \<longrightarrow>
                    answer_points cs s (- 1) p = cs (of_int (t - t0) / 1000) (timerSeconds s)))"
    by (intro exI[of _ ?res]) simp
qed

theorem no_correct_option_witness:
  "status demo_session_nocorrect = QUESTION
   \<and> fst (submitAnswer 5000 ''p2'' (Some 77) demo_session_nocorrect)
   \<and> map_of (players (snd (submitAnswer 5000 ''p2'' (Some 77) demo_session_nocorrect))) ''p2'' =
       Some \<lparr> player_id = ''p2'', username = ''Bob'', score = 0,
              currentAnswer = Some 77, answerTimestamp = Some 5000 \<rparr>
   \<and> (\<exists>q. question_at demo_session_nocorrect = Some q \<and> find is_correct (options q) = None)
   \<and> (\<exists>res. fst (endQuestion calculateScore_spec demo_session_nocorrect) = Inr res \<and>
          correctOptionId res = - 1 \<and> (''Alice'', True, 910) \<in> set (playerResults res))
   \<and> map_of (players (snd (endQuestion calculateScore_spec demo_session_nocorrect))) ''p1'' =
       Some \<lparr> player_id = ''p1'', username = ''Alice'', score = 910,
              currentAnswer = Some (- 1), answerTimestamp = Some 3000 \<rparr>"
proof -
  let ?s = demo_session_nocorrect
  let ?bob = "\<lparr> player_id = ''p2'', username = ''Bob'', score = 0,
                 currentAnswer = None, answerTimestamp = None \<rparr>"
  let ?alice = "\<lparr> player_id = ''p1'', username = ''Alice'', score = 0,
                   currentAnswer = Some (- 1), answerTimestamp = Some 3000 \<rparr>"
  let ?q = "Question.extend \<lparr> question_id = 12, question_text = ''third'' \<rparr>
              (QuestionWithOptions.fields
                 [\<lparr> option_id = 5, option_text = ''e'', is_correct = False \<rparr>])"
  have st: "status ?s = QUESTION" by code_simp
  have bob: "map_of (players ?s) ''p2'' = Some ?bob" by code_simp
  have alice: "map_of (players ?s) ''p1'' = Some ?alice" by code_simp
  have q: "question_at ?s = Some ?q" by code_simp
  have nf: "find is_correct (options ?q) = None" by code_simp
  have pts: "answer_points calculateScore_spec ?s (- 1) ?alice = 910" by code_simp
  note sub = no_correct_option[of ?s "''p2''" ?bob 5000 77 ?q calculateScore_spec]
  note fin = no_correct_option[of ?s "''p1''" ?alice 5000 77 ?q calculateScore_spec]
  from sub st bob have s1: "fst (submitAnswer 5000 ''p2'' (Some 77) ?s)"
    and s2: "map_of (players (snd (submitAnswer 5000 ''p2'' (Some 77) ?s))) ''p2'' =
               Some (?bob\<lparr> currentAnswer := Some 77, answerTimestamp := Some 5000 \<rparr>)"
    by simp_all
  from fin q nf obtain res where
    res: "fst (endQuestion calculateScore_spec ?s) = Inr res" "correctOptionId res = - 1"
      "\<forall>p. map_of (players ?s) ''p1'' = Some p \<and> currentAnswer p = Some (- 1) \<longrightarrow>
          (username p, True, answer_points calculateScore_spec ?s (- 1) p) \<in> set (playerResults res) \<and>
          map_of (players (snd (endQuestion calculateScore_spec ?s))) ''p1'' =
            Some (p\<lparr> score := score p + answer_points calculateScore_spec ?s (- 1) p \<rparr>)"
    by blast
  from res(3) alice pts have e1: "(''Alice'', True, 910) \<in> set (playerResults res)"
    and e2: "map_of (players (snd (endQuestion calculateScore_spec ?s))) ''p1'' =
               Some (?alice\<lparr> score := 910 \<rparr>)"
    by auto
  from st s1 s2 q nf res(1,2) e1 e2 show ?thesis by auto
qed

text \<open>
  C7. The constructor fails exactly when the quiz is not found or has no question. Then
  \<^verbatim>\<open>createGame\<close> throws before it touches the registry, and the \<^verbatim>\<open>create_game\<close>
  handler leaves the whole state (registry, sessions, rosters, timers) as it was. When
  the constructor succeeds, the new session is stored under its code.
\<close>

theorem construction_failure:
  "(isl (GameSession_new db code qid admin) \<longleftrightarrow>
      select_quiz db qid = None \<or> select_questions db qid = [])
   \<and> (isl (GameSession_new db code qid admin) \<longrightarrow>
        isl (fst (createGame db code qid admin sys)) \<and>
        snd (createGame db code qid admin sys) = sys \<and>
        fst (step cs (CreateGame admin token qid code db) sys) = sys)
   \<and> (\<not> isl (GameSession_new db code qid admin) \<longrightarrow>
        fst (createGame db code qid admin sys) = Inr (nextObject sys) \<and>
        map_of (activeGames (snd (createGame db code qid admin sys))) code = Some (nextObject sys) \<and>
        map_of (heap (snd (createGame db code qid admin sys))) (nextObject sys) =
          Some (projr (GameSession_new db code qid admin)))"
proof (intro conjI impI)
  show "isl (GameSession_new db code qid admin) \<longleftrightarrow>
      select_quiz db qid = None \<or> select_questions db qid = []"
    by (rule GameSession_new_fails_iff)
next
  assume a: "isl (GameSession_new db code qid admin)"
  then obtain e where e: "GameSession_new db code qid admin = Inl e" by (auto simp: isl_def)
  show "isl (fst (createGame db code qid admin sys))" by (simp add: createGame_fail[OF e])
  show "snd (createGame db code qid admin sys) = sys" by (simp add: createGame_fail[OF e])
  show "fst (step cs (CreateGame admin token qid code db) sys) = sys"
    using create_game_fail[OF a] by simp
next
  assume a: "\<not> isl (GameSession_new db code qid admin)"
  then obtain g where g: "GameSession_new db code qid admin = Inr g"
    by (cases "GameSession_new db code qid admin") auto
  show "fst (createGame db code qid admin sys) = Inr (nextObject sys)"
    by (simp add: createGame_ok[OF g])
  show "map_of (activeGames (snd (createGame db code qid admin sys))) code = Some (nextObject sys)"
    by (simp add: createGame_ok[OF g] update_conv')
  show "map_of (heap (snd (createGame db code qid admin sys))) (nextObject sys) =
          Some (projr (GameSession_new db code qid admin))"
    by (simp add: createGame_ok[OF g] update_conv' g)
qed

theorem construction_failure_witness:
  "isl (GameSession_new demo_db ''ABCD'' 3 ''adm'')
   \<and> select_quiz demo_db 3 = None
   \<and> fst (step calculateScore_spec (CreateGame ''adm'' ValidToken 3 ''ABCD'' demo_db) initial) = initial
   \<and> isl (GameSession_new demo_db ''ABCD'' 2 ''adm'')
   \<and> select_questions demo_db 2 = []
   \<and> snd (createGame demo_db ''ABCD'' 2 ''adm'' initial) = initial
   \<and> \<not> isl (GameSession_new demo_db ''ABCD'' 1 ''adm'')
   \<and> map_of (activeGames (snd (createGame demo_db ''ABCD'' 1 ''adm'' initial))) ''ABCD'' = Some 0"
proof -
  have a3: "isl (GameSession_new demo_db ''ABCD'' 3 ''adm'')" by code_simp
  have q3: "select_quiz demo_db 3 = None" by (simp add: demo_db_def)
  have a2: "isl (GameSession_new demo_db ''ABCD'' 2 ''adm'')" by code_simp
  have q2: "select_questions demo_db 2 = []" by (simp add: demo_db_def)
  have a1: "\<not> isl (GameSession_new demo_db ''ABCD'' 1 ''adm'')" by code_simp
  have n0: "nextObject initial = 0" by (simp add: initial_def)
  note t3 = construction_failure[of demo_db "''ABCD''" 3 "''adm''" initial calculateScore_spec ValidToken]
  note t2 = construction_failure[of demo_db "''ABCD''" 2 "''adm''" initial calculateScore_spec ValidToken]
  note t1 = construction_failure[of demo_db "''ABCD''" 1 "''adm''" initial calculateScore_spec ValidToken]
  from t3 a3 have r3:
    "fst (step calculateScore_spec (CreateGame ''adm'' ValidToken 3 ''ABCD'' demo_db) initial) = initial"
    by blast
  from t2 a2 have r2: "snd (createGame demo_db ''ABCD'' 2 ''adm'' initial) = initial" by blast
  from t1 a1 n0
  have r1: "map_of (activeGames (snd (createGame demo_db ''ABCD'' 1 ''adm'' initial))) ''ABCD'' = Some 0"
    by simp
  from a3 q3 r3 a2 q2 r2 a1 r1 show ?thesis by blast
qed

text \<open>
  C3, as stated, fails: \<^verbatim>\<open>createGame\<close> does not retry. When the generator returns a code
  that an active session holds, the new session replaces that session's entry, and the
  first admin's session is no longer in the registry.
\<close>

theorem createGame_overwrites:
  "map_option fst (getGameByAdminSocket ''adm1''
      (run calculateScore_spec [CreateGame ''adm1'' ValidToken 1 ''ABCD'' demo_db] initial)) = Some 0
   \<and> getGameByAdminSocket ''adm1''
      (run calculateScore_spec [CreateGame ''adm1'' ValidToken 1 ''ABCD'' demo_db,
                                CreateGame ''adm2'' ValidToken 1 ''ABCD'' demo_db] initial) = None
   \<and> activeGames
      (run calculateScore_spec [CreateGame ''adm1'' ValidToken 1 ''ABCD'' demo_db,
                                CreateGame ''adm2'' ValidToken 1 ''ABCD'' demo_db] initial) = [(''ABCD'', 1)]"
  by code_simp

text \<open>
  C3, amended. \<^verbatim>\<open>createGame\<close> takes the code of a single call of the generator and
  stores the new session under it without consulting the registry: the entries under
  every other code are kept, and the entry under the generated code is set to the new
  session. So a creation keeps every existing entry whenever the generated code is not
  held by an active session.
\<close>

theorem createGame_registry:
  "GameSession_new db code qid admin = Inr g \<longrightarrow>
     gameCode g = code
     \<and> map_of (activeGames (snd (createGame db code qid admin sys))) =
         (map_of (activeGames sys))(code \<mapsto> nextObject sys)
     \<and> (map_of (activeGames sys) code = None \<longrightarrow>
          (\<forall>c r. map_of (activeGames sys) c = Some r \<longrightarrow>
                 map_of (activeGames (snd (createGame db code qid admin sys))) c = Some r))
     \<and> (\<forall>c. c \<noteq> code \<longrightarrow>
            map_of (activeGames (snd (createGame db code qid admin sys))) c = map_of (activeGames sys) c)"
proof
  assume g: "GameSession_new db code qid admin = Inr g"
  have m: "map_of (activeGames (snd (createGame db code qid admin sys))) =
         (map_of (activeGames sys))(code \<mapsto> nextObject sys)"
    by (simp add: createGame_ok[OF g] update_conv')
  show "gameCode g = code
     \<and> map_of (activeGames (snd (createGame db code qid admin sys))) =
         (map_of (activeGames sys))(code \<mapsto> nextObject sys)
     \<and> (map_of (activeGames sys) code = None \<longrightarrow>
          (\<forall>c r. map_of (activeGames sys) c = Some r \<longrightarrow>
                 map_of (activeGames (snd (createGame db code qid admin sys))) c = Some r))
     \<and> (\<forall>c. c \<noteq> code \<longrightarrow>
            map_of (activeGames (snd (createGame db code qid admin sys))) c = map_of (activeGames sys) c)"
    unfolding m using GameSession_new_gameCode[OF g] by auto
qed

theorem createGame_registry_witness:
  "\<not> isl (GameSession_new demo_db ''WXYZ'' 1 ''adm2'')
   \<and> map_of (activeGames (run calculateScore_spec
                 [CreateGame ''adm1'' ValidToken 1 ''ABCD'' demo_db] initial)) ''WXYZ'' = None
   \<and> map_of (activeGames (run calculateScore_spec
                 [CreateGame ''adm1'' ValidToken 1 ''ABCD'' demo_db] initial)) ''ABCD'' = Some 0
   \<and> map_of (activeGames (snd (createGame demo_db ''WXYZ'' 1 ''adm2''
         (run calculateScore_spec [CreateGame ''adm1'' ValidToken 1 ''ABCD'' demo_db] initial))))
       ''ABCD'' = Some 0"
proof -
  let ?sys = "run calculateScore_spec [CreateGame ''adm1'' ValidToken 1 ''ABCD'' demo_db] initial"
  have a: "\<not> isl (GameSession_new demo_db ''WXYZ'' 1 ''adm2'')" by code_simp
  then obtain g where g: "GameSession_new demo_db ''WXYZ'' 1 ''adm2'' = Inr g"
    by (cases "GameSession_new demo_db ''WXYZ'' 1 ''adm2''") auto
  have free: "map_of (activeGames ?sys) ''WXYZ'' = None" by code_simp
  have held: "map_of (activeGames ?sys) ''ABCD'' = Some 0" by code_simp
  from createGame_registry[of demo_db "''WXYZ''" 1 "''adm2''" g ?sys] g free held
  have "map_of (activeGames (snd (createGame demo_db ''WXYZ'' 1 ''adm2'' ?sys))) ''ABCD'' = Some 0"
    by blast
  with a free held show ?thesis by blast
qed

text \<open>
  C5. In every state that the server reaches, every player's cumulative score is a
  non-negative integer, and no event (joining, answering, closing a question, advancing,
  ending, a disconnection, a timer) lowers or resets the score of a player who stays on
  the roster, provided that the scoring function never returns a negative number. An
  incorrect or missing answer adds nothing: closing the question leaves that player's
  record as it was.
\<close>

theorem scores_never_decrease:
  "(\<forall>t b. 0 \<le> cs t b) \<longrightarrow>
     (deref (run cs es initial) r = Some s \<and>
      deref (fst (step cs e (run cs es initial))) r = Some s' \<and>
      map_of (players s) sid = Some p \<and> map_of (players s') sid = Some p' \<longrightarrow>
        0 \<le> score p \<and> score p \<le> score p')
     \<and> (question_at s0 = Some q \<and> map_of (players s0) sid = Some p0 \<and>
        currentAnswer p0 \<noteq> Some (find_correctOptionId q) \<longrightarrow>
          map_of (players (snd (endQuestion cs s0))) sid = Some p0)"
proof (intro impI conjI)
  assume cs: "\<forall>t b. 0 \<le> cs t b"
  assume a: "deref (run cs es initial) r = Some s \<and>
      deref (fst (step cs e (run cs es initial))) r = Some s' \<and>
      map_of (players s) sid = Some p \<and> map_of (players s') sid = Some p'"
  from cs a have ok: "scores_ok s" by (intro scores_ok_run[of cs es r s]) auto
  with a show "0 \<le> score p" unfolding scores_ok_def by blast
  from a have "(any_op cs)\<^sup>*\<^sup>* s s'"
    using step_same_object[OF heap_fresh_run[of cs es]] by blast
  with cs have "scores_grow s s'" by (intro scores_grow_star) auto
  with ok a show "score p \<le> score p'" by (intro scores_grow_mono[of s s' sid p p']) auto
next
  assume "question_at s0 = Some q \<and> map_of (players s0) sid = Some p0 \<and>
        currentAnswer p0 \<noteq> Some (find_correctOptionId q)"
  then show "map_of (players (snd (endQuestion cs s0))) sid = Some p0"
    by (simp add: endQuestion_player answer_points_incorrect)
qed

theorem scores_never_decrease_witness:
  "(\<forall>t b. 0 \<le> calculateScore_spec t b)
   \<and> map_option score (map_of (players (the (deref
        (run calculateScore_spec
           [CreateGame ''adm'' ValidToken 1 ''ABCD'' demo_db, JoinGame ''p1'' ''abcd'' ''Alice'',
            JoinGame ''p2'' ''ABCD'' ''Bob'', StartGame ''adm'' 1000,
            SubmitAnswer ''p1'' (Some 2) 3000] initial) 0))) ''p1'') = Some 0
   \<and> map_option score (map_of (players (the (deref
        (fst (step calculateScore_spec (SubmitAnswer ''p2'' (Some 1) 6000)
          (run calculateScore_spec
             [CreateGame ''adm'' ValidToken 1 ''ABCD'' demo_db, JoinGame ''p1'' ''abcd'' ''Alice'',
              JoinGame ''p2'' ''ABCD'' ''Bob'', StartGame ''adm'' 1000,
              SubmitAnswer ''p1'' (Some 2) 3000] initial))) 0))) ''p1'') = Some 910
   \<and> map_of (players (snd (endQuestion calculateScore_spec demo_session))) ''p2'' =
       Some \<lparr> player_id = ''p2'', username = ''Bob'', score = 0,
              currentAnswer = None, answerTimestamp = None \<rparr>"
proof -
  let ?es = "[CreateGame ''adm'' ValidToken 1 ''ABCD'' demo_db, JoinGame ''p1'' ''abcd'' ''Alice'',
              JoinGame ''p2'' ''ABCD'' ''Bob'', StartGame ''adm'' 1000,
              SubmitAnswer ''p1'' (Some 2) 3000]"
  let ?e = "SubmitAnswer ''p2'' (Some 1) 6000"
  let ?sys = "run calculateScore_spec ?es initial"
  let ?sys' = "fst (step calculateScore_spec ?e ?sys)"
  let ?a = "\<lparr> player_id = ''p1'', username = ''Alice'', score = 0,
              currentAnswer = Some 2, answerTimestamp = Some 3000 \<rparr>"
  let ?a' = "\<lparr> player_id = ''p1'', username = ''Alice'', score = 910,
              currentAnswer = Some 2, answerTimestamp = Some 3000 \<rparr>"
  let ?bob = "\<lparr> player_id = ''p2'', username = ''Bob'', score = 0,
                 currentAnswer = None, answerTimestamp = None \<rparr>"
  let ?q = "Question.extend \<lparr> question_id = 10, question_text = ''first'' \<rparr>
              (QuestionWithOptions.fields
                 [\<lparr> option_id = 1, option_text = ''a'', is_correct = False \<rparr>,
                  \<lparr> option_id = 2, option_text = ''b'', is_correct = True \<rparr>])"
  have nn: "\<forall>t b. 0 \<le> calculateScore_spec t b" by (simp add: calculateScore_spec_nonneg)
  have "deref ?sys 0 \<noteq> None" by code_simp
  then have d: "deref ?sys 0 = Some (the (deref ?sys 0))" by simp
  have "deref ?sys' 0 \<noteq> None" by code_simp
  then have d': "deref ?sys' 0 = Some (the (deref ?sys' 0))" by simp
  have p: "map_of (players (the (deref ?sys 0))) ''p1'' = Some ?a" by code_simp
  have p': "map_of (players (the (deref ?sys' 0))) ''p1'' = Some ?a'" by code_simp
  have q: "question_at demo_session = Some ?q" by code_simp
  have b: "map_of (players demo_session) ''p2'' = Some ?bob" by code_simp
  have w: "currentAnswer ?bob \<noteq> Some (find_correctOptionId ?q)" by simp
  note t = scores_never_decrease[of calculateScore_spec ?es 0 "the (deref ?sys 0)" ?e
      "the (deref ?sys' 0)" "''p1''" ?a ?a']
  note u = scores_never_decrease[of calculateScore_spec ?es 0 "the (deref ?sys 0)" ?e
      "the (deref ?sys' 0)" "''p2''" ?a ?a' demo_session ?q ?bob]
  from t nn d d' p p' have "0 \<le> score ?a \<and> score ?a \<le> score ?a'" by blast
  moreover from u nn q b w
  have "map_of (players (snd (endQuestion calculateScore_spec demo_session))) ''p2'' = Some ?bob"
    by blast
  ultimately show ?thesis using nn p p' by simp
qed

text \<open>
  C8. In every state that the server reaches, no two registry entries belong to sessions
  with the same admin identity: an admin owns at most one live session. A \<^verbatim>\<open>create_game\<close>
  request (with a valid token) from the admin of a live session is answered with the code
  of that session, creates nothing and leaves the whole state, the registry included,
  as it was.
\<close>

theorem one_session_per_admin:
  "((c1, r1) \<in> set (activeGames (run cs es initial)) \<and> deref (run cs es initial) r1 = Some g1 \<and>
    (c2, r2) \<in> set (activeGames (run cs es initial)) \<and> deref (run cs es initial) r2 = Some g2 \<and>
    adminSocketId g1 = adminSocketId g2 \<longrightarrow> c1 = c2 \<and> r1 = r2)
   \<and> ((c, r) \<in> set (activeGames (run cs es initial)) \<and> deref (run cs es initial) r = Some g \<longrightarrow>
        create_game db code (adminSocketId g) ValidToken qid (run cs es initial) =
          (run cs es initial, [(ToSocket (adminSocketId g), game_created (gameCode g))], None))"
proof (intro conjI impI)
  assume "(c1, r1) \<in> set (activeGames (run cs es initial)) \<and> deref (run cs es initial) r1 = Some g1 \<and>
    (c2, r2) \<in> set (activeGames (run cs es initial)) \<and> deref (run cs es initial) r2 = Some g2 \<and>
    adminSocketId g1 = adminSocketId g2"
  with registry_entry_unique[OF registry_ok_run, of c1 r1 cs es g1 c2 r2 g2]
  show "c1 = c2" "r1 = r2" by simp_all
next
  let ?sys = "run cs es initial"
  assume a: "(c, r) \<in> set (activeGames ?sys) \<and> deref ?sys r = Some g"
  have "getGameByAdminSocket (adminSocketId g) ?sys \<noteq> None"
  proof
    assume "getGameByAdminSocket (adminSocketId g) ?sys = None"
    from find_game_None[OF this[unfolded getGameByAdminSocket_def], of c r g] a show False by simp
  qed
  then obtain r' g' where f: "getGameByAdminSocket (adminSocketId g) ?sys = Some (r', g')" by auto
  from getGameByAdminSocket_Some[OF f] have d': "deref ?sys r' = Some g'"
    "adminSocketId g' = adminSocketId g" by simp_all
  from find_game_entry[OF f[unfolded getGameByAdminSocket_def]] obtain c'
    where c': "(c', r') \<in> set (activeGames ?sys)" by blast
  from registry_entry_unique[OF registry_ok_run c' d'(1) _ _ d'(2), of c r] a
  have "g' = g" by simp
  with f show "create_game db code (adminSocketId g) ValidToken qid ?sys =
          (?sys, [(ToSocket (adminSocketId g), game_created (gameCode g))], None)"
    by (simp add: create_game_def)
qed

theorem one_session_per_admin_witness:
  "(''ABCD'', 0) \<in> set (activeGames (run calculateScore_spec
        [CreateGame ''adm'' ValidToken 1 ''ABCD'' demo_db, JoinGame ''p1'' ''abcd'' ''Alice''] initial))
   \<and> map_option adminSocketId (deref (run calculateScore_spec
        [CreateGame ''adm'' ValidToken 1 ''ABCD'' demo_db, JoinGame ''p1'' ''abcd'' ''Alice''] initial) 0)
       = Some ''adm''
   \<and> step calculateScore_spec (CreateGame ''adm'' ValidToken 1 ''WXYZ'' demo_db)
        (run calculateScore_spec
          [CreateGame ''adm'' ValidToken 1 ''ABCD'' demo_db, JoinGame ''p1'' ''abcd'' ''Alice''] initial)
       = (run calculateScore_spec
            [CreateGame ''adm'' ValidToken 1 ''ABCD'' demo_db, JoinGame ''p1'' ''abcd'' ''Alice''] initial,
          [(ToSocket ''adm'', game_created ''ABCD'')], None)"
proof -
  let ?es = "[CreateGame ''adm'' ValidToken 1 ''ABCD'' demo_db, JoinGame ''p1'' ''abcd'' ''Alice'']"
  let ?sys = "run calculateScore_spec ?es initial"
  let ?g = "the (deref ?sys 0)"
  have m: "(''ABCD'', 0) \<in> set (activeGames ?sys)" by code_simp
  have "deref ?sys 0 \<noteq> None" by code_simp
  then have d: "deref ?sys 0 = Some ?g" by simp
  have a: "adminSocketId ?g = ''adm''" by code_simp
  have c: "gameCode ?g = ''ABCD''" by code_simp
  note t = one_session_per_admin[of "''ABCD''" 0 calculateScore_spec ?es ?g "''ABCD''" 0 ?g
      "''ABCD''" 0 ?g demo_db "''WXYZ''" 1]
  from t m d have "create_game demo_db ''WXYZ'' (adminSocketId ?g) ValidToken 1 ?sys =
      (?sys, [(ToSocket (adminSocketId ?g), game_created (gameCode ?g))], None)" by blast
  with a c have st: "step calculateScore_spec (CreateGame ''adm'' ValidToken 1 ''WXYZ'' demo_db) ?sys =
      (?sys, [(ToSocket ''adm'', game_created ''ABCD'')], None)"
    unfolding step.simps by (simp only:)
  have ma: "map_option adminSocketId (deref ?sys 0) = Some ''adm''" by code_simp
  from m ma st show ?thesis by (intro conjI)
qed

text \<open>
  C10. A player's disconnection never closes a question. The \<^verbatim>\<open>disconnect\<close> handler, for
  a socket that is a player and not an admin, only removes the player from the roster and
  announces it: the status, the timers and everything else stay, also when every player
  left on the roster has answered, so that \<^verbatim>\<open>allPlayersAnswered()\<close> is then true. And
  whenever an event takes a session from \<open>QUESTION\<close> to \<open>REVEAL\<close> or \<open>LEADERBOARD\<close>, the
  event is an accepted submission of a player of that session after which all players have
  answered, or the firing of a pending timer of that session.
\<close>

theorem disconnect_never_closes:
  "(getGameByAdminSocket sid sys = None \<and> getGameByPlayerSocket sid sys = Some (r, g) \<longrightarrow>
      (\<exists>name. disconnect sid sys =
         (store r (removePlayer sid g) sys,
          [(ToRoom (gameCode g), player_left name (length (players (removePlayer sid g))))],
          None))
      \<and> removePlayer sid g = g\<lparr> players := AList.delete sid (players g) \<rparr>
      \<and> status (removePlayer sid g) = status g
      \<and> timers (fst (disconnect sid sys)) = timers sys
      \<and> ((\<forall>(k, p) \<in> set (players g). k \<noteq> sid \<longrightarrow> currentAnswer p \<noteq> None) \<longrightarrow>
            allPlayersAnswered (removePlayer sid g)))
   \<and> (deref sys r' = Some s \<and> status s = QUESTION \<and>
       deref (fst (step cs e sys)) r' = Some s' \<and> (status s' = REVEAL \<or> status s' = LEADERBOARD) \<longrightarrow>
         (\<exists>sid oid now. e = SubmitAnswer sid oid now \<and> getGameByPlayerSocket sid sys = Some (r', s) \<and>
              fst (submitAnswer now sid oid s) \<and> allPlayersAnswered (snd (submitAnswer now sid oid s)))
         \<or> (\<exists>h. e = TimerFires h \<and> map_of (timers sys) h = Some r'))"
proof (intro conjI impI)
  assume a: "getGameByAdminSocket sid sys = None \<and> getGameByPlayerSocket sid sys = Some (r, g)"
  then have dis: "disconnect sid sys =
         (store r (removePlayer sid g) sys,
          [(ToRoom (gameCode g),
            player_left (case map_of (players g) sid of Some player \<Rightarrow> username player
                         | None \<Rightarrow> ''Unknown'')
              (length (players (removePlayer sid g))))],
          None)"
    by (simp add: disconnect_def Let_def removePlayer_def)
  then show "\<exists>name. disconnect sid sys =
         (store r (removePlayer sid g) sys,
          [(ToRoom (gameCode g), player_left name (length (players (removePlayer sid g))))],
          None)" by blast
  show "removePlayer sid g = g\<lparr> players := AList.delete sid (players g) \<rparr>"
    by (simp add: removePlayer_def)
  show "status (removePlayer sid g) = status g" by (simp add: removePlayer_def)
  from dis show "timers (fst (disconnect sid sys)) = timers sys" by simp
next
  assume "\<forall>(k, p) \<in> set (players g). k \<noteq> sid \<longrightarrow> currentAnswer p \<noteq> None"
  then show "allPlayersAnswered (removePlayer sid g)" by (rule allPlayersAnswered_removePlayer)
next
  assume a: "deref sys r' = Some s \<and> status s = QUESTION \<and>
       deref (fst (step cs e sys)) r' = Some s' \<and> (status s' = REVEAL \<or> status s' = LEADERBOARD)"
  then have d: "deref sys r' = Some s" "status s = QUESTION"
    "deref (fst (step cs e sys)) r' = Some s'" "status s' = REVEAL \<or> status s' = LEADERBOARD"
    by simp_all
  show "(\<exists>sid oid now. e = SubmitAnswer sid oid now \<and> getGameByPlayerSocket sid sys = Some (r', s) \<and>
              fst (submitAnswer now sid oid s) \<and> allPlayersAnswered (snd (submitAnswer now sid oid s)))
         \<or> (\<exists>h. e = TimerFires h \<and> map_of (timers sys) h = Some r')"
  proof (cases e)
    case (CreateGame sid token qid code db)
    with d(3) create_game_heap[of db code sid token qid sys r' s']
    have "deref sys r' = Some s' \<or> GameSession_new db code qid sid = Inr s'" by auto
    with d(1,2,4) show ?thesis by (auto dest: GameSession_new_status)
  next
    case (JoinGame sid code name)
    with quiet_event_keeps_open[OF hrel_join_game d(1,2)] d(3,4) show ?thesis by auto
  next
    case (StartGame sid now)
    with quiet_event_keeps_open[OF hrel_start_game d(1,2)] d(3,4) show ?thesis by auto
  next
    case (SubmitAnswer sid oid now)
    with submit_answer_closes[OF d(1,2) _ d(4), of cs now sid oid] d(3) show ?thesis by simp
  next
    case (NextQuestion sid now)
    with quiet_event_keeps_open[OF hrel_next_question d(1,2)] d(3,4) show ?thesis by auto
  next
    case (EndGame sid)
    with quiet_event_keeps_open[OF hrel_end_game d(1,2)] d(3,4) show ?thesis by auto
  next
    case (Disconnect sid)
    with quiet_event_keeps_open[OF hrel_disconnect d(1,2)] d(3,4) show ?thesis by auto
  next
    case (TimerFires h)
    with timer_fires_closes[OF d(1,2) _ d(4), of cs h] d(3) show ?thesis by simp
  qed
qed

theorem disconnect_never_closes_witness:
  "getGameByAdminSocket ''p2'' demo_open = None
   \<and> map_option fst (getGameByPlayerSocket ''p2'' demo_open) = Some 0
   \<and> map_option status (deref (fst (step calculateScore_spec (Disconnect ''p2'') demo_open)) 0)
       = Some QUESTION
   \<and> map_option allPlayersAnswered
         (deref (fst (step calculateScore_spec (Disconnect ''p2'') demo_open)) 0) = Some True
   \<and> timers (fst (step calculateScore_spec (Disconnect ''p2'') demo_open)) = [(0, 0)]
   \<and> map_option status
         (deref (fst (step calculateScore_spec (TimerFires 0)
                   (fst (step calculateScore_spec (Disconnect ''p2'') demo_open)))) 0)
       = Some LEADERBOARD
   \<and> map_of (timers (fst (step calculateScore_spec (Disconnect ''p2'') demo_open))) 0 = Some 0"
proof -
  let ?sys2 = "fst (step calculateScore_spec (Disconnect ''p2'') demo_open)"
  let ?sys3 = "fst (step calculateScore_spec (TimerFires 0) ?sys2)"
  let ?g = "the (deref demo_open 0)"
  let ?s2 = "the (deref ?sys2 0)"
  let ?s3 = "the (deref ?sys3 0)"
  have na: "getGameByAdminSocket ''p2'' demo_open = None" by code_simp
  have pl: "getGameByPlayerSocket ''p2'' demo_open = Some (0, ?g)" by code_simp
  have others: "\<forall>(k, p) \<in> set (players ?g). k \<noteq> ''p2'' \<longrightarrow> currentAnswer p \<noteq> None" by code_simp
  have stg: "status ?g = QUESTION" by code_simp
  have tm: "timers demo_open = [(0, 0)]" by code_simp
  note t = disconnect_never_closes[of "''p2''" demo_open 0 ?g 0 ?s2 calculateScore_spec "TimerFires 0" ?s3]
  from t na pl obtain name where
    dis: "disconnect ''p2'' demo_open =
            (store 0 (removePlayer ''p2'' ?g) demo_open,
             [(ToRoom (gameCode ?g), player_left name (length (players (removePlayer ''p2'' ?g))))],
             None)"
    and st: "status (removePlayer ''p2'' ?g) = status ?g"
    and tms: "timers (fst (disconnect ''p2'' demo_open)) = timers demo_open"
    by blast
  from t na pl others have all: "allPlayersAnswered (removePlayer ''p2'' ?g)" by blast
  from dis have d2: "deref ?sys2 0 = Some (removePlayer ''p2'' ?g)" by simp
  from d2 st stg have 1: "map_option status (deref ?sys2 0) = Some QUESTION" by simp
  from d2 all have 2: "map_option allPlayersAnswered (deref ?sys2 0) = Some True" by simp
  from tms tm have 3: "timers ?sys2 = [(0, 0)]" by simp
  have 4: "map_option status (deref ?sys3 0) = Some LEADERBOARD" by code_simp
  from d2 have d2': "deref ?sys2 0 = Some ?s2" by simp
  from d2 st stg have s2q: "status ?s2 = QUESTION" by simp
  from 4 have "deref ?sys3 0 \<noteq> None" by auto
  then have d3: "deref ?sys3 0 = Some ?s3" by simp
  from 4 d3 have s3l: "status ?s3 = LEADERBOARD" by (metis option.inject option.simps(9))
  note t2 = disconnect_never_closes[where sys = ?sys2 and r' = 0 and s = ?s2
      and cs = calculateScore_spec and e = "TimerFires 0" and s' = ?s3]
  from t2 d2' s2q d3 s3l
  have "(\<exists>sid oid now. TimerFires 0 = SubmitAnswer sid oid now \<and>
            getGameByPlayerSocket sid ?sys2 = Some (0, ?s2) \<and>
            fst (submitAnswer now sid oid ?s2) \<and> allPlayersAnswered (snd (submitAnswer now sid oid ?s2)))
         \<or> (\<exists>h. TimerFires 0 = TimerFires h \<and> map_of (timers ?sys2) h = Some 0)"
    by blast
  then have 5: "map_of (timers ?sys2) 0 = Some 0" by auto
  from pl have 0: "map_option fst (getGameByPlayerSocket ''p2'' demo_open) = Some 0" by simp
  from na 0 1 2 3 4 5 show ?thesis by (intro conjI)
qed

text \<open>
  C1, as stated, fails: \<^verbatim>\<open>endQuestion\<close> has no guard. On a session with a question open
  and a correct answer recorded, a second invocation adds the points a second time. The
  server can get there: when the admin advances twice while a question is open, three
  deadline timers are pending; the first to fire closes the question and cancels the last
  one, and the second to fire runs the closing code again on the closed question.
\<close>

theorem endQuestion_twice_doubles:
  "status demo_session = QUESTION
   \<and> map_option score (map_of (players (snd (endQuestion calculateScore_spec demo_session))) ''p1'')
       = Some 910
   \<and> map_option score (map_of (players (snd (endQuestion calculateScore_spec
         (snd (endQuestion calculateScore_spec demo_session))))) ''p1'') = Some 1820
   \<and> status_of (run calculateScore_spec
        [NextQuestion ''adm'' 4000, NextQuestion ''adm'' 5000, SubmitAnswer ''p1'' (Some 5) 7000,
         TimerFires 0] demo_open) 0 = Some LEADERBOARD
   \<and> score_of (run calculateScore_spec
        [NextQuestion ''adm'' 4000, NextQuestion ''adm'' 5000, SubmitAnswer ''p1'' (Some 5) 7000,
         TimerFires 0] demo_open) 0 ''p1'' = Some 910
   \<and> score_of (run calculateScore_spec
        [NextQuestion ''adm'' 4000, NextQuestion ''adm'' 5000, SubmitAnswer ''p1'' (Some 5) 7000,
         TimerFires 0, TimerFires 1] demo_open) 0 ''p1'' = Some 1820"
  by code_simp

text \<open>
  C1, amended. \<^verbatim>\<open>endQuestion\<close> is not idempotent: each invocation on an existing
  question adds to every player's cumulative score the points of that player's recorded
  answer, so a second invocation with the answers unchanged adds them once more. What the
  code does against a double close is to cancel the deadline: the closing code, on either
  path, cancels the timer whose handle the session stores and clears the handle, after
  which the firing of that timer does nothing.
\<close>

theorem endQuestion_adds_points_per_call:
  "(question_at s = Some q \<and> map_of (players s) sid = Some p \<longrightarrow>
      map_option score (map_of (players (snd (endQuestion cs s))) sid) =
        Some (score p + answer_points cs s (find_correctOptionId q) p) \<and>
      map_option score (map_of (players (snd (endQuestion cs (snd (endQuestion cs s))))) sid) =
        Some (score p + 2 * answer_points cs s (find_correctOptionId q) p))
   \<and> (deref sys r = Some g \<and> questionTimer g = Some h \<longrightarrow>
        map_of (timers (fst (closeQuestion cs r sys))) h = None \<and>
        (\<exists>g'. deref (fst (closeQuestion cs r sys)) r = Some g' \<and> questionTimer g' = None) \<and>
        timer_fires cs h (fst (closeQuestion cs r sys)) = (fst (closeQuestion cs r sys), [], None))"
proof (intro conjI impI)
  assume a: "question_at s = Some q \<and> map_of (players s) sid = Some p"
  then show "map_option score (map_of (players (snd (endQuestion cs s))) sid) =
        Some (score p + answer_points cs s (find_correctOptionId q) p)"
    by (intro endQuestion_twice(1)) simp_all
  from a show "map_option score (map_of (players (snd (endQuestion cs (snd (endQuestion cs s))))) sid) =
        Some (score p + 2 * answer_points cs s (find_correctOptionId q) p)"
    by (intro endQuestion_twice(2)) simp_all
next
  assume a: "deref sys r = Some g \<and> questionTimer g = Some h"
  then have t: "timers (fst (closeQuestion cs r sys)) = AList.delete h (timers sys)"
    by (simp add: closeQuestion_timers clear_questionTimer_def clearTimeout_def)
  then show n: "map_of (timers (fst (closeQuestion cs r sys))) h = None"
    by (simp add: delete_conv')
  from a show "\<exists>g'. deref (fst (closeQuestion cs r sys)) r = Some g' \<and> questionTimer g' = None"
    by (intro closeQuestion_handle) simp
  from n show "timer_fires cs h (fst (closeQuestion cs r sys)) = (fst (closeQuestion cs r sys), [], None)"
    by (simp add: timer_fires_def)
qed

theorem endQuestion_adds_points_per_call_witness:
  "(\<exists>q. question_at demo_session = Some q)
   \<and> map_option score (map_of (players demo_session) ''p1'') = Some 0
   \<and> map_option score (map_of (players (snd (endQuestion calculateScore_spec demo_session))) ''p1'')
       = Some 910
   \<and> map_option score (map_of (players (snd (endQuestion calculateScore_spec
         (snd (endQuestion calculateScore_spec demo_session))))) ''p1'') = Some (2 * 910)
   \<and> map_option questionTimer (deref demo_open 0) = Some (Some 0)
   \<and> map_of (timers demo_open) 0 = Some 0
   \<and> map_of (timers (fst (closeQuestion calculateScore_spec 0 demo_open))) 0 = None
   \<and> timer_fires calculateScore_spec 0 (fst (closeQuestion calculateScore_spec 0 demo_open)) =
       (fst (closeQuestion calculateScore_spec 0 demo_open), [], None)"
proof -
  let ?q = "Question.extend \<lparr> question_id = 10, question_text = ''first'' \<rparr>
              (QuestionWithOptions.fields
                 [\<lparr> option_id = 1, option_text = ''a'', is_correct = False \<rparr>,
                  \<lparr> option_id = 2, option_text = ''b'', is_correct = True \<rparr>])"
  let ?a = "\<lparr> player_id = ''p1'', username = ''Alice'', score = 0,
              currentAnswer = Some 2, answerTimestamp = Some 3000 \<rparr>"
  let ?g = "the (deref demo_open 0)"
  have q: "question_at demo_session = Some ?q" by code_simp
  have p: "map_of (players demo_session) ''p1'' = Some ?a" by code_simp
  have pts: "answer_points calculateScore_spec demo_session (find_correctOptionId ?q) ?a = 910"
    by code_simp
  have "deref demo_open 0 \<noteq> None" by code_simp
  then have d: "deref demo_open 0 = Some ?g" by simp
  have h: "questionTimer ?g = Some 0" by code_simp
  have pend: "map_of (timers demo_open) 0 = Some 0" by code_simp
  note t = endQuestion_adds_points_per_call[of demo_session ?q "''p1''" ?a calculateScore_spec
      demo_open 0 ?g 0]
  from t q p pts
  have 1: "map_option score (map_of (players (snd (endQuestion calculateScore_spec demo_session))) ''p1'')
       = Some 910"
    and 2: "map_option score (map_of (players (snd (endQuestion calculateScore_spec
         (snd (endQuestion calculateScore_spec demo_session))))) ''p1'') = Some (2 * 910)"
    by simp_all
  from t d h
  have 3: "map_of (timers (fst (closeQuestion calculateScore_spec 0 demo_open))) 0 = None"
    and 4: "timer_fires calculateScore_spec 0 (fst (closeQuestion calculateScore_spec 0 demo_open)) =
       (fst (closeQuestion calculateScore_spec 0 demo_open), [], None)"
    by blast+
  from q have 0: "\<exists>q. question_at demo_session = Some q" by blast
  from p have 5: "map_option score (map_of (players demo_session) ''p1'') = Some 0" by simp
  have 6: "map_option questionTimer (deref demo_open 0) = Some (Some 0)" by code_simp
  from 0 5 1 2 6 pend 3 4 show ?thesis by (intro conjI)
qed

text \<open>
  C4, as stated, fails: \<^verbatim>\<open>startNextQuestion\<close> increments the index before it tests it.
  After three more \<^verbatim>\<open>start_game\<close> requests on a quiz of three questions the live
  session has index 3, the handler having answered "No questions available".
\<close>

theorem index_reaches_total:
  "map_option currentQuestionIndex (deref (run calculateScore_spec
      [StartGame ''adm'' 4000, StartGame ''adm'' 5000, StartGame ''adm'' 6000] demo_open) 0) = Some 3
   \<and> map_option totalQuestions (deref (run calculateScore_spec
      [StartGame ''adm'' 4000, StartGame ''adm'' 5000, StartGame ''adm'' 6000] demo_open) 0) = Some 3
   \<and> map_of (activeGames (run calculateScore_spec
      [StartGame ''adm'' 4000, StartGame ''adm'' 5000, StartGame ''adm'' 6000] demo_open)) ''ABCD''
       = Some 0
   \<and> snd (step calculateScore_spec (StartGame ''adm'' 6000)
        (run calculateScore_spec [StartGame ''adm'' 4000, StartGame ''adm'' 5000] demo_open)) =
       ([(ToSocket ''adm'', error_msg ''No questions available'')], None)"
  by code_simp

text \<open>
  C4, amended. The question index starts at \<open>-1\<close> and is never below it in a state that
  the server reaches. \<^verbatim>\<open>startNextQuestion\<close> adds exactly one to the index at each call and
  returns "no more questions" exactly when the incremented index is at least
  \<open>totalQuestions\<close>; it then changes nothing else (the status stays), and the index stays
  incremented. A call made while \<^verbatim>\<open>isLastQuestion()\<close> is false leaves the index at most
  \<open>totalQuestions - 1\<close>.
\<close>

theorem question_index_bounds:
  "currentQuestionIndex (snd (startNextQuestion now s)) = currentQuestionIndex s + 1
   \<and> totalQuestions (snd (startNextQuestion now s)) = totalQuestions s
   \<and> (fst (startNextQuestion now s) = Inr None \<longleftrightarrow> totalQuestions s \<le> currentQuestionIndex s + 1)
   \<and> (totalQuestions s \<le> currentQuestionIndex s + 1 \<longrightarrow>
        snd (startNextQuestion now s) = s\<lparr> currentQuestionIndex := currentQuestionIndex s + 1 \<rparr>)
   \<and> (\<not> isLastQuestion s \<longrightarrow>
        currentQuestionIndex (snd (startNextQuestion now s)) \<le> totalQuestions s - 1)
   \<and> (deref (run cs es initial) r = Some g \<longrightarrow> - 1 \<le> currentQuestionIndex g)"
proof (intro conjI impI)
  show "fst (startNextQuestion now s) = Inr None \<longleftrightarrow> totalQuestions s \<le> currentQuestionIndex s + 1"
    by (auto simp: startNextQuestion_def Let_def split: option.splits)
  show "snd (startNextQuestion now s) = s\<lparr> currentQuestionIndex := currentQuestionIndex s + 1 \<rparr>"
    if "totalQuestions s \<le> currentQuestionIndex s + 1"
    using that by (simp add: startNextQuestion_def Let_def)
  show "currentQuestionIndex (snd (startNextQuestion now s)) \<le> totalQuestions s - 1"
    if "\<not> isLastQuestion s"
    using that by (simp add: isLastQuestion_def)
  show "- 1 \<le> currentQuestionIndex g" if "deref (run cs es initial) r = Some g"
    using that by (rule index_lower_run)
qed simp_all

theorem question_index_bounds_witness:
  "totalQuestions demo_session \<le> currentQuestionIndex demo_session + 1
   \<and> startNextQuestion 2000 demo_session = (Inr None, demo_session\<lparr> currentQuestionIndex := 1 \<rparr>)
   \<and> map_option isLastQuestion (deref demo_open 0) = Some False
   \<and> map_option (\<lambda>g. currentQuestionIndex (snd (startNextQuestion 2000 g))) (deref demo_open 0) = Some 1
   \<and> map_option currentQuestionIndex (deref (run calculateScore_spec
         [CreateGame ''adm'' ValidToken 1 ''ABCD'' demo_db] initial) 0) = Some (- 1)"
proof -
  let ?g = "the (deref demo_open 0)"
  let ?es = "[CreateGame ''adm'' ValidToken 1 ''ABCD'' demo_db]"
  let ?new = "the (deref (run calculateScore_spec ?es initial) 0)"
  have le: "totalQuestions demo_session \<le> currentQuestionIndex demo_session + 1" by code_simp
  have i0: "currentQuestionIndex demo_session = 0" by code_simp
  have "deref demo_open 0 \<noteq> None" by code_simp
  then have d: "deref demo_open 0 = Some ?g" by simp
  have nl: "\<not> isLastQuestion ?g" by code_simp
  have ig: "currentQuestionIndex ?g = 0" by code_simp
  have "deref (run calculateScore_spec ?es initial) 0 \<noteq> None" by code_simp
  then have dn: "deref (run calculateScore_spec ?es initial) 0 = Some ?new" by simp
  have i00: "currentQuestionIndex ?new = - 1" by code_simp
  note t1 = question_index_bounds[of 2000 demo_session calculateScore_spec ?es 0 ?new]
  note t2 = question_index_bounds[of 2000 ?g calculateScore_spec ?es 0 ?new]
  from t1 le have "fst (startNextQuestion 2000 demo_session) = Inr None"
    and "snd (startNextQuestion 2000 demo_session) =
           demo_session\<lparr> currentQuestionIndex := currentQuestionIndex demo_session + 1 \<rparr>"
    by blast+
  with i0 have 1: "startNextQuestion 2000 demo_session =
      (Inr None, demo_session\<lparr> currentQuestionIndex := 1 \<rparr>)"
    by (simp add: prod_eq_iff)
  from t2 have "currentQuestionIndex (snd (startNextQuestion 2000 ?g)) = currentQuestionIndex ?g + 1"
    by blast
  with ig have 2: "map_option (\<lambda>g. currentQuestionIndex (snd (startNextQuestion 2000 g)))
      (deref demo_open 0) = Some 1" by (subst d) simp
  from nl have 3: "map_option isLastQuestion (deref demo_open 0) = Some False" by (subst d) simp
  from t1 dn have "- 1 \<le> currentQuestionIndex ?new" by blast
  with i00 have 4: "map_option currentQuestionIndex (deref (run calculateScore_spec ?es initial) 0)
      = Some (- 1)" by (subst dn) (simp only: option.map)
  from le 1 3 2 4 show ?thesis by (intro conjI)
qed

text \<open>
  C2, as stated, fails. \<^verbatim>\<open>setQuestionTimer\<close> overwrites the stored handle without
  cancelling the timer it names, and the \<^verbatim>\<open>next_question\<close> handler does not test the
  status: a request while a question is open leaves two pending timers for the session.
  The deadline callback does not test the status either: a timer that fires after the
  question has closed runs the closing code again and changes the scores.
\<close>

theorem two_live_deadlines:
  "timers demo_open = [(0, 0)]
   \<and> timers (run calculateScore_spec [NextQuestion ''adm'' 4000] demo_open) = [(0, 0), (1, 0)]
   \<and> status_of (run calculateScore_spec
        [NextQuestion ''adm'' 4000, NextQuestion ''adm'' 5000, SubmitAnswer ''p1'' (Some 5) 7000,
         TimerFires 0] demo_open) 0 = Some LEADERBOARD
   \<and> timers (run calculateScore_spec
        [NextQuestion ''adm'' 4000, NextQuestion ''adm'' 5000, SubmitAnswer ''p1'' (Some 5) 7000,
         TimerFires 0] demo_open) = [(1, 0)]
   \<and> score_of (run calculateScore_spec
        [NextQuestion ''adm'' 4000, NextQuestion ''adm'' 5000, SubmitAnswer ''p1'' (Some 5) 7000,
         TimerFires 0] demo_open) 0 ''p1'' = Some 910
   \<and> score_of (fst (step calculateScore_spec (TimerFires 1) (run calculateScore_spec
        [NextQuestion ''adm'' 4000, NextQuestion ''adm'' 5000, SubmitAnswer ''p1'' (Some 5) 7000,
         TimerFires 0] demo_open))) 0 ''p1'' = Some 1820"
  by code_simp

text \<open>
  C2, amended. Arming schedules one new timer and stores its handle. The deadline
  callback runs the closing code without looking at the status; what keeps it from acting
  on a closed question is cancellation: the closing code (on either path) and the teardown
  cancel the timer whose handle the session stores and clear the handle. Hence, as long as
  a question is opened only for a session that stores no handle (that is, after the
  previous question has closed), every pending timer is the one its session stores: a
  session has at most one pending timer, none once its question has closed or the session
  is torn down, and so no deadline fires after the close.
\<close>

theorem one_deadline_per_session:
  "(timers_ok sys \<and> heap_fresh sys \<and> \<not> arms_over_pending e sys \<longrightarrow>
      timers_ok (fst (step cs e sys)) \<and> heap_fresh (fst (step cs e sys)))
   \<and> timers_ok initial \<and> heap_fresh initial
   \<and> (timers_ok sys \<and> (h1, r) \<in> set (timers sys) \<and> (h2, r) \<in> set (timers sys) \<longrightarrow> h1 = h2)
   \<and> (timers_ok sys \<and> deref sys r = Some g \<and> questionTimer g = None \<longrightarrow>
        (h, r) \<notin> set (timers sys))
   \<and> (timers_ok sys \<and> deref sys r = Some g \<longrightarrow>
        (h, r) \<notin> set (timers (fst (closeQuestion cs r sys))) \<and>
        (h, r) \<notin> set (timers (cleanup r sys)))
   \<and> (deref sys r = Some g \<longrightarrow>
        timers (setQuestionTimer r sys) = timers sys @ [(nextTimer sys, r)] \<and>
        deref (setQuestionTimer r sys) r = Some (g\<lparr> questionTimer := Some (nextTimer sys) \<rparr>) \<and>
        handleQuestion r qd sys =
          (setQuestionTimer r sys, [(ToRoom (gameCode g), question_start qd)], None))
   \<and> (map_of (timers sys) h = Some r \<and> deref sys r = Some g \<and>
       fst (endQuestion cs g) = Inr res \<longrightarrow>
        timer_fires cs h sys =
          (store r ((snd (endQuestion cs g))\<lparr> status := LEADERBOARD \<rparr>)
             (clear_questionTimer g (sys\<lparr> timers := AList.delete h (timers sys) \<rparr>)),
           [(ToRoom (gameCode g), question_end res), (ToRoom (gameCode g), leaderboard_update)],
           None))"
proof (intro conjI impI)
  show "timers_ok initial" by (simp add: timers_ok_def initial_def)
  show "heap_fresh initial" by (rule heap_fresh_initial)
next
  assume "timers_ok sys \<and> heap_fresh sys \<and> \<not> arms_over_pending e sys"
  then show "timers_ok (fst (step cs e sys))" "heap_fresh (fst (step cs e sys))"
    by (simp_all add: timers_ok_step heap_fresh_step)
next
  assume "timers_ok sys \<and> (h1, r) \<in> set (timers sys) \<and> (h2, r) \<in> set (timers sys)"
  then show "h1 = h2" using timers_ok_one by blast
next
  assume "timers_ok sys \<and> deref sys r = Some g \<and> questionTimer g = None"
  then show "(h, r) \<notin> set (timers sys)" using timers_ok_none by blast
next
  assume a: "timers_ok sys \<and> deref sys r = Some g"
  then obtain g' where "deref (fst (closeQuestion cs r sys)) r = Some g'" "questionTimer g' = None"
    using closeQuestion_handle by blast
  with timers_ok_closeQuestion[of sys cs r] a
  show "(h, r) \<notin> set (timers (fst (closeQuestion cs r sys)))"
    using timers_ok_none by blast
  from a have "deref (cleanup r sys) r = Some (g\<lparr> questionTimer := None \<rparr>)"
    by (simp add: cleanup_def)
  with timers_ok_cleanup[of sys r] a show "(h, r) \<notin> set (timers (cleanup r sys))"
    using timers_ok_none[of "cleanup r sys" r "g\<lparr> questionTimer := None \<rparr>" h] by simp
next
  assume a: "deref sys r = Some g"
  show "timers (setQuestionTimer r sys) = timers sys @ [(nextTimer sys, r)]"
    by (rule setQuestionTimer_arms(1)[OF a])
  show "deref (setQuestionTimer r sys) r = Some (g\<lparr> questionTimer := Some (nextTimer sys) \<rparr>)"
    by (rule setQuestionTimer_arms(3)[OF a])
  show "handleQuestion r qd sys =
          (setQuestionTimer r sys, [(ToRoom (gameCode g), question_start qd)], None)"
    by (rule handleQuestion_arms[OF a])
next
  assume "map_of (timers sys) h = Some r \<and> deref sys r = Some g \<and>
       fst (endQuestion cs g) = Inr res"
  then show "timer_fires cs h sys =
          (store r ((snd (endQuestion cs g))\<lparr> status := LEADERBOARD \<rparr>)
             (clear_questionTimer g (sys\<lparr> timers := AList.delete h (timers sys) \<rparr>)),
           [(ToRoom (gameCode g), question_end res), (ToRoom (gameCode g), leaderboard_update)],
           None)"
    by (intro timer_fires_runs_closing(1)) simp_all
qed

theorem one_deadline_per_session_witness:
  "timers_ok demo_open \<and> heap_fresh demo_open
   \<and> \<not> arms_over_pending (SubmitAnswer ''p2'' (Some 1) 6000) demo_open
   \<and> timers_ok (fst (step calculateScore_spec (SubmitAnswer ''p2'' (Some 1) 6000) demo_open))
   \<and> timers (fst (step calculateScore_spec (SubmitAnswer ''p2'' (Some 1) 6000) demo_open)) = []
   \<and> \<not> arms_over_pending (NextQuestion ''adm'' 8000)
         (fst (step calculateScore_spec (SubmitAnswer ''p2'' (Some 1) 6000) demo_open))
   \<and> timers_ok (fst (step calculateScore_spec (NextQuestion ''adm'' 8000)
         (fst (step calculateScore_spec (SubmitAnswer ''p2'' (Some 1) 6000) demo_open))))
   \<and> timers (fst (step calculateScore_spec (NextQuestion ''adm'' 8000)
         (fst (step calculateScore_spec (SubmitAnswer ''p2'' (Some 1) 6000) demo_open)))) = [(1, 0)]
   \<and> (0, 0) \<in> set (timers demo_open)
   \<and> (0, 0) \<notin> set (timers (fst (closeQuestion calculateScore_spec 0 demo_open)))
   \<and> timers_ok demo_last \<and> heap_fresh demo_last \<and> timers demo_last = [(2, 0)]
   \<and> \<not> arms_over_pending (NextQuestion ''adm'' 40000) demo_last
   \<and> timers_ok (fst (step calculateScore_spec (NextQuestion ''adm'' 40000) demo_last))
   \<and> timers (setQuestionTimer 0
         (fst (step calculateScore_spec (SubmitAnswer ''p2'' (Some 1) 6000) demo_open))) = [(1, 0)]
   \<and> map_option questionTimer (deref (setQuestionTimer 0
         (fst (step calculateScore_spec (SubmitAnswer ''p2'' (Some 1) 6000) demo_open))) 0)
       = Some (Some 1)
   \<and> status_of demo_closed 0 = Some LEADERBOARD
   \<and> map_of (timers demo_closed) 1 = Some 0
   \<and> score_of demo_closed 0 ''p1'' = Some 910
   \<and> score_of (fst (timer_fires calculateScore_spec 1 demo_closed)) 0 ''p1'' = Some 1820"
proof -
  let ?e1 = "SubmitAnswer ''p2'' (Some 1) 6000"
  let ?e2 = "NextQuestion ''adm'' 8000"
  let ?e3 = "NextQuestion ''adm'' 40000"
  let ?sys1 = "fst (step calculateScore_spec ?e1 demo_open)"
  let ?sys2 = "fst (step calculateScore_spec ?e2 ?sys1)"
  let ?g = "the (deref demo_open 0)"
  let ?a = "the (deref ?sys1 0)"
  let ?c = "the (deref demo_closed 0)"
  let ?res = "projr (fst (endQuestion calculateScore_spec ?c))"
  have ok0: "timers_ok demo_open" by code_simp
  have fr0: "heap_fresh demo_open" by code_simp
  have g1: "\<not> arms_over_pending ?e1 demo_open" by code_simp
  have g2: "\<not> arms_over_pending ?e2 ?sys1" by code_simp
  have t1: "timers ?sys1 = []" by code_simp
  have t2: "timers ?sys2 = [(1, 0)]" by code_simp
  have pend: "(0, 0) \<in> set (timers demo_open)" by code_simp
  have "deref demo_open 0 \<noteq> None" by code_simp
  then have d: "deref demo_open 0 = Some ?g" by simp
  note a = one_deadline_per_session[where sys = demo_open and e = ?e1 and cs = calculateScore_spec
      and r = 0 and g = ?g and h = 0]
  from a ok0 fr0 g1 have ok1: "timers_ok ?sys1" and fr1: "heap_fresh ?sys1" by blast+
  note b = one_deadline_per_session[where sys = ?sys1 and e = ?e2 and cs = calculateScore_spec
      and r = 0 and g = ?a]
  from b ok1 fr1 g2 have ok2: "timers_ok ?sys2" by blast
  from a ok0 d have c: "(0, 0) \<notin> set (timers (fst (closeQuestion calculateScore_spec 0 demo_open)))"
    by blast
  have okl: "timers_ok demo_last" by code_simp
  have frl: "heap_fresh demo_last" by code_simp
  have tl: "timers demo_last = [(2, 0)]" by code_simp
  have g3: "\<not> arms_over_pending ?e3 demo_last" by code_simp
  note l = one_deadline_per_session[where sys = demo_last and e = ?e3 and cs = calculateScore_spec]
  from l okl frl g3 have ok3: "timers_ok (fst (step calculateScore_spec ?e3 demo_last))" by blast
  have "deref ?sys1 0 \<noteq> None" by code_simp
  then have da: "deref ?sys1 0 = Some ?a" by simp
  have n1: "nextTimer ?sys1 = 1" by code_simp
  from b da have arm: "timers (setQuestionTimer 0 ?sys1) = timers ?sys1 @ [(nextTimer ?sys1, 0)]"
    and arm2: "deref (setQuestionTimer 0 ?sys1) 0 = Some (?a\<lparr> questionTimer := Some (nextTimer ?sys1) \<rparr>)"
    by blast+
  from arm have s1: "timers (setQuestionTimer 0 ?sys1) = [(1, 0)]" unfolding t1 n1 by simp
  from arm2 have s2: "map_option questionTimer (deref (setQuestionTimer 0 ?sys1) 0) = Some (Some 1)"
    unfolding n1 by simp
  have stc: "status_of demo_closed 0 = Some LEADERBOARD" by code_simp
  have pc: "map_of (timers demo_closed) 1 = Some 0" by code_simp
  have sc: "score_of demo_closed 0 ''p1'' = Some 910" by code_simp
  have "deref demo_closed 0 \<noteq> None" by code_simp
  then have dc: "deref demo_closed 0 = Some ?c" by simp
  have "\<not> isl (fst (endQuestion calculateScore_spec ?c))" by code_simp
  then have rc: "fst (endQuestion calculateScore_spec ?c) = Inr ?res" by simp
  note f = one_deadline_per_session[where sys = demo_closed and cs = calculateScore_spec
      and h = 1 and r = 0 and g = ?c and res = ?res]
  from f pc dc rc
  have fire: "timer_fires calculateScore_spec 1 demo_closed =
      (store 0 ((snd (endQuestion calculateScore_spec ?c))\<lparr> status := LEADERBOARD \<rparr>)
         (clear_questionTimer ?c (demo_closed\<lparr> timers := AList.delete 1 (timers demo_closed) \<rparr>)),
       [(ToRoom (gameCode ?c), question_end ?res), (ToRoom (gameCode ?c), leaderboard_update)],
       None)"
    by blast
  have pts: "map_option score (map_of (players (snd (endQuestion calculateScore_spec ?c))) ''p1'')
      = Some 1820" by code_simp
  have s3: "score_of (fst (timer_fires calculateScore_spec 1 demo_closed)) 0 ''p1'' = Some 1820"
    unfolding fire using pts by (simp add: score_of_def)
  from ok0 fr0 g1 ok1 t1 g2 ok2 t2 pend c okl frl tl g3 ok3 s1 s2 stc pc sc s3
  show ?thesis by (intro conjI)
qed

end
